(* ===== verification/Prelude.thy ===== *)
theory Prelude
  imports Main "HOL-Library.Sublist" "HOL-Library.Word"
begin

text \<open>
  Shared vocabulary of the development: the Python exceptions the wizard can
  end with, the state-and-abort action type in which every function of
  \<open>control_wizard.py\<close> is modelled, and generic lemmas on actions, prefixes
  and maps that the component theories use.

  An action \<open>('s, 'a) act\<close> takes the state and returns either a result
  (\<open>Inr\<close>) or an abort (\<open>Inl\<close>), together with the state reached.
  An abort keeps the state: the wizard never rolls back, so the effects made
  before a \<open>typer.Exit\<close> or an uncaught exception are visible afterwards.
\<close>

named_theorems act_simps "evaluation rules of the action combinators"
named_theorems fs_simps "evaluation rules of the file-system primitives"

type_synonym path = "string list"
type_synonym bytes = "8 word list"

text \<open>The \<open>OSError\<close> subclasses that pathlib and subprocess raise in the paths modelled.\<close>

datatype oserror =
    FileNotFoundError
  | FileExistsError
  | NotADirectoryError
  | IsADirectoryError
  | PermissionError
  | RuntimeError

text \<open>
  How a command stops early: \<open>typer.Exit(code)\<close>, or an exception no
  handler catches (Python then exits with status 1).
\<close>

datatype abort = Exit int | Raise oserror

type_synonym ('s, 'a) act = "'s \<Rightarrow> (abort + 'a) \<times> 's"

definition ret :: "'a \<Rightarrow> ('s, 'a) act" where
  "ret x s = (Inr x, s)"

definition throw :: "abort \<Rightarrow> ('s, 'a) act" where
  "throw e s = (Inl e, s)"

definition bindA :: "('s, 'a) act \<Rightarrow> ('a \<Rightarrow> ('s, 'b) act) \<Rightarrow> ('s, 'b) act" where
  "bindA m f s = (case m s of (Inl e, s') \<Rightarrow> (Inl e, s') | (Inr x, s') \<Rightarrow> f x s')"

subsection \<open>Action combinators\<close>

lemma ret_apply [act_simps]: "ret x s = (Inr x, s)"
  by (simp add: ret_def)

lemma throw_apply [act_simps]: "throw e s = (Inl e, s)"
  by (simp add: throw_def)

lemma bindA_Inr [act_simps]: "m s = (Inr x, s') \<Longrightarrow> bindA m f s = f x s'"
  by (simp add: bindA_def)

lemma bindA_Inl [act_simps]: "m s = (Inl e, s') \<Longrightarrow> bindA m f s = (Inl e, s')"
  by (simp add: bindA_def)

lemma bindA_ret [act_simps, simp]: "bindA (ret x) f = f x"
  by (simp add: bindA_def ret_def fun_eq_iff)

lemma bindA_throw [act_simps, simp]: "bindA (throw e) f = throw e"
  by (simp add: bindA_def throw_def fun_eq_iff)

lemma bindA_assoc: "bindA (bindA m f) g = bindA m (\<lambda>x. bindA (f x) g)"
  by (simp add: bindA_def fun_eq_iff split: prod.splits sum.splits)

lemma bindA_Inr_iff:
  "bindA m f s = (Inr y, s'') \<longleftrightarrow> (\<exists>x s'. m s = (Inr x, s') \<and> f x s' = (Inr y, s''))"
  by (auto simp: bindA_def split: prod.splits sum.splits)

lemma bindA_Inl_iff:
  "bindA m f s = (Inl e, s'') \<longleftrightarrow>
     m s = (Inl e, s'') \<or> (\<exists>x s'. m s = (Inr x, s') \<and> f x s' = (Inl e, s''))"
  by (auto simp: bindA_def split: prod.splits sum.splits)

lemma bindA_cong_state:
  "m s = m' s \<Longrightarrow> (\<And>x t. f x t = g x t) \<Longrightarrow> bindA m f s = bindA m' g s"
  by (simp add: bindA_def split: prod.splits sum.splits)

text \<open>
  A property \<open>P\<close> of the state relating start and end state that every action
  of a sequence keeps, and that is transitive, holds of the whole sequence.
\<close>

lemma bindA_rel:
  assumes res: "bindA m f s = (r, u)"
    and m: "\<And>r t. m s = (r, t) \<Longrightarrow> P s t"
    and f: "\<And>x t r u. m s = (Inr x, t) \<Longrightarrow> f x t = (r, u) \<Longrightarrow> P t u"
    and trans: "\<And>a b c. P a b \<Longrightarrow> P b c \<Longrightarrow> P a c"
  shows "P s u"
proof (cases "m s")
  case (Pair r1 t)
  show ?thesis
  proof (cases r1)
    case (Inl e)
    with Pair res m show ?thesis by (auto simp: bindA_def)
  next
    case (Inr x)
    with Pair res have fx: "f x t = (r, u)" by (simp add: bindA_def)
    from Pair Inr have "P s t" by (intro m) simp
    moreover from Pair Inr fx have "P t u" by (intro f) simp_all
    ultimately show ?thesis by (rule trans)
  qed
qed

subsection \<open>Prefixes of paths\<close>

lemma strict_prefix_butlast: "p \<noteq> [] \<Longrightarrow> strict_prefix (butlast p) p"
  by (induction p) auto

lemma prefix_butlast_of_strict: "strict_prefix q p \<Longrightarrow> prefix q (butlast p)"
proof -
  assume "strict_prefix q p"
  then obtain zs where "p = q @ zs" and "zs \<noteq> []"
    by (auto simp: strict_prefix_def prefix_def)
  then show ?thesis by (simp add: butlast_append)
qed

lemma strict_prefix_append_nonempty: "ys \<noteq> [] \<Longrightarrow> strict_prefix xs (xs @ ys)"
  by (simp add: strict_prefix_def)

lemma prefix_append_cases:
  "prefix q (xs @ ys) \<Longrightarrow> prefix q xs \<or> strict_prefix xs q"
  by (auto simp: prefix_append strict_prefix_def)
end
