(* ===== verification/Pathlib.thy ===== *)
theory Pathlib
  imports Prelude
begin

text \<open>
  The runtime the wizard runs on, modelled from Python's documented
  behaviour (these are library functions, not code of the repository):
  \<^item> a file system: a map from absolute paths (lists of components, \<open>[]\<close> is
    \<open>/\<close>) to a directory or a file with its bytes and its permission bits;
  \<^item> the \<open>pathlib\<close> operations the wizard calls: \<open>Path(s)\<close>, \<open>/\<close>,
    \<open>str\<close>, \<open>.parent\<close>, \<open>.suffix\<close>, \<open>.exists()\<close>, \<open>.is_dir()\<close>,
    \<open>.mkdir(parents=True, exist_ok=True)\<close>, \<open>.read_bytes()\<close>,
    \<open>.write_bytes()\<close>, \<open>.chmod()\<close>;
  \<^item> \<open>subprocess.run(argv, cwd=..., check=False)\<close>: the child's effect on the
    file system and its exit code come from the environment (\<open>run_ext\<close>),
    since the scripts it runs are not part of this program;
  \<^item> the world a command runs in: the file system, what was printed on
    stdout and stderr (\<open>typer.echo\<close>/\<open>typer.secho\<close>; colours dropped) and the
    processes spawned.
  Symbolic links, ownership and concurrent writers are not modelled.
\<close>

subsection \<open>Path strings\<close>

fun split_on :: "char \<Rightarrow> string \<Rightarrow> string list" where
  "split_on c [] = [[]]"
| "split_on c (x # xs) =
     (if x = c then [] # split_on c xs
      else (case split_on c xs of [] \<Rightarrow> [[x]] | y # ys \<Rightarrow> (x # y) # ys))"

text \<open>\<open>PurePosixPath(s).parts\<close> without the root: empty and \<open>.\<close> parts are dropped.\<close>

definition parse_path :: "string \<Rightarrow> path" where
  "parse_path s = filter (\<lambda>c. c \<noteq> [] \<and> c \<noteq> ''.'') (split_on (CHR ''/'') s)"

definition is_abs :: "string \<Rightarrow> bool" where
  "is_abs s \<longleftrightarrow> take 1 s = ''/''"

text \<open>\<open>str(p)\<close> of an absolute path.\<close>

definition path_str :: "path \<Rightarrow> string" where
  "path_str p = (if p = [] then ''/'' else concat (map (\<lambda>c. ''/'' @ c) p))"

text \<open>\<open>p / s\<close>: an absolute right operand replaces the left one.\<close>

definition pjoin :: "path \<Rightarrow> string \<Rightarrow> path" where
  "pjoin p s = (if is_abs s then parse_path s else p @ parse_path s)"

definition pname :: "path \<Rightarrow> string" where
  "pname p = (if p = [] then [] else last p)"

definition rfind :: "char \<Rightarrow> string \<Rightarrow> nat option" where
  "rfind c s = (let is = filter (\<lambda>i. s ! i = c) [0..<length s] in
                if is = [] then None else Some (last is))"

text \<open>\<open>PurePath.suffix\<close>: \<open>i = name.rfind('.'); name[i:] if 0 < i < len(name) - 1 else ''\<close>.\<close>

definition path_suffix :: "path \<Rightarrow> string" where
  "path_suffix p =
     (let n = pname p in
      case rfind (CHR ''.'') n of
        None \<Rightarrow> []
      | Some i \<Rightarrow> (if 0 < i \<and> i < length n - 1 then drop i n else []))"

text \<open>\<open>str.startswith\<close>.\<close>

definition startswith :: "string \<Rightarrow> string \<Rightarrow> bool" where
  "startswith s pre \<longleftrightarrow> take (length pre) s = pre"

subsection \<open>File systems\<close>

datatype node = File bytes nat | Dir

type_synonym filesystem = "path \<rightharpoonup> node"

text \<open>
  Well-formed: the root is a directory and the parent of every entry is a
  directory. The operations below keep it (\<open>*_wf\<close> lemmas).
\<close>

definition wf_fs :: "filesystem \<Rightarrow> bool" where
  "wf_fs f \<longleftrightarrow> f [] = Some Dir \<and> (\<forall>p. p \<noteq> [] \<longrightarrow> f p \<noteq> None \<longrightarrow> f (butlast p) = Some Dir)"

definition exists :: "filesystem \<Rightarrow> path \<Rightarrow> bool" where
  "exists f p \<longleftrightarrow> f p \<noteq> None"

definition is_dir :: "filesystem \<Rightarrow> path \<Rightarrow> bool" where
  "is_dir f p \<longleftrightarrow> f p = Some Dir"

text \<open>
  The error of resolving a directory path, as the kernel reports it: the
  topmost missing component gives \<open>FileNotFoundError\<close>, the topmost
  component that is a file gives \<open>NotADirectoryError\<close>.
\<close>

function dir_error :: "filesystem \<Rightarrow> path \<Rightarrow> oserror option" where
  "dir_error f d =
     (case f d of
        Some Dir \<Rightarrow> None
      | Some (File _ _) \<Rightarrow> Some NotADirectoryError
      | None \<Rightarrow>
          (if d = [] then Some FileNotFoundError
           else (case dir_error f (butlast d) of
                   None \<Rightarrow> Some FileNotFoundError
                 | Some e \<Rightarrow> Some e)))"
  by pat_completeness auto
termination
  by (relation "measure (\<lambda>(f, d). length d)") auto

text \<open>
  \<open>Path.mkdir(parents=True, exist_ok=True)\<close>: \<open>os.mkdir\<close> first; an
  existing directory is accepted, an existing file raises; a missing parent
  is created first (recursively), a parent that is a file raises.
\<close>

function mkdir_p :: "filesystem \<Rightarrow> path \<Rightarrow> oserror + filesystem" where
  "mkdir_p f d =
     (case f d of
        Some Dir \<Rightarrow> Inr f
      | Some (File _ _) \<Rightarrow> Inl FileExistsError
      | None \<Rightarrow>
          (if d = [] then Inl FileNotFoundError
           else (case f (butlast d) of
                   Some Dir \<Rightarrow> Inr (f(d \<mapsto> Dir))
                 | Some (File _ _) \<Rightarrow> Inl NotADirectoryError
                 | None \<Rightarrow>
                     (case mkdir_p f (butlast d) of
                        Inl e \<Rightarrow> Inl e
                      | Inr f' \<Rightarrow> Inr (f'(d \<mapsto> Dir))))))"
  by pat_completeness auto
termination
  by (relation "measure (\<lambda>(f, d). length d)") auto

declare dir_error.simps [simp del] mkdir_p.simps [simp del]

text \<open>
  The owner's read (\<open>0o400\<close>) and write (\<open>0o200\<close>) bits of a file: the
  wizard runs as the owner of the files it reads and writes, and not as
  \<open>root\<close>, so \<open>open\<close> fails with \<open>PermissionError\<close> when the bit is clear.
\<close>

definition read_ok :: "nat \<Rightarrow> bool" where
  "read_ok m \<longleftrightarrow> m div 256 mod 2 = 1"

definition write_ok :: "nat \<Rightarrow> bool" where
  "write_ok m \<longleftrightarrow> m div 128 mod 2 = 1"

text \<open>\<open>Path.read_bytes()\<close>, i.e. \<open>open(p, 'rb')\<close>.\<close>

definition read_bytes :: "filesystem \<Rightarrow> path \<Rightarrow> oserror + bytes" where
  "read_bytes f p =
     (case dir_error f (butlast p) of
        Some e \<Rightarrow> Inl e
      | None \<Rightarrow>
          (case f p of
             None \<Rightarrow> Inl FileNotFoundError
           | Some Dir \<Rightarrow> Inl IsADirectoryError
           | Some (File b m) \<Rightarrow> (if read_ok m then Inr b else Inl PermissionError)))"

text \<open>
  \<open>Path.write_bytes(b)\<close>, i.e. \<open>open(p, 'wb')\<close>: an existing file is truncated
  and keeps its permission bits, and \<open>open\<close> fails on a file without the
  write bit; a new file gets the mode \<open>m\<close> that the process's umask leaves
  of \<open>0o666\<close>.
\<close>

definition write_bytes :: "filesystem \<Rightarrow> path \<Rightarrow> bytes \<Rightarrow> nat \<Rightarrow> oserror + filesystem" where
  "write_bytes f p b m =
     (case dir_error f (butlast p) of
        Some e \<Rightarrow> Inl e
      | None \<Rightarrow>
          (case f p of
             Some Dir \<Rightarrow> Inl IsADirectoryError
           | Some (File _ m0) \<Rightarrow> (if write_ok m0 then Inr (f(p \<mapsto> File b m0)) else Inl PermissionError)
           | None \<Rightarrow> Inr (f(p \<mapsto> File b m))))"

text \<open>\<open>Path.chmod(m)\<close>; directories carry no mode in this model.\<close>

definition chmod :: "filesystem \<Rightarrow> path \<Rightarrow> nat \<Rightarrow> oserror + filesystem" where
  "chmod f p m =
     (case dir_error f (butlast p) of
        Some e \<Rightarrow> Inl e
      | None \<Rightarrow>
          (case f p of
             None \<Rightarrow> Inl FileNotFoundError
           | Some Dir \<Rightarrow> Inr f
           | Some (File b _) \<Rightarrow> Inr (f(p \<mapsto> File b m))))"

text \<open>The owner's execute bit (\<open>0o100\<close>): the wizard runs as the owner of the files it writes.\<close>

definition exec_ok :: "nat \<Rightarrow> bool" where
  "exec_ok m \<longleftrightarrow> m div 64 mod 2 = 1"

subsection \<open>The world of a command\<close>

datatype stream = Stdout | Stderr

record world =
  fs :: filesystem
  out :: "(stream \<times> string) list"
  procs :: "(path \<times> string list) list"

text \<open>
  What the program does not determine: where the script lives
  (\<open>Path(__file__).resolve().parent\<close>), the working directory, home
  directories for \<open>~\<close> and \<open>~user\<close> (the empty user name is the current
  user), the mode of newly created files, and what an external program
  does to the file system and which exit code it returns.
\<close>

record env =
  script_dir :: path
  cwd :: path
  home_of :: "string \<Rightarrow> path option"
  new_file_mode :: nat
  run_ext :: "path \<Rightarrow> string list \<Rightarrow> path \<Rightarrow> filesystem \<Rightarrow> int \<times> filesystem"

definition emit :: "stream \<Rightarrow> string \<Rightarrow> (world, unit) act" where
  "emit st s w = (Inr (), w\<lparr>out := out w @ [(st, s)]\<rparr>)"

text \<open>A file-system call: its \<open>OSError\<close> propagates as an uncaught exception.\<close>

definition fs_op :: "(filesystem \<Rightarrow> oserror + filesystem) \<Rightarrow> (world, unit) act" where
  "fs_op g w = (case g (fs w) of Inl e \<Rightarrow> (Inl (Raise e), w) | Inr f \<Rightarrow> (Inr (), w\<lparr>fs := f\<rparr>))"

definition get_fs :: "(world, filesystem) act" where
  "get_fs w = (Inr (fs w), w)"

definition fs_read :: "(filesystem \<Rightarrow> oserror + 'a) \<Rightarrow> (world, 'a) act" where
  "fs_read g w = (case g (fs w) of Inl e \<Rightarrow> (Inl (Raise e), w) | Inr x \<Rightarrow> (Inr x, w))"

text \<open>
  \<open>subprocess.run([str(script), *args], cwd=c, check=False)\<close>: the child
  changes into \<open>c\<close> (when given) and executes \<open>script\<close>; failures of
  \<open>chdir\<close> and \<open>execve\<close> are raised in the parent. A started child is
  recorded with its working directory and argument vector.
\<close>

definition run_process ::
  "env \<Rightarrow> path \<Rightarrow> string list \<Rightarrow> path option \<Rightarrow> (world, int) act" where
  "run_process e script args cwd_opt w =
     (let c = (case cwd_opt of None \<Rightarrow> cwd e | Some d \<Rightarrow> d);
          chdir_err = (case cwd_opt of None \<Rightarrow> None | Some d \<Rightarrow> dir_error (fs w) d)
      in case chdir_err of
           Some err \<Rightarrow> (Inl (Raise err), w)
         | None \<Rightarrow>
             (case dir_error (fs w) (butlast script) of
                Some err \<Rightarrow> (Inl (Raise err), w)
              | None \<Rightarrow>
                  (case fs w script of
                     None \<Rightarrow> (Inl (Raise FileNotFoundError), w)
                   | Some Dir \<Rightarrow> (Inl (Raise PermissionError), w)
                   | Some (File _ m) \<Rightarrow>
                       (if exec_ok m then
                          (case run_ext e script args c (fs w) of
                             (code, f') \<Rightarrow>
                               (Inr code, w\<lparr>fs := f', procs := procs w @ [(c, path_str script # args)]\<rparr>))
                        else (Inl (Raise PermissionError), w)))))"


text \<open>
  \<open>grows_below repo f f'\<close>: \<open>f'\<close> is well-formed, differs from \<open>f\<close> only
  strictly below \<open>repo\<close>, and keeps every entry of \<open>f\<close>.
\<close>
definition grows_below :: "path \<Rightarrow> filesystem \<Rightarrow> filesystem \<Rightarrow> bool" where
  "grows_below repo f f' \<longleftrightarrow>
     wf_fs f' \<and> (\<forall>p. f' p \<noteq> f p \<longrightarrow> strict_prefix repo p) \<and> (\<forall>p. f p \<noteq> None \<longrightarrow> f' p \<noteq> None)"

text \<open>\<open>p\<close> is a regular file its owner may execute.\<close>

definition exec_file :: "filesystem \<Rightarrow> path \<Rightarrow> bool" where
  "exec_file f p \<longleftrightarrow> (case f p of Some (File _ m) \<Rightarrow> exec_ok m | _ \<Rightarrow> False)"

text \<open>The contents view of a file system: the bytes of each regular file.\<close>

definition file_content :: "filesystem \<Rightarrow> path \<Rightarrow> bytes option" where
  "file_content f p = (case f p of Some (File b _) \<Rightarrow> Some b | _ \<Rightarrow> None)"

text \<open>\<open>p\<close> may be opened for writing: it is not a file without the write bit.\<close>

definition may_write :: "filesystem \<Rightarrow> path \<Rightarrow> bool" where
  "may_write f p \<longleftrightarrow> (case f p of Some (File _ m) \<Rightarrow> write_ok m | _ \<Rightarrow> True)"

subsection \<open>Lemmas on the file-system primitives\<close>

lemma dir_error_None_iff [fs_simps]: "dir_error f d = None \<longleftrightarrow> f d = Some Dir"
  by (subst dir_error.simps) (auto split: option.splits node.splits)

lemma exec_file_iff: "exec_file f p \<longleftrightarrow> (\<exists>b m. f p = Some (File b m) \<and> exec_ok m)"
  by (auto simp: exec_file_def split: option.splits node.splits)

lemma wf_fs_root: "wf_fs f \<Longrightarrow> f [] = Some Dir"
  by (simp add: wf_fs_def)

lemma wf_fs_parent: "wf_fs f \<Longrightarrow> f p \<noteq> None \<Longrightarrow> p \<noteq> [] \<Longrightarrow> f (butlast p) = Some Dir"
  by (simp add: wf_fs_def)

lemma wf_fs_ancestor:
  assumes wf: "wf_fs f" and p: "f p \<noteq> None" and q: "strict_prefix q p"
  shows "f q = Some Dir"
  using p q
proof (induction "length p" arbitrary: p rule: less_induct)
  case less
  from less.prems(2) have ne: "p \<noteq> []" by auto
  with wf less.prems(1) have par: "f (butlast p) = Some Dir" by (rule wf_fs_parent)
  from less.prems(2) have pre: "prefix q (butlast p)" by (rule prefix_butlast_of_strict)
  show ?case
  proof (cases "q = butlast p")
    case True
    with par show ?thesis by simp
  next
    case False
    with pre have "strict_prefix q (butlast p)" by (simp add: strict_prefix_def)
    moreover have "length (butlast p) < length p" using ne by simp
    ultimately show ?thesis using less.hyps [of "butlast p"] par by simp
  qed
qed

lemma wf_fs_prefix_exists:
  "wf_fs f \<Longrightarrow> f p \<noteq> None \<Longrightarrow> prefix q p \<Longrightarrow> f q \<noteq> None"
  by (metis option.discI prefix_order.dual_order.not_eq_order_implies_strict wf_fs_ancestor)

lemma wf_fs_upd_dir:
  "wf_fs f \<Longrightarrow> d \<noteq> [] \<Longrightarrow> f (butlast d) = Some Dir \<Longrightarrow> wf_fs (f(d \<mapsto> Dir))"
  by (auto simp: wf_fs_def)

lemma wf_fs_upd_file:
  assumes wf: "wf_fs f" and ne: "p \<noteq> []" and par: "f (butlast p) = Some Dir"
    and nd: "f p \<noteq> Some Dir"
  shows "wf_fs (f(p \<mapsto> File b m))"
  unfolding wf_fs_def
proof (intro conjI allI impI)
  show "(f(p \<mapsto> File b m)) [] = Some Dir" using wf ne by (simp add: wf_fs_def)
next
  fix q assume q: "q \<noteq> []" "(f(p \<mapsto> File b m)) q \<noteq> None"
  show "(f(p \<mapsto> File b m)) (butlast q) = Some Dir"
  proof (cases "q = p")
    case True
    have "butlast p \<noteq> p" using ne by (simp add: strict_prefix_butlast prefix_order.less_imp_neq)
    with True par show ?thesis by simp
  next
    case False
    with wf q have "f (butlast q) = Some Dir" by (auto simp: wf_fs_def)
    with nd show ?thesis by (cases "butlast q = p") auto
  qed
qed

lemma dir_error_dir [fs_simps]: "f d = Some Dir \<Longrightarrow> dir_error f d = None"
  by (simp add: dir_error_None_iff)

lemma write_bytes_ok [fs_simps]:
  "f (butlast p) = Some Dir \<Longrightarrow> f p \<noteq> Some Dir \<Longrightarrow> may_write f p \<Longrightarrow>
   write_bytes f p b m = Inr (f(p \<mapsto> File b (case f p of Some (File _ m0) \<Rightarrow> m0 | _ \<Rightarrow> m)))"
  by (auto simp: write_bytes_def may_write_def dir_error_dir split: option.splits node.splits)

lemma write_bytes_Inr:
  "write_bytes f p b m = Inr f' \<Longrightarrow>
   f (butlast p) = Some Dir \<and> f p \<noteq> Some Dir \<and> may_write f p \<and>
   f' = f(p \<mapsto> File b (case f p of Some (File _ m0) \<Rightarrow> m0 | _ \<Rightarrow> m))"
  by (auto simp: write_bytes_def may_write_def dir_error_None_iff split: option.splits node.splits if_splits)

lemma write_bytes_readonly [fs_simps]:
  "f (butlast p) = Some Dir \<Longrightarrow> f p = Some (File b0 m0) \<Longrightarrow> \<not> write_ok m0 \<Longrightarrow>
   write_bytes f p b m = Inl PermissionError"
  by (simp add: write_bytes_def dir_error_dir)

lemma write_bytes_dir [fs_simps]:
  "f (butlast p) = Some Dir \<Longrightarrow> f p = Some Dir \<Longrightarrow> write_bytes f p b m = Inl IsADirectoryError"
  by (simp add: write_bytes_def dir_error_dir)

lemma chmod_file [fs_simps]:
  "f (butlast p) = Some Dir \<Longrightarrow> f p = Some (File b m0) \<Longrightarrow> chmod f p m = Inr (f(p \<mapsto> File b m))"
  by (simp add: chmod_def dir_error_dir)

lemma read_bytes_file [fs_simps]:
  "wf_fs f \<Longrightarrow> p \<noteq> [] \<Longrightarrow> f p = Some (File b m) \<Longrightarrow> read_ok m \<Longrightarrow> read_bytes f p = Inr b"
  by (simp add: read_bytes_def dir_error_dir wf_fs_parent)

lemma read_bytes_Inr: "read_bytes f p = Inr b \<Longrightarrow> \<exists>m. f p = Some (File b m) \<and> read_ok m"
  by (auto simp: read_bytes_def split: option.splits node.splits if_splits)

lemma mkdir_p_existing_dir [fs_simps]: "f d = Some Dir \<Longrightarrow> mkdir_p f d = Inr f"
  by (subst mkdir_p.simps) simp

lemma mkdir_p_Inr:
  "mkdir_p f d = Inr f' \<Longrightarrow>
     f' d = Some Dir \<and> (\<forall>p. f' p \<noteq> f p \<longrightarrow> f p = None \<and> f' p = Some Dir \<and> prefix p d)"
proof (induction f d arbitrary: f' rule: mkdir_p.induct)
  case (1 f d)
  show ?case
  proof (cases "f d")
    case None
    note fd = None
    show ?thesis
    proof (cases "f (butlast d)")
      case None
      with fd "1.prems" obtain f1 where rec: "mkdir_p f (butlast d) = Inr f1"
        and f': "f' = f1(d \<mapsto> Dir)" and ne: "d \<noteq> []"
        by (subst (asm) mkdir_p.simps) (auto split: if_splits sum.splits)
      from "1.IH" [OF fd ne None rec] have ih:
        "\<forall>p. f1 p \<noteq> f p \<longrightarrow> f p = None \<and> f1 p = Some Dir \<and> prefix p (butlast d)" by blast
      have "prefix (butlast d) d" by (simp add: prefix_order.less_imp_le strict_prefix_butlast ne)
      with ih f' fd show ?thesis by (auto intro: prefix_order.order_trans)
    next
      case (Some n)
      with fd "1.prems" show ?thesis
        by (subst (asm) mkdir_p.simps) (auto split: if_splits node.splits)
    qed
  next
    case (Some n)
    with "1.prems" show ?thesis
      by (subst (asm) mkdir_p.simps) (auto split: node.splits)
  qed
qed

lemma mkdir_p_wf:
  "mkdir_p f d = Inr f' \<Longrightarrow> wf_fs f \<Longrightarrow> wf_fs f'"
proof (induction f d arbitrary: f' rule: mkdir_p.induct)
  case (1 f d)
  show ?case
  proof (cases "f d")
    case None
    note fd = None
    show ?thesis
    proof (cases "f (butlast d)")
      case None
      with fd "1.prems"(1) obtain f1 where rec: "mkdir_p f (butlast d) = Inr f1"
        and f': "f' = f1(d \<mapsto> Dir)" and ne: "d \<noteq> []"
        by (subst (asm) mkdir_p.simps) (auto split: if_splits sum.splits)
      from "1.IH" [OF fd ne None rec "1.prems"(2)] have "wf_fs f1" .
      moreover from rec have "f1 (butlast d) = Some Dir" by (blast dest: mkdir_p_Inr)
      ultimately show ?thesis using f' ne wf_fs_upd_dir by blast
    next
      case (Some n)
      with fd "1.prems" show ?thesis
        by (subst (asm) mkdir_p.simps) (auto split: if_splits node.splits intro: wf_fs_upd_dir)
    qed
  next
    case (Some n)
    with "1.prems" show ?thesis
      by (subst (asm) mkdir_p.simps) (auto split: node.splits)
  qed
qed

lemma mkdir_p_succeeds:
  "wf_fs f \<Longrightarrow> \<forall>q. prefix q d \<longrightarrow> f q = None \<or> f q = Some Dir \<Longrightarrow> \<exists>f'. mkdir_p f d = Inr f'"
proof (induction f d rule: mkdir_p.induct)
  case (1 f d)
  show ?case
  proof (cases "f d")
    case None
    note fd = None
    from "1.prems"(1) fd have ne: "d \<noteq> []" by (auto simp: wf_fs_def)
    have pb: "prefix (butlast d) d" by (simp add: prefix_order.less_imp_le strict_prefix_butlast ne)
    show ?thesis
    proof (cases "f (butlast d)")
      case None
      have "\<forall>q. prefix q (butlast d) \<longrightarrow> f q = None \<or> f q = Some Dir"
        using "1.prems"(2) pb by (blast intro: prefix_order.order_trans)
      from "1.IH" [OF fd ne None "1.prems"(1) this] obtain f1 where "mkdir_p f (butlast d) = Inr f1" by blast
      with fd None ne show ?thesis by (subst mkdir_p.simps) simp
    next
      case (Some n)
      with "1.prems"(2) pb have "n = Dir" by fastforce
      with fd Some ne show ?thesis by (subst mkdir_p.simps) simp
    qed
  next
    case (Some n)
    with "1.prems"(2) have "n = Dir" by fastforce
    with Some show ?thesis by (simp add: mkdir_p_existing_dir)
  qed
qed

lemma fs_op_Inr [act_simps]: "g (fs w) = Inr f \<Longrightarrow> fs_op g w = (Inr (), w\<lparr>fs := f\<rparr>)"
  by (simp add: fs_op_def)

lemma fs_op_Inl [act_simps]: "g (fs w) = Inl e \<Longrightarrow> fs_op g w = (Inl (Raise e), w)"
  by (simp add: fs_op_def)

lemma fs_read_Inr [act_simps]: "g (fs w) = Inr x \<Longrightarrow> fs_read g w = (Inr x, w)"
  by (simp add: fs_read_def)

lemma fs_read_Inl [act_simps]: "g (fs w) = Inl e \<Longrightarrow> fs_read g w = (Inl (Raise e), w)"
  by (simp add: fs_read_def)

lemma emit_apply [act_simps]: "emit st s w = (Inr (), w\<lparr>out := out w @ [(st, s)]\<rparr>)"
  by (simp add: emit_def)

text \<open>Symbolic execution of the primitive actions followed by a continuation.\<close>

lemma bindA_get_fs [act_simps, simp]: "bindA get_fs k w = k (fs w) w"
  by (simp add: bindA_def get_fs_def)

lemma bindA_emit [act_simps, simp]: "bindA (emit st s) k w = k () (w\<lparr>out := out w @ [(st, s)]\<rparr>)"
  by (simp add: bindA_def emit_def)

lemma bindA_fs_op [act_simps, simp]:
  "bindA (fs_op g) k w = (case g (fs w) of Inl e \<Rightarrow> (Inl (Raise e), w) | Inr f \<Rightarrow> k () (w\<lparr>fs := f\<rparr>))"
  by (simp add: bindA_def fs_op_def split: sum.splits)

lemma bindA_fs_read [act_simps, simp]:
  "bindA (fs_read g) k w = (case g (fs w) of Inl e \<Rightarrow> (Inl (Raise e), w) | Inr x \<Rightarrow> k x w)"
  by (simp add: bindA_def fs_read_def split: sum.splits)

lemma bindA_if [act_simps]: "bindA (if c then a else b) k = (if c then bindA a k else bindA b k)"
  by simp

lemma chmod_after_write:
  assumes "write_bytes f p b m = Inr f2"
  shows "chmod f2 p m' = Inr (f(p \<mapsto> File b m'))"
proof -
  from assms have f2: "f2 = f(p \<mapsto> File b (case f p of Some (File _ m0) \<Rightarrow> m0 | _ \<Rightarrow> m))"
    and par: "f (butlast p) = Some Dir" and nd: "f p \<noteq> Some Dir"
    by (blast dest: write_bytes_Inr)+
  have "butlast p \<noteq> p" using par nd by auto
  with f2 par have "f2 (butlast p) = Some Dir" by simp
  then show ?thesis by (simp add: chmod_file f2)
qed

subsection \<open>Growing a file system below a directory\<close>


lemma mkdir_p_keeps_target:
  "mkdir_p f (butlast t) = Inr f1 \<Longrightarrow> t \<noteq> [] \<Longrightarrow> f1 t = f t"
proof (rule ccontr)
  assume mk: "mkdir_p f (butlast t) = Inr f1" and ne: "t \<noteq> []" and ch: "f1 t \<noteq> f t"
  from mk ch have "prefix t (butlast t)" by (blast dest: mkdir_p_Inr)
  then have "length t \<le> length (butlast t)" by (rule prefix_length_le)
  moreover have "0 < length t" using ne by (simp del: length_greater_0_conv add: length_greater_0_conv)
  ultimately show False unfolding length_butlast by linarith
qed

lemma grows_below_refl: "wf_fs f \<Longrightarrow> grows_below repo f f"
  by (simp add: grows_below_def)

lemma grows_below_trans: "grows_below repo f g \<Longrightarrow> grows_below repo g h \<Longrightarrow> grows_below repo f h"
  unfolding grows_below_def by metis

lemma grows_below_repo: "grows_below repo f f' \<Longrightarrow> f' repo = f repo"
  by (auto simp: grows_below_def)

lemma mkdir_p_grows_below:
  assumes wf: "wf_fs f" and repo: "f repo \<noteq> None" and ne: "cs \<noteq> []"
    and mk: "mkdir_p f (butlast (repo @ cs)) = Inr f1"
  shows "grows_below repo f f1"
  unfolding grows_below_def
proof (intro conjI allI impI)
  show "wf_fs f1" using mk wf by (rule mkdir_p_wf)
next
  fix p assume "f p \<noteq> None"
  then show "f1 p \<noteq> None" by (cases "f1 p = f p") (use mkdir_p_Inr [OF mk] in auto)
next
  fix p assume ch: "f1 p \<noteq> f p"
  with mk have none: "f p = None" and pre: "prefix p (repo @ butlast cs)"
    using ne by (auto dest!: mkdir_p_Inr simp: butlast_append)
  from pre have "prefix p repo \<or> strict_prefix repo p" by (rule prefix_append_cases)
  moreover have "\<not> prefix p repo" using wf repo none by (blast dest: wf_fs_prefix_exists)
  ultimately show "strict_prefix repo p" by blast
qed

lemma grows_below_write:
  assumes g: "grows_below repo f f1" and T: "strict_prefix repo t"
    and par: "f1 (butlast t) = Some Dir" and nd: "f1 t \<noteq> Some Dir"
  shows "grows_below repo f (f1(t \<mapsto> File b m))"
proof -
  from T have "t \<noteq> []" by auto
  with g par nd have "wf_fs (f1(t \<mapsto> File b m))" by (simp add: grows_below_def wf_fs_upd_file)
  with g T show ?thesis by (auto simp: grows_below_def)
qed

lemma mkdir_p_keeps_existing: "mkdir_p f d = Inr f1 \<Longrightarrow> f p \<noteq> None \<Longrightarrow> f1 p = f p"
proof (rule ccontr)
  assume mk: "mkdir_p f d = Inr f1" and ex: "f p \<noteq> None" and ch: "f1 p \<noteq> f p"
  have "f1 p \<noteq> f p \<longrightarrow> f p = None" using mkdir_p_Inr [OF mk] by simp
  with ex ch show False by simp
qed

text \<open>The definitions a closed run unfolds to, for evaluating concrete scenarios by \<open>simp\<close>.\<close>

subsection \<open>The contents view\<close>

lemma file_content_upd_file [simp]: "file_content (f(p \<mapsto> File b m)) = (file_content f)(p \<mapsto> b)"
  by (rule ext) (simp add: file_content_def)

lemma mkdir_p_content: "mkdir_p f d = Inr f1 \<Longrightarrow> file_content f1 = file_content f"
proof (rule ext)
  fix p assume "mkdir_p f d = Inr f1"
  then have "f1 p \<noteq> f p \<longrightarrow> f p = None \<and> f1 p = Some Dir" by (blast dest: mkdir_p_Inr)
  then show "file_content f1 p = file_content f p" by (auto simp: file_content_def)
qed

lemma mkdir_p_exists_target:
  assumes mk: "mkdir_p f (butlast t) = Inr f1"
  shows "exists f1 t \<longleftrightarrow> exists f t"
proof (cases "t = []")
  case True
  with mk have "f1 = f" by (auto simp: mkdir_p.simps split: option.splits node.splits if_splits)
  then show ?thesis by simp
next
  case False
  with mk show ?thesis by (simp add: exists_def mkdir_p_keeps_target)
qed

lemmas pathlib_eval = pjoin_def parse_path_def is_abs_def exists_def Let_def bindA_def emit_def get_fs_def
  fs_op_def fs_read_def ret_apply throw_apply mkdir_p.simps read_bytes_def write_bytes_def chmod_def
  dir_error.simps path_suffix_def pname_def rfind_def startswith_def run_process_def exec_ok_def read_ok_def write_ok_def path_str_def

end
