(* ===== verification/Catalog.thy ===== *)
theory Catalog
  imports Pathlib
begin

text \<open>
  The static catalog of \<open>control_wizard.py\<close> (lines 28--106): the baseline
  files the bootstrap script lays down, the \<open>Profile\<close> and \<open>Primitive\<close>
  enumerations with their string values, the files of each primitive and the
  primitive lists of the governed and autonomous profiles. The enumerations
  are instances of \<open>enum\<close>, whose list is the definition order in which
  \<open>for primitive in Primitive\<close> iterates.
\<close>

definition BASELINE_FILES :: "string list" where
  "BASELINE_FILES =
     [''AGENTS.md'',
      ''PLANS.md'',
      ''METALAYER.md'',
      ''Makefile.control'',
      ''scripts/audit_control.sh'',
      ''scripts/control/smoke.sh'',
      ''scripts/control/check.sh'',
      ''scripts/control/test.sh'',
      ''docs/control/ARCHITECTURE.md'',
      ''docs/control/OBSERVABILITY.md'',
      ''.github/workflows/control-harness.yml'']"

datatype profile = baseline | governed | autonomous

primrec profile_value :: "profile \<Rightarrow> string" where
  "profile_value baseline = ''baseline''"
| "profile_value governed = ''governed''"
| "profile_value autonomous = ''autonomous''"

datatype primitive =
    policy | commands | topology | loop | metrics | hooks
  | recovery | state | nightly | web | cli

primrec primitive_value :: "primitive \<Rightarrow> string" where
  "primitive_value policy = ''policy''"
| "primitive_value commands = ''commands''"
| "primitive_value topology = ''topology''"
| "primitive_value loop = ''loop''"
| "primitive_value metrics = ''metrics''"
| "primitive_value hooks = ''hooks''"
| "primitive_value recovery = ''recovery''"
| "primitive_value state = ''state''"
| "primitive_value nightly = ''nightly''"
| "primitive_value web = ''web''"
| "primitive_value cli = ''cli''"

primrec PRIMITIVE_FILES :: "primitive \<Rightarrow> string list" where
  "PRIMITIVE_FILES policy = [''.control/policy.yaml'']"
| "PRIMITIVE_FILES commands = [''.control/commands.yaml'']"
| "PRIMITIVE_FILES topology = [''.control/topology.yaml'']"
| "PRIMITIVE_FILES loop = [''docs/control/CONTROL_LOOP.md'']"
| "PRIMITIVE_FILES metrics = [''evals/control-metrics.yaml'']"
| "PRIMITIVE_FILES hooks =
     [''scripts/control/install_hooks.sh'',
      ''.githooks/pre-commit'',
      ''.githooks/pre-push'']"
| "PRIMITIVE_FILES recovery = [''scripts/control/recover.sh'']"
| "PRIMITIVE_FILES state = [''.control/state.json'']"
| "PRIMITIVE_FILES nightly = [''.github/workflows/control-nightly.yml'']"
| "PRIMITIVE_FILES web =
     [''scripts/control/web_e2e.sh'',
      ''.github/workflows/web-e2e.yml'',
      ''tests/e2e/web/smoke.spec.ts'',
      ''playwright.config.ts'']"
| "PRIMITIVE_FILES cli =
     [''scripts/control/cli_e2e.sh'',
      ''.github/workflows/cli-e2e.yml'',
      ''tests/e2e/cli/smoke.sh'']"

definition GOVERNED_PRIMITIVES :: "primitive list" where
  "GOVERNED_PRIMITIVES = [policy, commands, topology, loop, metrics, hooks]"

definition AUTONOMOUS_PRIMITIVES :: "primitive list" where
  "AUTONOMOUS_PRIMITIVES = GOVERNED_PRIMITIVES @ [recovery, state, nightly, web, cli]"

text \<open>
  The files a list of primitives materializes, in the order the applier
  visits them.
\<close>

definition primitives_files :: "primitive list \<Rightarrow> string list" where
  "primitives_files ps = concat (map PRIMITIVE_FILES ps)"

text \<open>
  A catalog path is clean: relative, not empty, and without \<open>..\<close>, so that
  \<open>repo / rel\<close> names a path strictly below \<open>repo\<close>.
\<close>

definition clean_rel :: "string \<Rightarrow> bool" where
  "clean_rel s \<longleftrightarrow> \<not> is_abs s \<and> parse_path s \<noteq> [] \<and> ''..'' \<notin> set (parse_path s)"

instantiation primitive :: enum
begin

definition enum_primitive :: "primitive list" where
  "enum_primitive =
     [policy, commands, topology, loop, metrics, hooks, recovery, state, nightly, web, cli]"

definition enum_all_primitive :: "(primitive \<Rightarrow> bool) \<Rightarrow> bool" where
  "enum_all_primitive P \<longleftrightarrow> list_all P
     [policy, commands, topology, loop, metrics, hooks, recovery, state, nightly, web, cli]"

definition enum_ex_primitive :: "(primitive \<Rightarrow> bool) \<Rightarrow> bool" where
  "enum_ex_primitive P \<longleftrightarrow> list_ex P
     [policy, commands, topology, loop, metrics, hooks, recovery, state, nightly, web, cli]"

instance
proof
  have univ: "(UNIV :: primitive set) = set [policy, commands, topology, loop, metrics, hooks, recovery, state, nightly, web, cli]"
  proof (rule UNIV_eq_I)
    fix x :: primitive
    show "x \<in> set [policy, commands, topology, loop, metrics, hooks, recovery, state, nightly, web, cli]" by (cases x) simp_all
  qed
  show "(UNIV :: primitive set) = set enum_class.enum"
    by (simp add: univ enum_primitive_def)
  show "distinct (enum_class.enum :: primitive list)"
    by (simp add: enum_primitive_def)
  fix P :: "primitive \<Rightarrow> bool"
  show "enum_class.enum_all P \<longleftrightarrow> Ball UNIV P"
    by (simp add: enum_all_primitive_def univ list_all_iff)
  show "enum_class.enum_ex P \<longleftrightarrow> Bex UNIV P"
    by (simp add: enum_ex_primitive_def univ list_ex_iff)
qed

end

instantiation profile :: enum
begin

definition enum_profile :: "profile list" where
  "enum_profile = [baseline, governed, autonomous]"

definition enum_all_profile :: "(profile \<Rightarrow> bool) \<Rightarrow> bool" where
  "enum_all_profile P \<longleftrightarrow> list_all P [baseline, governed, autonomous]"

definition enum_ex_profile :: "(profile \<Rightarrow> bool) \<Rightarrow> bool" where
  "enum_ex_profile P \<longleftrightarrow> list_ex P [baseline, governed, autonomous]"

instance
proof
  have univ: "(UNIV :: profile set) = set [baseline, governed, autonomous]"
  proof (rule UNIV_eq_I)
    fix x :: profile
    show "x \<in> set [baseline, governed, autonomous]" by (cases x) simp_all
  qed
  show "(UNIV :: profile set) = set enum_class.enum"
    by (simp add: univ enum_profile_def)
  show "distinct (enum_class.enum :: profile list)"
    by (simp add: enum_profile_def)
  fix P :: "profile \<Rightarrow> bool"
  show "enum_class.enum_all P \<longleftrightarrow> Ball UNIV P"
    by (simp add: enum_all_profile_def univ list_all_iff)
  show "enum_class.enum_ex P \<longleftrightarrow> Bex UNIV P"
    by (simp add: enum_ex_profile_def univ list_ex_iff)
qed

end

subsection \<open>Properties of the catalog\<close>

lemma PRIMITIVE_FILES_nonempty: "PRIMITIVE_FILES p \<noteq> []"
  by (cases p) simp_all

lemma catalog_distinct:
  "distinct (BASELINE_FILES @ primitives_files enum_class.enum)"
  by (simp add: BASELINE_FILES_def primitives_files_def enum_primitive_def)

lemma catalog_clean:
  "list_all clean_rel (BASELINE_FILES @ primitives_files enum_class.enum)"
  by (simp add: BASELINE_FILES_def primitives_files_def enum_primitive_def clean_rel_def
      parse_path_def is_abs_def)

lemma primitives_files_append [simp]:
  "primitives_files (xs @ ys) = primitives_files xs @ primitives_files ys"
  by (simp add: primitives_files_def)

lemma primitive_files_clean: "rel \<in> set (PRIMITIVE_FILES p) \<Longrightarrow> clean_rel rel"
proof -
  assume "rel \<in> set (PRIMITIVE_FILES p)"
  then have "rel \<in> set (BASELINE_FILES @ primitives_files enum_class.enum)"
    using UNIV_enum by (auto simp: primitives_files_def)
  with catalog_clean show ?thesis by (simp add: list_all_iff)
qed

lemma clean_rel_pjoin: "clean_rel rel \<Longrightarrow> strict_prefix repo (pjoin repo rel)"
  by (simp add: clean_rel_def pjoin_def strict_prefix_append_nonempty)

lemma catalog_paths_distinct:
  "distinct (map parse_path (BASELINE_FILES @ primitives_files enum_class.enum))"
  by (simp add: BASELINE_FILES_def primitives_files_def enum_primitive_def parse_path_def)

lemma primitive_files_inj:
  "rel \<in> set (PRIMITIVE_FILES p) \<Longrightarrow> rel' \<in> set (PRIMITIVE_FILES p') \<Longrightarrow>
   parse_path rel = parse_path rel' \<Longrightarrow> rel = rel'"
proof -
  assume a: "rel \<in> set (PRIMITIVE_FILES p)" "rel' \<in> set (PRIMITIVE_FILES p')"
    and eq: "parse_path rel = parse_path rel'"
  have "set (PRIMITIVE_FILES q) \<subseteq> set (BASELINE_FILES @ primitives_files enum_class.enum)" for q
    using UNIV_enum by (auto simp: primitives_files_def)
  with a catalog_paths_distinct eq show ?thesis
    by (metis (no_types, lifting) distinct_map inj_onD subsetD)
qed

lemma PRIMITIVE_FILES_distinct: "distinct (PRIMITIVE_FILES p)"
  by (cases p) simp_all

subsection \<open>Claims about the catalog\<close>

text \<open>
  C29. The catalog is well-formed: no primitive has an empty file list, the
  baseline and primitive files name pairwise different paths, and every one
  is a clean relative path (not absolute, not empty, no \<open>..\<close>), so each
  materializes exactly one file strictly below the repository.
\<close>

theorem catalog_well_formed:
  "(\<forall>p. PRIMITIVE_FILES p \<noteq> []) \<and>
   distinct (map parse_path (BASELINE_FILES @ primitives_files enum_class.enum)) \<and>
   list_all clean_rel (BASELINE_FILES @ primitives_files enum_class.enum)"
  using PRIMITIVE_FILES_nonempty catalog_paths_distinct catalog_clean by blast

text \<open>
  C30. The profiles are ordered as the specification requires: the governed
  primitives are a prefix of the autonomous ones, the autonomous profile
  lists every primitive exactly once, and the governed profile's files are
  a strict subset of the autonomous profile's.
\<close>

theorem profiles_ordered:
  "prefix GOVERNED_PRIMITIVES AUTONOMOUS_PRIMITIVES \<and> distinct AUTONOMOUS_PRIMITIVES \<and>
   set AUTONOMOUS_PRIMITIVES = UNIV \<and>
   set (primitives_files GOVERNED_PRIMITIVES) \<subset> set (primitives_files AUTONOMOUS_PRIMITIVES)"
proof (intro conjI)
  show "prefix GOVERNED_PRIMITIVES AUTONOMOUS_PRIMITIVES" by (simp add: AUTONOMOUS_PRIMITIVES_def)
  show "distinct AUTONOMOUS_PRIMITIVES" by (simp add: AUTONOMOUS_PRIMITIVES_def GOVERNED_PRIMITIVES_def)
  show "set AUTONOMOUS_PRIMITIVES = UNIV"
    by (simp add: UNIV_enum enum_primitive_def AUTONOMOUS_PRIMITIVES_def GOVERNED_PRIMITIVES_def insert_commute)
  have "set (primitives_files AUTONOMOUS_PRIMITIVES) =
      set (primitives_files GOVERNED_PRIMITIVES) \<union> set (primitives_files [recovery, state, nightly, web, cli])"
    by (simp add: AUTONOMOUS_PRIMITIVES_def)
  moreover have "''.control/state.json'' \<notin> set (primitives_files GOVERNED_PRIMITIVES)"
    by (simp add: GOVERNED_PRIMITIVES_def primitives_files_def)
  moreover have "''.control/state.json'' \<in> set (primitives_files [recovery, state, nightly, web, cli])"
    by (simp add: primitives_files_def)
  ultimately show "set (primitives_files GOVERNED_PRIMITIVES) \<subset> set (primitives_files AUTONOMOUS_PRIMITIVES)"
    by blast
qed

end
