(* ===== verification/Scenario.thy ===== *)
theory Scenario
  imports Pathlib
begin

text \<open>
  A concrete installation used to instantiate the theorems: the skill lives
  in \<open>/skill\<close> (so the scripts are in \<open>/skill/scripts\<close> and the templates
  in \<open>/skill/assets/templates\<close>), the target repository is \<open>/repo\<close>.
  The templates of \<open>policy\<close>, \<open>commands\<close> and \<open>hooks\<close> are present, the one
  of \<open>topology\<close> is missing. Template files have mode \<open>0o644\<close>; new files
  get \<open>0o644\<close> too. External programs succeed and change nothing
  (\<open>ex_env\<close>) or fail with exit code 3 (\<open>ex_env_failing\<close>).
\<close>

definition ex_env :: env where
  "ex_env =
     \<lparr>script_dir = [''skill'', ''scripts''], cwd = [''repo''],
      home_of = (\<lambda>u. if u = [] then Some [''home''] else None),
      new_file_mode = 420, run_ext = (\<lambda>_ _ _ f. (0, f))\<rparr>"

definition ex_env_failing :: env where
  "ex_env_failing = ex_env\<lparr>run_ext := (\<lambda>_ _ _ f. (3, f))\<rparr>"

definition ex_tdir :: path where
  "ex_tdir = [''skill'', ''assets'', ''templates'']"

definition ex_fs :: filesystem where
  "ex_fs =
     [[] \<mapsto> Dir,
      [''home''] \<mapsto> Dir,
      [''repo''] \<mapsto> Dir,
      [''skill''] \<mapsto> Dir,
      [''skill'', ''scripts''] \<mapsto> Dir,
      [''skill'', ''scripts'', ''bootstrap_control.sh''] \<mapsto> File [0x62] 493,
      [''skill'', ''scripts'', ''audit_control.sh''] \<mapsto> File [0x61] 493,
      [''skill'', ''assets''] \<mapsto> Dir,
      ex_tdir \<mapsto> Dir,
      ex_tdir @ [''.control''] \<mapsto> Dir,
      ex_tdir @ [''.control'', ''policy.yaml''] \<mapsto> File [0x70] 420,
      ex_tdir @ [''.control'', ''commands.yaml''] \<mapsto> File [0x63] 420,
      ex_tdir @ [''scripts''] \<mapsto> Dir,
      ex_tdir @ [''scripts'', ''control''] \<mapsto> Dir,
      ex_tdir @ [''scripts'', ''control'', ''install_hooks.sh''] \<mapsto> File [0x69] 420,
      ex_tdir @ [''.githooks''] \<mapsto> Dir,
      ex_tdir @ [''.githooks'', ''pre-commit''] \<mapsto> File [0x31] 420,
      ex_tdir @ [''.githooks'', ''pre-push''] \<mapsto> File [0x32] 420]"

definition ex_world :: world where
  "ex_world = \<lparr>fs = ex_fs, out = [], procs = []\<rparr>"

text \<open>
  The same repository after a user created
  \<open>scripts/control/install_hooks.sh\<close> without the execute bit.
\<close>

definition ex_world_noexec :: world where
  "ex_world_noexec =
     ex_world\<lparr>fs := ex_fs([''repo'', ''scripts''] \<mapsto> Dir,
                          [''repo'', ''scripts'', ''control''] \<mapsto> Dir,
                          [''repo'', ''scripts'', ''control'', ''install_hooks.sh''] \<mapsto> File [0x23] 420)\<rparr>"

text \<open>The same repository after \<open>install_hooks.sh\<close> was materialized with mode \<open>0o755\<close>.\<close>

definition ex_world_hooked :: world where
  "ex_world_hooked =
     ex_world\<lparr>fs := ex_fs([''repo'', ''scripts''] \<mapsto> Dir,
                          [''repo'', ''scripts'', ''control''] \<mapsto> Dir,
                          [''repo'', ''scripts'', ''control'', ''install_hooks.sh''] \<mapsto> File [0x69] 493)\<rparr>"

text \<open>The same repository with a read-only (\<open>0o444\<close>) \<open>.control/policy.yaml\<close>.\<close>

definition ex_world_readonly :: world where
  "ex_world_readonly =
     ex_world\<lparr>fs := ex_fs([''repo'', ''.control''] \<mapsto> Dir,
                          [''repo'', ''.control'', ''policy.yaml''] \<mapsto> File [0x78] 292)\<rparr>"

lemmas scenario_defs = ex_env_def ex_env_failing_def ex_world_def ex_world_noexec_def ex_world_hooked_def
  ex_world_readonly_def ex_fs_def ex_tdir_def

lemma ex_worlds_wf: "wf_fs (fs ex_world)" "wf_fs (fs ex_world_noexec)" "wf_fs (fs ex_world_hooked)"
  "wf_fs (fs ex_world_readonly)"
  by (auto simp: wf_fs_def scenario_defs split: if_splits)

end
