(* ===== verification/Materializer.thy ===== *)
theory Materializer
  imports Catalog Scenario
begin

text \<open>
  The materializer, \<open>_copy_template\<close> of \<open>control_wizard.py\<close> (lines
  126--141): copy one template file into the repository, unless the target
  exists and \<open>--force\<close> is off; make shell scripts and git hooks
  executable. The template directory is \<open>SKILL_DIR / assets / templates\<close>
  with \<open>SKILL_DIR = SCRIPT_DIR.parent\<close> (lines 22--24).
\<close>

definition TEMPLATE_DIR :: "env \<Rightarrow> path" where
  "TEMPLATE_DIR e = butlast (script_dir e) @ [''assets'', ''templates'']"

text \<open>The two results of \<open>_copy_template\<close>, the strings \<open>"write"\<close> and \<open>"skip"\<close>.\<close>

datatype copy_state = Write | Skip

text \<open>
  The permission rule of line 139: \<open>target.suffix == ".sh"\<close> or the
  relative path starts with \<open>.githooks/\<close>.
\<close>

definition executable_target :: "path \<Rightarrow> string \<Rightarrow> bool" where
  "executable_target target relative_path \<longleftrightarrow>
     path_suffix target = ''.sh'' \<or> startswith relative_path ''.githooks/''"

definition copy_template :: "env \<Rightarrow> string \<Rightarrow> path \<Rightarrow> bool \<Rightarrow> (world, copy_state) act" where
  "copy_template e relative_path repo force =
     (let source = pjoin (TEMPLATE_DIR e) relative_path;
          target = pjoin repo relative_path
      in bindA get_fs (\<lambda>f.
         if \<not> exists f source then
           bindA (emit Stderr (''error: missing template: '' @ path_str source)) (\<lambda>_. throw (Exit 2))
         else
           bindA (fs_op (\<lambda>f. mkdir_p f (butlast target))) (\<lambda>_.
           bindA get_fs (\<lambda>f.
           if exists f target \<and> \<not> force then ret Skip
           else
             bindA (fs_read (\<lambda>f. read_bytes f source)) (\<lambda>b.
             bindA (fs_op (\<lambda>f. write_bytes f target b (new_file_mode e))) (\<lambda>_.
             bindA (if executable_target target relative_path
                    then fs_op (\<lambda>f. chmod f target 493) else ret ()) (\<lambda>_.
             ret Write)))))))"

text \<open>
  The contract of the specification (section 4.3) on the contents view: a
  target that exists is skipped without \<open>--force\<close>; otherwise it receives
  the template's bytes.
\<close>

definition copy_spec ::
  "(path \<Rightarrow> bytes option) \<Rightarrow> bool \<Rightarrow> path \<Rightarrow> path \<Rightarrow> bool \<Rightarrow> (path \<Rightarrow> bytes option) \<times> copy_state" where
  "copy_spec c present source target force =
     (if present \<and> \<not> force then (c, Skip) else (c(target := c source), Write))"

subsection \<open>Behaviour of \<open>_copy_template\<close>\<close>

lemma copy_template_skip:
  assumes "wf_fs (fs w)" "exists (fs w) (pjoin (TEMPLATE_DIR e) rel)"
    "fs w (pjoin repo rel) \<noteq> None" "pjoin repo rel \<noteq> []" "\<not> force"
  shows "copy_template e rel repo force w = (Inr Skip, w)"
proof -
  have "fs w (butlast (pjoin repo rel)) = Some Dir" using assms by (simp add: wf_fs_parent)
  then show ?thesis using assms
    by (auto simp: copy_template_def Let_def mkdir_p_existing_dir exists_def ret_apply)
qed

lemma copy_template_cases:
  assumes run: "copy_template e rel repo force w = (r, w')"
  defines "S \<equiv> pjoin (TEMPLATE_DIR e) rel" and "T \<equiv> pjoin repo rel"
  shows "(\<not> exists (fs w) S \<and> r = Inl (Exit 2) \<and>
           w' = w\<lparr>out := out w @ [(Stderr, ''error: missing template: '' @ path_str S)]\<rparr>)
       \<or> (exists (fs w) S \<and> (\<exists>err. mkdir_p (fs w) (butlast T) = Inl err \<and> r = Inl (Raise err) \<and> w' = w))
       \<or> (exists (fs w) S \<and> (\<exists>f1. mkdir_p (fs w) (butlast T) = Inr f1 \<and>
           ((exists f1 T \<and> \<not> force \<and> r = Inr Skip \<and> w' = w\<lparr>fs := f1\<rparr>)
          \<or> (\<not> (exists f1 T \<and> \<not> force) \<and> (\<exists>err. read_bytes f1 S = Inl err \<and> r = Inl (Raise err) \<and> w' = w\<lparr>fs := f1\<rparr>))
          \<or> (\<not> (exists f1 T \<and> \<not> force) \<and> (\<exists>b err. read_bytes f1 S = Inr b \<and>
                write_bytes f1 T b (new_file_mode e) = Inl err \<and> r = Inl (Raise err) \<and> w' = w\<lparr>fs := f1\<rparr>))
          \<or> (\<not> (exists f1 T \<and> \<not> force) \<and> (\<exists>b f2. read_bytes f1 S = Inr b \<and>
                write_bytes f1 T b (new_file_mode e) = Inr f2 \<and> r = Inr Write \<and>
                w' = w\<lparr>fs := (if executable_target T rel then f1(T \<mapsto> File b 493) else f2)\<rparr>)))))"
proof (cases "exists (fs w) S")
  case False
  with run show ?thesis by (auto simp: copy_template_def Let_def S_def T_def ret_apply throw_apply)
next
  case src: True
  show ?thesis
  proof (cases "mkdir_p (fs w) (butlast T)")
    case (Inl err)
    with run src show ?thesis by (auto simp: copy_template_def Let_def S_def T_def ret_apply throw_apply)
  next
    case (Inr f1)
    note mk = Inr
    show ?thesis
    proof (cases "exists f1 T \<and> \<not> force")
      case True
      with run src mk show ?thesis by (auto simp: copy_template_def Let_def S_def T_def ret_apply throw_apply)
    next
      case go: False
      show ?thesis
      proof (cases "read_bytes f1 S")
        case (Inl err)
        with run src mk go show ?thesis by (auto simp: copy_template_def Let_def S_def T_def ret_apply throw_apply)
      next
        case (Inr b)
        note rd = Inr
        show ?thesis
        proof (cases "write_bytes f1 T b (new_file_mode e)")
          case (Inl err)
          with run src mk go rd show ?thesis by (auto simp: copy_template_def Let_def S_def T_def ret_apply throw_apply)
        next
          case (Inr f2)
          from Inr have ch: "chmod f2 T 493 = Inr (f1(T \<mapsto> File b 493))"
            by (rule chmod_after_write)
          with run src mk go rd Inr show ?thesis
            by (auto simp: copy_template_def Let_def S_def T_def ret_apply split: if_splits)
        qed
      qed
    qed
  qed
qed

lemma copy_template_frame:
  assumes run: "copy_template e rel repo force w = (r, w')" and wf: "wf_fs (fs w)"
    and repo: "fs w repo = Some Dir" and clean: "clean_rel rel"
  shows "grows_below repo (fs w) (fs w') \<and> procs w' = procs w \<and> prefix (out w) (out w')"
proof -
  let ?T = "pjoin repo rel"
  from clean have T: "?T = repo @ parse_path rel" and ne: "parse_path rel \<noteq> []"
    by (auto simp: clean_rel_def pjoin_def)
  from clean have below: "strict_prefix repo ?T" by (rule clean_rel_pjoin)
  have mk: "grows_below repo (fs w) f1" if "mkdir_p (fs w) (butlast ?T) = Inr f1" for f1
    using mkdir_p_grows_below [OF wf _ ne] that repo T by simp
  have wr: "grows_below repo (fs w) (f1(?T \<mapsto> File b m))"
    if "mkdir_p (fs w) (butlast ?T) = Inr f1" and "f1 (butlast ?T) = Some Dir"
      and "f1 ?T \<noteq> Some Dir" for f1 b m
    using mk [OF that(1)] below that(2,3) by (rule grows_below_write)
  from copy_template_cases [OF run] wf show ?thesis
    by (auto simp: grows_below_refl intro: mk wr dest!: write_bytes_Inr)
qed

lemma copy_template_Inr:
  assumes run: "copy_template e rel repo force w = (Inr x, w')"
  defines "S \<equiv> pjoin (TEMPLATE_DIR e) rel" and "T \<equiv> pjoin repo rel"
  shows "out w' = out w \<and> procs w' = procs w \<and> fs w' T \<noteq> None \<and> (x = Skip \<longrightarrow> \<not> force) \<and>
    (x = Write \<longrightarrow> (\<exists>b m0 m. fs w S = Some (File b m0) \<and> fs w' T = Some (File b m) \<and>
                               (executable_target T rel \<longrightarrow> m = 493)))"
proof -
  have src: "f1 S = fs w S" if "mkdir_p (fs w) (butlast T) = Inr f1" and "exists (fs w) S" for f1
    using that by (simp add: exists_def mkdir_p_keeps_existing)
  from copy_template_cases [OF run] show ?thesis
    unfolding S_def [symmetric] T_def [symmetric]
    by (auto simp: exists_def dest: src dest!: write_bytes_Inr read_bytes_Inr)
qed

lemma copy_template_keeps_existing:
  "copy_template e rel repo force w = (r, w') \<Longrightarrow> fs w p \<noteq> None \<Longrightarrow> fs w' p \<noteq> None"
  by (drule copy_template_cases) (auto dest: mkdir_p_keeps_existing dest!: write_bytes_Inr)

lemma copy_template_no_force:
  assumes run: "copy_template e rel repo False w = (r, w')" and p: "fs w p = Some n"
  shows "fs w' p = Some n"
proof -
  have keep: "f1 p = Some n" if "mkdir_p (fs w) d = Inr f1" for f1 d
    using mkdir_p_keeps_existing [OF that] p by simp
  have new: "p \<noteq> pjoin repo rel" if "mkdir_p (fs w) d = Inr f1" and "\<not> exists f1 (pjoin repo rel)" for f1 d
    using keep [OF that(1)] that(2) by (auto simp: exists_def)
  from copy_template_cases [OF run] p show ?thesis
    by (auto dest: keep new dest!: write_bytes_Inr)
qed

lemma copy_template_procs: "copy_template e rel repo force w = (r, w') \<Longrightarrow> procs w' = procs w"
  by (drule copy_template_cases) auto

lemma copy_template_Inr_source:
  "copy_template e rel repo force w = (Inr x, w') \<Longrightarrow> exists (fs w) (pjoin (TEMPLATE_DIR e) rel)"
  by (drule copy_template_cases) auto

lemma copy_template_keeps_exec:
  assumes run: "copy_template e rel repo force w = (r, w')" and p: "exec_file (fs w) p"
  shows "exec_file (fs w') p"
proof -
  from p obtain b0 m0 where p0: "fs w p = Some (File b0 m0)" and x0: "exec_ok m0"
    by (auto simp: exec_file_iff)
  have keep: "f1 p = Some (File b0 m0)" if "mkdir_p (fs w) d = Inr f1" for f1 d
    using mkdir_p_keeps_existing [OF that, of p] p0 by simp
  have x493: "exec_ok 493" by (simp add: exec_ok_def)
  show ?thesis
  proof (cases "p = pjoin repo rel")
    case True
    have keepT: "f1 (pjoin repo rel) = Some (File b0 m0)" if "mkdir_p (fs w) d = Inr f1" for f1 d
      using keep [OF that] True by simp
    from copy_template_cases [OF run] p0 x0 x493 True show ?thesis
      by (auto simp: exec_file_iff keepT dest!: write_bytes_Inr)
  next
    case False
    from copy_template_cases [OF run] p0 x0 False show ?thesis
      by (auto simp: exec_file_iff keep dest!: write_bytes_Inr)
  qed
qed

subsection \<open>Claims about \<open>_copy_template\<close>\<close>

text \<open>
  C20. A template missing from the skill's template directory aborts
  \<open>_copy_template\<close> with exit code 2 and the message
  \<open>error: missing template: <source>\<close> on stderr, before any directory or
  file is created: only the output changes.
\<close>

theorem copy_template_missing_template:
  "fs w (pjoin (TEMPLATE_DIR e) rel) = None \<Longrightarrow>
   copy_template e rel repo force w =
     (Inl (Exit 2), w\<lparr>out := out w @ [(Stderr, ''error: missing template: '' @ path_str (pjoin (TEMPLATE_DIR e) rel))]\<rparr>)"
  by (simp add: copy_template_def Let_def exists_def throw_apply)

theorem copy_template_missing_template_witness:
  "fs ex_world (pjoin (TEMPLATE_DIR ex_env) ''.control/topology.yaml'') = None \<and>
   fst (copy_template ex_env ''.control/topology.yaml'' [''repo''] False ex_world) = Inl (Exit 2) \<and>
   fs (snd (copy_template ex_env ''.control/topology.yaml'' [''repo''] False ex_world)) = fs ex_world"
proof -
  have h: "fs ex_world (pjoin (TEMPLATE_DIR ex_env) ''.control/topology.yaml'') = None"
    by (simp add: scenario_defs pathlib_eval TEMPLATE_DIR_def)
  show ?thesis using copy_template_missing_template [OF h] h by simp
qed

text \<open>
  C21. The functional behaviour of a write: when the template is a readable
  file and the target is absent (or \<open>--force\<close> is given), not a directory
  and not a read-only file, and the missing parents can be created, they
  are created, the target gets the template's bytes, and its
  mode is \<open>0o755\<close> for a \<open>.sh\<close> file or a path under \<open>.githooks/\<close>,
  otherwise the mode of the file it replaced or the default creation mode.
\<close>

theorem copy_template_writes_template:
  assumes wf: "wf_fs (fs w)"
    and src: "fs w (pjoin (TEMPLATE_DIR e) rel) = Some (File b m0)" and rdok: "read_ok m0"
    and mk: "mkdir_p (fs w) (butlast (pjoin repo rel)) = Inr f1"
    and nd: "fs w (pjoin repo rel) \<noteq> Some Dir" and wok: "may_write (fs w) (pjoin repo rel)"
    and go: "force \<or> fs w (pjoin repo rel) = None"
  shows "copy_template e rel repo force w =
    (Inr Write, w\<lparr>fs := f1(pjoin repo rel \<mapsto>
        File b (if executable_target (pjoin repo rel) rel then 493
                else (case fs w (pjoin repo rel) of Some (File _ m) \<Rightarrow> m | _ \<Rightarrow> new_file_mode e)))\<rparr>)"
proof -
  let ?S = "pjoin (TEMPLATE_DIR e) rel" and ?T = "pjoin repo rel"
  have Sne: "?S \<noteq> []" using wf src by (auto simp: wf_fs_def)
  have Tne: "?T \<noteq> []"
  proof
    assume "?T = []"
    with mk have "f1 [] = Some Dir" by (auto dest: mkdir_p_Inr)
    moreover from mk have "f1 [] = fs w []" using wf by (simp add: mkdir_p_keeps_existing wf_fs_def)
    ultimately show False using nd \<open>?T = []\<close> by simp
  qed
  have wf1: "wf_fs f1" using mk wf by (rule mkdir_p_wf)
  have keepT: "f1 ?T = fs w ?T" using mk Tne by (rule mkdir_p_keeps_target)
  have keepS: "f1 ?S = fs w ?S" using mk src by (simp add: mkdir_p_keeps_existing)
  have par: "f1 (butlast ?T) = Some Dir" using mk by (blast dest: mkdir_p_Inr)
  have rd: "read_bytes f1 ?S = Inr b" using wf1 Sne keepS src rdok by (simp add: read_bytes_file)
  let ?m = "case fs w ?T of Some (File _ m) \<Rightarrow> m | _ \<Rightarrow> new_file_mode e"
  have "may_write f1 ?T" using wok keepT by (simp add: may_write_def)
  then have wr: "write_bytes f1 ?T b (new_file_mode e) = Inr (f1(?T \<mapsto> File b ?m))"
    using par nd keepT by (simp add: write_bytes_ok)
  have ch: "chmod (f1(?T \<mapsto> File b ?m)) ?T 493 = Inr (f1(?T \<mapsto> File b 493))"
    using wr by (simp add: chmod_after_write)
  have ex: "exists (fs w) ?S" using src by (simp add: exists_def)
  have nskip: "\<not> (exists f1 ?T \<and> \<not> force)" using go keepT by (auto simp: exists_def)
  show ?thesis
    using ex mk nskip rd wr ch
    by (simp add: copy_template_def Let_def ret_apply)
qed

theorem copy_template_writes_template_witness:
  "copy_template ex_env ''scripts/control/install_hooks.sh'' [''repo''] False ex_world =
     (Inr Write, ex_world_hooked)"
proof -
  have wf: "wf_fs (fs ex_world)" by (rule ex_worlds_wf)
  have src: "fs ex_world (pjoin (TEMPLATE_DIR ex_env) ''scripts/control/install_hooks.sh'') = Some (File [0x69] 420)"
    by (simp add: scenario_defs pathlib_eval TEMPLATE_DIR_def)
  have rdok: "read_ok 420" by (simp add: read_ok_def)
  have mk: "mkdir_p (fs ex_world) (butlast (pjoin [''repo''] ''scripts/control/install_hooks.sh'')) =
      Inr (ex_fs([''repo'', ''scripts''] \<mapsto> Dir, [''repo'', ''scripts'', ''control''] \<mapsto> Dir))"
    by (simp add: scenario_defs pathlib_eval)
  have nd: "fs ex_world (pjoin [''repo''] ''scripts/control/install_hooks.sh'') \<noteq> Some Dir"
    by (simp add: scenario_defs pathlib_eval)
  have wok: "may_write (fs ex_world) (pjoin [''repo''] ''scripts/control/install_hooks.sh'')"
    by (simp add: may_write_def scenario_defs pathlib_eval)
  have go: "False \<or> fs ex_world (pjoin [''repo''] ''scripts/control/install_hooks.sh'') = None"
    by (simp add: scenario_defs pathlib_eval)
  have x: "executable_target (pjoin [''repo''] ''scripts/control/install_hooks.sh'') ''scripts/control/install_hooks.sh''"
    by (simp add: executable_target_def pathlib_eval)
  show ?thesis
    using copy_template_writes_template [OF wf src rdok mk nd wok go] x
    by (simp add: pathlib_eval ex_world_def ex_world_hooked_def)
qed

text \<open>
  C22. A forced copy onto a read-only file (the write bit of its mode is
  clear) fails: \<open>write_bytes\<close> raises \<open>PermissionError\<close> (line 138), which
  nothing catches, and the world is left exactly as it was: the target
  keeps its old bytes and no directory is created. The spec's
  \<open>FilesystemError\<close> for a write permission failure.
\<close>

theorem copy_template_readonly_target_raises:
  assumes wf: "wf_fs (fs w)"
    and src: "fs w (pjoin (TEMPLATE_DIR e) rel) = Some (File b m0)"
    and tgt: "fs w (pjoin repo rel) = Some (File b' m)" and ro: "\<not> write_ok m"
  shows "copy_template e rel repo True w = (Inl (Raise PermissionError), w)"
proof -
  let ?S = "pjoin (TEMPLATE_DIR e) rel" and ?T = "pjoin repo rel"
  have Sne: "?S \<noteq> []" using wf src by (auto simp: wf_fs_def)
  have Tne: "?T \<noteq> []" using wf tgt by (auto simp: wf_fs_def)
  have par: "fs w (butlast ?T) = Some Dir" using wf tgt Tne by (simp add: wf_fs_parent)
  then have mk: "mkdir_p (fs w) (butlast ?T) = Inr (fs w)" by (rule mkdir_p_existing_dir)
  have ex: "exists (fs w) ?S" "exists (fs w) ?T" using src tgt by (simp_all add: exists_def)
  show ?thesis
  proof (cases "read_ok m0")
    case True
    then have "read_bytes (fs w) ?S = Inr b" using wf Sne src by (simp add: read_bytes_file)
    moreover have "write_bytes (fs w) ?T b (new_file_mode e) = Inl PermissionError"
      using par tgt ro by (rule write_bytes_readonly)
    ultimately show ?thesis using ex mk by (simp add: copy_template_def Let_def)
  next
    case False
    then have "read_bytes (fs w) ?S = Inl PermissionError"
      using wf Sne src by (simp add: read_bytes_def dir_error_dir wf_fs_parent)
    then show ?thesis using ex mk by (simp add: copy_template_def Let_def)
  qed
qed

theorem copy_template_readonly_target_raises_witness:
  "copy_template ex_env ''.control/policy.yaml'' [''repo''] True ex_world_readonly =
     (Inl (Raise PermissionError), ex_world_readonly)"
proof -
  have wf: "wf_fs (fs ex_world_readonly)" by (rule ex_worlds_wf)
  have src: "fs ex_world_readonly (pjoin (TEMPLATE_DIR ex_env) ''.control/policy.yaml'') = Some (File [0x70] 420)"
    by (simp add: scenario_defs pathlib_eval TEMPLATE_DIR_def)
  have tgt: "fs ex_world_readonly (pjoin [''repo''] ''.control/policy.yaml'') = Some (File [0x78] 292)"
    by (simp add: scenario_defs pathlib_eval)
  have ro: "\<not> write_ok 292" by (simp add: write_ok_def)
  show ?thesis using copy_template_readonly_target_raises [OF wf src tgt ro] .
qed

text \<open>
  C3. \<open>_copy_template\<close> refines the specification's contract on file
  contents: whenever it returns, the contents of the file system and the
  returned state are those of \<open>copy_spec\<close> applied to the contents before,
  whether the target was present, the template and the target. Directories
  it creates carry no contents.
\<close>

theorem copy_template_refines_spec:
  assumes run: "copy_template e rel repo force w = (Inr st, w')"
  shows "(file_content (fs w'), st) =
    copy_spec (file_content (fs w)) (exists (fs w) (pjoin repo rel)) (pjoin (TEMPLATE_DIR e) rel) (pjoin repo rel) force"
proof -
  let ?S = "pjoin (TEMPLATE_DIR e) rel" and ?T = "pjoin repo rel"
  from copy_template_cases [OF run] obtain f1 where mk: "mkdir_p (fs w) (butlast ?T) = Inr f1"
    and cases: "(exists f1 ?T \<and> \<not> force \<and> st = Skip \<and> w' = w\<lparr>fs := f1\<rparr>) \<or>
      (\<not> (exists f1 ?T \<and> \<not> force) \<and> (\<exists>b f2. read_bytes f1 ?S = Inr b \<and>
         write_bytes f1 ?T b (new_file_mode e) = Inr f2 \<and> st = Write \<and>
         w' = w\<lparr>fs := (if executable_target ?T rel then f1(?T \<mapsto> File b 493) else f2)\<rparr>))"
    by auto
  have c1: "file_content f1 = file_content (fs w)" using mk by (rule mkdir_p_content)
  have e1: "exists f1 ?T \<longleftrightarrow> exists (fs w) ?T" using mk by (rule mkdir_p_exists_target)
  from cases show ?thesis
  proof
    assume "exists f1 ?T \<and> \<not> force \<and> st = Skip \<and> w' = w\<lparr>fs := f1\<rparr>"
    with c1 e1 show ?thesis by (simp add: copy_spec_def)
  next
    assume "\<not> (exists f1 ?T \<and> \<not> force) \<and> (\<exists>b f2. read_bytes f1 ?S = Inr b \<and>
         write_bytes f1 ?T b (new_file_mode e) = Inr f2 \<and> st = Write \<and>
         w' = w\<lparr>fs := (if executable_target ?T rel then f1(?T \<mapsto> File b 493) else f2)\<rparr>)"
    then obtain b f2 where go: "\<not> (exists f1 ?T \<and> \<not> force)" and rd: "read_bytes f1 ?S = Inr b"
      and wr: "write_bytes f1 ?T b (new_file_mode e) = Inr f2" and st: "st = Write"
      and w': "w' = w\<lparr>fs := (if executable_target ?T rel then f1(?T \<mapsto> File b 493) else f2)\<rparr>"
      by blast
    from rd have src: "file_content (fs w) ?S = Some b"
      by (auto simp: c1 [symmetric] file_content_def dest!: read_bytes_Inr)
    from wr obtain m where f2: "f2 = f1(?T \<mapsto> File b m)" by (blast dest: write_bytes_Inr)
    from go e1 have "\<not> (exists (fs w) ?T \<and> \<not> force)" by simp
    with src c1 st w' f2 show ?thesis by (simp add: copy_spec_def)
  qed
qed

theorem copy_template_refines_spec_witness:
  "file_content (fs (snd (copy_template ex_env ''.control/policy.yaml'' [''repo''] False ex_world)))
     [''repo'', ''.control'', ''policy.yaml''] = Some [0x70]"
proof -
  have ok: "fst (copy_template ex_env ''.control/policy.yaml'' [''repo''] False ex_world) = Inr Write"
    by (simp add: copy_template_def TEMPLATE_DIR_def executable_target_def scenario_defs pathlib_eval bindA_assoc)
  then have run: "copy_template ex_env ''.control/policy.yaml'' [''repo''] False ex_world =
      (Inr Write, snd (copy_template ex_env ''.control/policy.yaml'' [''repo''] False ex_world))"
    by (metis prod.collapse)
  show ?thesis
    using copy_template_refines_spec [OF run]
    by (simp add: copy_spec_def TEMPLATE_DIR_def scenario_defs pjoin_def parse_path_def is_abs_def
        exists_def file_content_def)
qed

end
