(* ===== verification/Bridge.thy ===== *)
theory Bridge
  imports Pathlib Scenario
begin

text \<open>
  The external process bridge of \<open>control_wizard.py\<close>: the script paths
  (lines 25--26), \<open>_run\<close> (lines 117--123), which runs the bootstrap or
  audit script and turns a non-zero exit code into \<open>typer.Exit\<close>, and
  \<open>_activate_hooks\<close> (lines 144--153), which runs the repository's
  \<open>scripts/control/install_hooks.sh\<close> and only warns when it fails.
\<close>

definition BOOTSTRAP_SCRIPT :: "env \<Rightarrow> path" where
  "BOOTSTRAP_SCRIPT e = script_dir e @ [''bootstrap_control.sh'']"

definition AUDIT_SCRIPT :: "env \<Rightarrow> path" where
  "AUDIT_SCRIPT e = script_dir e @ [''audit_control.sh'']"

definition run :: "env \<Rightarrow> path \<Rightarrow> string list \<Rightarrow> (world, unit) act" where
  "run e script args =
     bindA get_fs (\<lambda>f.
       if \<not> exists f script then
         bindA (emit Stderr (''error: script not found: '' @ path_str script)) (\<lambda>_. throw (Exit 2))
       else
         bindA (run_process e script args None) (\<lambda>returncode.
         if returncode \<noteq> 0 then throw (Exit returncode) else ret ()))"

definition hooks_warning :: string where
  "hooks_warning =
     ''  [warn] failed to activate git hooks automatically; run scripts/control/install_hooks.sh manually.''"

definition install_hooks_path :: "path \<Rightarrow> path" where
  "install_hooks_path repo = repo @ [''scripts'', ''control'', ''install_hooks.sh'']"

definition activate_hooks :: "env \<Rightarrow> path \<Rightarrow> (world, unit) act" where
  "activate_hooks e repo =
     (let install_script = install_hooks_path repo in
      bindA get_fs (\<lambda>f.
        if \<not> exists f install_script then ret ()
        else
          bindA (run_process e install_script [] (Some repo)) (\<lambda>returncode.
          if returncode \<noteq> 0 then emit Stdout hooks_warning else ret ())))"

text \<open>
  Properties of whole batches hold when the hook installer leaves the
  modelled files alone (it configures git, which is outside this model).
\<close>

definition hooks_inert :: "env \<Rightarrow> path \<Rightarrow> bool" where
  "hooks_inert e repo \<longleftrightarrow> (\<forall>f. snd (run_ext e (install_hooks_path repo) [] repo f) = f)"

subsection \<open>Behaviour of the bridge\<close>

lemma run_process_exec:
  assumes wf: "wf_fs (fs w)" and f: "fs w script = Some (File b m)" and x: "exec_ok m"
    and ne: "script \<noteq> []" and c: "case cwd_opt of None \<Rightarrow> True | Some d \<Rightarrow> fs w d = Some Dir"
    and ext: "run_ext e script args (case cwd_opt of None \<Rightarrow> cwd e | Some d \<Rightarrow> d) (fs w) = (code, f')"
  shows "run_process e script args cwd_opt w =
           (Inr code, w\<lparr>fs := f', procs := procs w @ [(case cwd_opt of None \<Rightarrow> cwd e | Some d \<Rightarrow> d, path_str script # args)]\<rparr>)"
proof -
  have "fs w (butlast script) = Some Dir" using wf f ne by (simp add: wf_fs_parent)
  then show ?thesis using f x c ext
    by (cases cwd_opt) (simp_all add: run_process_def dir_error_dir)
qed

lemma run_process_not_exec:
  assumes wf: "wf_fs (fs w)" and f: "fs w script = Some (File b m)" and x: "\<not> exec_ok m"
    and ne: "script \<noteq> []" and c: "case cwd_opt of None \<Rightarrow> True | Some d \<Rightarrow> fs w d = Some Dir"
  shows "run_process e script args cwd_opt w = (Inl (Raise PermissionError), w)"
proof -
  have "fs w (butlast script) = Some Dir" using wf f ne by (simp add: wf_fs_parent)
  then show ?thesis using f x c
    by (cases cwd_opt) (simp_all add: run_process_def dir_error_dir)
qed

lemma run_process_Inr:
  "run_process e script args cwd_opt w = (Inr code, w') \<Longrightarrow>
     out w' = out w \<and> procs w' = procs w @ [(case cwd_opt of None \<Rightarrow> cwd e | Some d \<Rightarrow> d, path_str script # args)]"
  by (auto simp: run_process_def Let_def split: option.splits node.splits if_splits prod.splits)

lemma run_process_fs:
  "run_process e script args cwd_opt w = (Inr code, w') \<Longrightarrow>
     fs w' = snd (run_ext e script args (case cwd_opt of None \<Rightarrow> cwd e | Some d \<Rightarrow> d) (fs w))"
  by (auto simp: run_process_def Let_def split: option.splits node.splits if_splits prod.splits)

lemma run_process_Inl:
  "run_process e script args cwd_opt w = (Inl err, w') \<Longrightarrow> w' = w"
  by (auto simp: run_process_def Let_def split: option.splits node.splits if_splits prod.splits)

lemma run_missing:
  "fs w script = None \<Longrightarrow>
   run e script args w = (Inl (Exit 2), w\<lparr>out := out w @ [(Stderr, ''error: script not found: '' @ path_str script)]\<rparr>)"
  by (simp add: run_def exists_def throw_apply)

lemma run_exec:
  assumes wf: "wf_fs (fs w)" and f: "fs w script = Some (File b m)" and x: "exec_ok m"
    and ne: "script \<noteq> []" and ext: "run_ext e script args (cwd e) (fs w) = (code, f')"
  shows "run e script args w =
    (if code = 0 then Inr () else Inl (Exit code), w\<lparr>fs := f', procs := procs w @ [(cwd e, path_str script # args)]\<rparr>)"
proof -
  have "run_process e script args None w = (Inr code, w\<lparr>fs := f', procs := procs w @ [(cwd e, path_str script # args)]\<rparr>)"
    using run_process_exec [OF wf f x ne, of None] ext by simp
  with f show ?thesis by (simp add: run_def exists_def bindA_Inr ret_apply throw_apply)
qed

lemma activate_hooks_absent:
  "fs w (install_hooks_path repo) = None \<Longrightarrow> activate_hooks e repo w = (Inr (), w)"
  by (auto simp: activate_hooks_def Let_def exists_def ret_apply)

lemma activate_hooks_unfold:
  "fs w (install_hooks_path repo) \<noteq> None \<Longrightarrow>
   activate_hooks e repo w =
     bindA (run_process e (install_hooks_path repo) [] (Some repo))
       (\<lambda>returncode. if returncode \<noteq> 0 then emit Stdout hooks_warning else ret ()) w"
  by (auto simp: activate_hooks_def Let_def exists_def ret_apply)

lemma activate_hooks_Inr:
  assumes run: "activate_hooks e repo w = (Inr u, w')"
  shows "prefix (out w) (out w') \<and>
    procs w' = procs w @ (if fs w (install_hooks_path repo) = None then []
                           else [(repo, [path_str (install_hooks_path repo)])])"
proof (cases "fs w (install_hooks_path repo) = None")
  case True
  with run show ?thesis by (simp add: activate_hooks_absent)
next
  case False
  obtain r w1 where rp: "run_process e (install_hooks_path repo) [] (Some repo) w = (r, w1)"
    by fastforce
  show ?thesis
  proof (cases r)
    case (Inl err)
    with run rp False show ?thesis by (simp add: activate_hooks_unfold bindA_Inl)
  next
    case (Inr code)
    with rp have "out w1 = out w \<and> procs w1 = procs w @ [(repo, [path_str (install_hooks_path repo)])]"
      by (simp add: run_process_Inr)
    with run rp Inr False show ?thesis
      by (auto simp: activate_hooks_unfold bindA_Inr emit_def ret_apply split: if_splits)
  qed
qed

lemma activate_hooks_Inl:
  assumes run: "activate_hooks e repo w = (Inl err, w')"
  shows "w' = w"
proof (cases "fs w (install_hooks_path repo) = None")
  case True
  with run show ?thesis by (simp add: activate_hooks_absent)
next
  case False
  obtain r w1 where rp: "run_process e (install_hooks_path repo) [] (Some repo) w = (r, w1)"
    by fastforce
  show ?thesis
  proof (cases r)
    case (Inl err')
    with rp have "w1 = w" by (simp add: run_process_Inl)
    with run rp Inl False show ?thesis by (simp add: activate_hooks_unfold bindA_Inl)
  next
    case (Inr code)
    with run rp False show ?thesis
      by (auto simp: activate_hooks_unfold bindA_Inr emit_def ret_apply split: if_splits)
  qed
qed

lemma activate_hooks_fs:
  assumes run: "activate_hooks e repo w = (r, w')"
  shows "fs w' = fs w \<or> fs w' = snd (run_ext e (install_hooks_path repo) [] repo (fs w))"
proof (cases "fs w (install_hooks_path repo) = None")
  case True
  with run show ?thesis by (simp add: activate_hooks_absent)
next
  case False
  obtain r1 w1 where rp: "run_process e (install_hooks_path repo) [] (Some repo) w = (r1, w1)"
    by fastforce
  show ?thesis
  proof (cases r1)
    case (Inl err)
    with rp have "w1 = w" by (simp add: run_process_Inl)
    with run rp Inl False show ?thesis by (simp add: activate_hooks_unfold bindA_Inl)
  next
    case (Inr code)
    with rp have "fs w1 = snd (run_ext e (install_hooks_path repo) [] repo (fs w))"
      by (simp add: run_process_fs)
    with run rp Inr False show ?thesis
      by (auto simp: activate_hooks_unfold bindA_Inr emit_def ret_apply split: if_splits)
  qed
qed

lemma activate_hooks_inert_fs:
  "hooks_inert e repo \<Longrightarrow> activate_hooks e repo w = (r, w') \<Longrightarrow> fs w' = fs w"
  by (auto simp: hooks_inert_def dest: activate_hooks_fs)

lemma activate_hooks_exec:
  assumes wf: "wf_fs (fs w)" and r: "fs w repo = Some Dir"
    and f: "fs w (install_hooks_path repo) = Some (File b m)" and x: "exec_ok m"
    and ext: "run_ext e (install_hooks_path repo) [] repo (fs w) = (code, f')"
  shows "activate_hooks e repo w =
    (Inr (), w\<lparr>fs := f', procs := procs w @ [(repo, [path_str (install_hooks_path repo)])],
               out := out w @ (if code \<noteq> 0 then [(Stdout, hooks_warning)] else [])\<rparr>)"
proof -
  have "run_process e (install_hooks_path repo) [] (Some repo) w =
        (Inr code, w\<lparr>fs := f', procs := procs w @ [(repo, [path_str (install_hooks_path repo)])]\<rparr>)"
    using run_process_exec [OF wf f x _, of "Some repo"] r ext by (simp add: install_hooks_path_def)
  with f show ?thesis by (simp add: activate_hooks_def Let_def exists_def bindA_Inr emit_def ret_apply)
qed

lemma activate_hooks_Inr_exec:
  assumes run: "activate_hooks e repo w = (Inr u, w')" and wf: "wf_fs (fs w)"
    and r: "fs w repo = Some Dir" and ex: "fs w (install_hooks_path repo) \<noteq> None"
  shows "exec_file (fs w) (install_hooks_path repo)"
proof (rule ccontr)
  assume nx: "\<not> exec_file (fs w) (install_hooks_path repo)"
  have par: "fs w (butlast (install_hooks_path repo)) = Some Dir"
    using wf ex by (simp add: wf_fs_parent install_hooks_path_def)
  from nx ex par r have "run_process e (install_hooks_path repo) [] (Some repo) w = (Inl (Raise PermissionError), w)"
    by (auto simp: run_process_def exec_file_def dir_error_dir split: option.splits node.splits)
  with run ex show False by (simp add: activate_hooks_unfold bindA_Inl)
qed

subsection \<open>Claims about the bridge\<close>

text \<open>
  C23. \<open>_run\<close> propagates the script's exit code: when the script is an
  executable file, it is run once with the given arguments in the process's
  working directory, the command continues on exit code 0 and stops with
  \<open>typer.Exit\<close> carrying that exact code otherwise.
\<close>

theorem run_propagates_exit_code:
  assumes wf: "wf_fs (fs w)" and f: "fs w script = Some (File b m)" and x: "exec_ok m"
    and ne: "script \<noteq> []" and ext: "run_ext e script args (cwd e) (fs w) = (code, f')"
  shows "run e script args w =
    (if code = 0 then Inr () else Inl (Exit code), w\<lparr>fs := f', procs := procs w @ [(cwd e, path_str script # args)]\<rparr>)"
  using run_exec [OF wf f x ne ext] .

theorem run_propagates_exit_code_witness:
  "run ex_env_failing (BOOTSTRAP_SCRIPT ex_env_failing) [''/repo''] ex_world =
     (Inl (Exit 3), ex_world\<lparr>procs := [([''repo''], [''/skill/scripts/bootstrap_control.sh'', ''/repo''])]\<rparr>)"
proof -
  have f: "fs ex_world (BOOTSTRAP_SCRIPT ex_env_failing) = Some (File [0x62] 493)"
    by (simp add: scenario_defs BOOTSTRAP_SCRIPT_def)
  have x: "exec_ok 493" by (simp add: exec_ok_def)
  have ne: "BOOTSTRAP_SCRIPT ex_env_failing \<noteq> []" by (simp add: BOOTSTRAP_SCRIPT_def)
  have ext: "run_ext ex_env_failing (BOOTSTRAP_SCRIPT ex_env_failing) [''/repo''] (cwd ex_env_failing) (fs ex_world)
      = (3, fs ex_world)"
    by (simp add: scenario_defs)
  show ?thesis
    using run_propagates_exit_code [OF ex_worlds_wf(1) f x ne ext]
    by (simp add: scenario_defs BOOTSTRAP_SCRIPT_def path_str_def)
qed

text \<open>
  C8. Hook activation never aborts the batch when the installer is an
  executable file: it runs \<open>install_hooks.sh\<close> once in the repository and
  only prints the warning when the installer exits non-zero.
\<close>

theorem activate_hooks_only_warns:
  assumes wf: "wf_fs (fs w)" and r: "fs w repo = Some Dir"
    and f: "fs w (install_hooks_path repo) = Some (File b m)" and x: "exec_ok m"
    and ext: "run_ext e (install_hooks_path repo) [] repo (fs w) = (code, f')"
  shows "activate_hooks e repo w =
    (Inr (), w\<lparr>fs := f', procs := procs w @ [(repo, [path_str (install_hooks_path repo)])],
               out := out w @ (if code \<noteq> 0 then [(Stdout, hooks_warning)] else [])\<rparr>)"
  using activate_hooks_exec [OF wf r f x ext] .

theorem activate_hooks_only_warns_witness:
  "activate_hooks ex_env_failing [''repo''] ex_world_hooked =
     (Inr (), ex_world_hooked\<lparr>procs := [([''repo''], [''/repo/scripts/control/install_hooks.sh''])],
                               out := [(Stdout, hooks_warning)]\<rparr>)"
proof -
  have r: "fs ex_world_hooked [''repo''] = Some Dir" by (simp add: scenario_defs)
  have f: "fs ex_world_hooked (install_hooks_path [''repo'']) = Some (File [0x69] 493)"
    by (simp add: scenario_defs install_hooks_path_def)
  have x: "exec_ok 493" by (simp add: exec_ok_def)
  have ext: "run_ext ex_env_failing (install_hooks_path [''repo'']) [] [''repo''] (fs ex_world_hooked)
      = (3, fs ex_world_hooked)"
    by (simp add: scenario_defs)
  show ?thesis
    using activate_hooks_only_warns [OF ex_worlds_wf(3) r f x ext]
    by (simp add: install_hooks_path_def path_str_def ex_world_hooked_def ex_world_def)
qed

text \<open>
  C7. When \<open>scripts/control/install_hooks.sh\<close> exists without the execute
  bit, hook activation does not warn: \<open>subprocess.run\<close> raises
  \<open>PermissionError\<close>, which nothing catches, so the batch aborts. This
  happens without \<open>--force\<close> whenever the user's own copy of the installer is
  not executable, since \<open>_copy_template\<close> skips it and never runs \<open>chmod\<close>.
\<close>

theorem activate_hooks_noexec_raises:
  assumes wf: "wf_fs (fs w)" and r: "fs w repo = Some Dir"
    and f: "fs w (install_hooks_path repo) = Some (File b m)" and x: "\<not> exec_ok m"
  shows "activate_hooks e repo w = (Inl (Raise PermissionError), w)"
proof -
  have "run_process e (install_hooks_path repo) [] (Some repo) w = (Inl (Raise PermissionError), w)"
    using run_process_not_exec [OF wf f x _, of "Some repo"] r by (simp add: install_hooks_path_def)
  with f show ?thesis by (simp add: activate_hooks_def Let_def exists_def bindA_Inl)
qed

theorem activate_hooks_noexec_raises_witness:
  "activate_hooks ex_env [''repo''] ex_world_noexec = (Inl (Raise PermissionError), ex_world_noexec)"
proof -
  have r: "fs ex_world_noexec [''repo''] = Some Dir" by (simp add: scenario_defs)
  have f: "fs ex_world_noexec (install_hooks_path [''repo'']) = Some (File [0x23] 420)"
    by (simp add: scenario_defs install_hooks_path_def)
  have x: "\<not> exec_ok 420" by (simp add: exec_ok_def)
  show ?thesis using activate_hooks_noexec_raises [OF ex_worlds_wf(2) r f x] .
qed

end
