(* ===== verification/Applier.thy ===== *)
theory Applier
  imports Materializer Bridge
begin

text \<open>
  The primitive applier, \<open>_apply_primitives\<close> of \<open>control_wizard.py\<close>
  (lines 156--164): for each primitive in the given order, print its header,
  materialize its files in catalog order printing one line per file, and
  after the files of \<open>hooks\<close> activate the git hooks. The inner loop over
  the files is \<open>copy_files\<close>; an abort anywhere ends the whole batch.
\<close>

definition file_line :: "copy_state \<Rightarrow> string \<Rightarrow> string" where
  "file_line st relative_path =
     (let label = (if st = Write then ''write'' else ''skip '')
      in ''  ['' @ label @ ''] '' @ relative_path)"

definition header_line :: "primitive \<Rightarrow> string" where
  "header_line primitive = CHR 0x0A # ''['' @ primitive_value primitive @ '']''"

fun copy_files :: "env \<Rightarrow> path \<Rightarrow> bool \<Rightarrow> string list \<Rightarrow> (world, unit) act" where
  "copy_files e repo force [] = ret ()"
| "copy_files e repo force (relative_path # rest) =
     bindA (copy_template e relative_path repo force) (\<lambda>state.
     bindA (emit Stdout (file_line state relative_path)) (\<lambda>_.
     copy_files e repo force rest))"

fun apply_primitives :: "env \<Rightarrow> path \<Rightarrow> primitive list \<Rightarrow> bool \<Rightarrow> (world, unit) act" where
  "apply_primitives e repo [] force = ret ()"
| "apply_primitives e repo (primitive # rest) force =
     bindA (emit Stdout (header_line primitive)) (\<lambda>_.
     bindA (copy_files e repo force (PRIMITIVE_FILES primitive)) (\<lambda>_.
     bindA (if primitive = hooks then activate_hooks e repo else ret ()) (\<lambda>_.
     apply_primitives e repo rest force)))"

text \<open>
  What a rerun without \<open>--force\<close> prints on a repository where every file
  is already in place: the header of each primitive, one \<open>skip\<close> line per
  file, and after \<open>hooks\<close> the warning when the installer exits non-zero
  on the current file system.
\<close>

definition hook_report :: "env \<Rightarrow> path \<Rightarrow> filesystem \<Rightarrow> (stream \<times> string) list" where
  "hook_report e repo f =
     (if fst (run_ext e (install_hooks_path repo) [] repo f) \<noteq> 0 then [(Stdout, hooks_warning)] else [])"

definition rerun_report :: "env \<Rightarrow> path \<Rightarrow> filesystem \<Rightarrow> primitive list \<Rightarrow> (stream \<times> string) list" where
  "rerun_report e repo f ps =
     concat (map (\<lambda>p. (Stdout, header_line p) # map (\<lambda>rel. (Stdout, file_line Skip rel)) (PRIMITIVE_FILES p)
                      @ (if p = hooks then hook_report e repo f else [])) ps)"

text \<open>
  A file system on which the primitives \<open>ps\<close> are in place: every template
  and every target of their files exists, and if \<open>hooks\<close> is among them
  the installer is executable.
\<close>

definition settled :: "env \<Rightarrow> path \<Rightarrow> primitive list \<Rightarrow> filesystem \<Rightarrow> bool" where
  "settled e repo ps f \<longleftrightarrow>
     wf_fs f \<and> f repo = Some Dir \<and>
     list_all (\<lambda>rel. exists f (pjoin (TEMPLATE_DIR e) rel) \<and> exists f (pjoin repo rel)) (primitives_files ps) \<and>
     (hooks \<in> set ps \<longrightarrow> exec_file f (install_hooks_path repo))"

subsection \<open>Behaviour of the applier\<close>

lemma copy_files_rel:
  assumes run: "copy_files e repo force rels w = (r, w')"
    and ct: "\<And>rel w r w'. rel \<in> set rels \<Longrightarrow> copy_template e rel repo force w = (r, w') \<Longrightarrow> P w w'"
    and em: "\<And>w s. P w (w\<lparr>out := out w @ [(Stdout, s)]\<rparr>)"
    and refl: "\<And>w. P w w" and trans: "\<And>a b c. P a b \<Longrightarrow> P b c \<Longrightarrow> P a c"
  shows "P w w'"
  using ct run
proof (induction rels arbitrary: w r w')
  case Nil
  then show ?case using refl by (simp add: ret_apply)
next
  case (Cons rel rels)
  have tail: "P t u" if "copy_files e repo force rels t = (r', u)" for t r' u
    using Cons.IH [OF _ that] Cons.prems(1) by auto
  from Cons.prems(2) have "bindA (copy_template e rel repo force)
       (\<lambda>state. bindA (emit Stdout (file_line state rel)) (\<lambda>_. copy_files e repo force rels)) w = (r, w')"
    by simp
  then show ?case
  proof (rule bindA_rel [where P = P, OF _ _ _ trans])
    show "P w t" if "copy_template e rel repo force w = (r', t)" for r' t
      using Cons.prems(1) [of rel] that by simp
  next
    fix x t r' u
    assume "bindA (emit Stdout (file_line x rel)) (\<lambda>_. copy_files e repo force rels) t = (r', u)"
    then have "copy_files e repo force rels (t\<lparr>out := out t @ [(Stdout, file_line x rel)]\<rparr>) = (r', u)"
      by simp
    with em tail trans show "P t u" by blast
  qed
qed

lemma apply_primitives_append:
  "apply_primitives e repo (xs @ ys) force =
     bindA (apply_primitives e repo xs force) (\<lambda>_. apply_primitives e repo ys force)"
proof (induction xs)
  case Nil
  show ?case by simp
next
  case (Cons p xs)
  show ?case
    by (simp only: append_Cons apply_primitives.simps Cons.IH bindA_assoc)
qed

lemma apply_rel:
  assumes run: "apply_primitives e repo ps force w = (r, w')"
    and cf: "\<And>p w r w'. p \<in> set ps \<Longrightarrow> copy_files e repo force (PRIMITIVE_FILES p) w = (r, w') \<Longrightarrow> P w w'"
    and ah: "\<And>w r w'. hooks \<in> set ps \<Longrightarrow> activate_hooks e repo w = (r, w') \<Longrightarrow> P w w'"
    and em: "\<And>w s. P w (w\<lparr>out := out w @ [(Stdout, s)]\<rparr>)"
    and refl: "\<And>w. P w w" and trans: "\<And>a b c. P a b \<Longrightarrow> P b c \<Longrightarrow> P a c"
  shows "P w w'"
  using cf ah run
proof (induction ps arbitrary: w r w')
  case Nil
  then show ?case using refl by (simp add: ret_apply)
next
  case (Cons p ps)
  let ?w1 = "w\<lparr>out := out w @ [(Stdout, header_line p)]\<rparr>"
  have tail: "P t u" if "apply_primitives e repo ps force t = (r', u)" for t r' u
    using Cons.IH [OF _ _ that] Cons.prems(1,2) by auto
  have hk: "P t u" if "(if p = hooks then activate_hooks e repo else ret ()) t = (r', u)" for t r' u
    using that Cons.prems(2) refl by (auto simp: ret_apply split: if_splits)
  from Cons.prems(3) have "bindA (copy_files e repo force (PRIMITIVE_FILES p))
      (\<lambda>_. bindA (if p = hooks then activate_hooks e repo else ret ())
        (\<lambda>_. apply_primitives e repo ps force)) ?w1 = (r, w')"
    by simp
  then have step: "P ?w1 w'"
  proof (rule bindA_rel [where P = P, OF _ _ _ trans])
    show "P ?w1 t" if "copy_files e repo force (PRIMITIVE_FILES p) ?w1 = (r', t)" for r' t
      using Cons.prems(1) [of p] that by simp
  next
    fix x t r' u
    assume "bindA (if p = hooks then activate_hooks e repo else ret ())
              (\<lambda>_. apply_primitives e repo ps force) t = (r', u)"
    then show "P t u"
    proof (rule bindA_rel [where P = P, OF _ hk _ trans])
      fix y t' r'' u'
      assume "(\<lambda>_. apply_primitives e repo ps force) y t' = (r'', u')"
      then show "P t' u'" by (intro tail) simp
    qed
  qed
  with em trans show ?case by blast
qed

lemma copy_files_procs: "copy_files e repo force rels w = (r, w') \<Longrightarrow> procs w' = procs w"
  by (erule copy_files_rel [where P = "\<lambda>w w'. procs w' = procs w"]) (auto dest: copy_template_procs)

lemma copy_files_keeps_existing:
  assumes run: "copy_files e repo force rels w = (r, w')" and ex: "fs w p \<noteq> None"
  shows "fs w' p \<noteq> None"
proof -
  have "fs w p \<noteq> None \<longrightarrow> fs w' p \<noteq> None"
    using run by (rule copy_files_rel) (auto dest: copy_template_keeps_existing)
  with ex show ?thesis by simp
qed

lemma copy_files_Inr_all:
  "copy_files e repo force rels w = (Inr (), w') \<Longrightarrow> rel \<in> set rels \<Longrightarrow>
   exists (fs w') (pjoin repo rel) \<and> exists (fs w') (pjoin (TEMPLATE_DIR e) rel)"
proof (induction rels arbitrary: w)
  case Nil
  then show ?case by simp
next
  case (Cons r0 rels)
  from Cons.prems(1) obtain st w1 where ct: "copy_template e r0 repo force w = (Inr st, w1)"
    and rest: "copy_files e repo force rels (w1\<lparr>out := out w1 @ [(Stdout, file_line st r0)]\<rparr>) = (Inr (), w')"
    by (auto simp: bindA_Inr_iff)
  show ?case
  proof (cases "rel = r0")
    case True
    from ct have "fs w1 (pjoin (TEMPLATE_DIR e) r0) \<noteq> None"
      using copy_template_Inr_source [OF ct] by (auto simp: exists_def dest: copy_template_keeps_existing)
    moreover from ct have "fs w1 (pjoin repo r0) \<noteq> None" by (simp add: copy_template_Inr)
    ultimately show ?thesis using copy_files_keeps_existing [OF rest] True by (simp add: exists_def)
  next
    case False
    with Cons.prems(2) have "rel \<in> set rels" by simp
    with rest show ?thesis by (rule Cons.IH)
  qed
qed

lemma install_hooks_in_catalog:
  "pjoin repo ''scripts/control/install_hooks.sh'' = install_hooks_path repo"
  "''scripts/control/install_hooks.sh'' \<in> set (PRIMITIVE_FILES hooks)"
  by (simp_all add: pjoin_def parse_path_def is_abs_def install_hooks_path_def)

lemma grows_below_guarded_trans:
  "(wf_fs (fs a) \<and> fs a repo = Some Dir \<longrightarrow> grows_below repo (fs a) (fs b)) \<Longrightarrow>
   (wf_fs (fs b) \<and> fs b repo = Some Dir \<longrightarrow> grows_below repo (fs b) (fs c)) \<Longrightarrow>
   (wf_fs (fs a) \<and> fs a repo = Some Dir \<longrightarrow> grows_below repo (fs a) (fs c))"
  by (metis grows_below_trans grows_below_def grows_below_repo)

lemma copy_files_grows_below:
  assumes run: "copy_files e repo force (PRIMITIVE_FILES q) w = (r, w')"
    and wf: "wf_fs (fs w)" and repo: "fs w repo = Some Dir"
  shows "grows_below repo (fs w) (fs w')"
proof -
  let ?P = "\<lambda>w w'. wf_fs (fs w) \<and> fs w repo = Some Dir \<longrightarrow> grows_below repo (fs w) (fs w')"
  have "?P w w'"
    using run
  proof (rule copy_files_rel [where P = ?P, OF _ _ _ _ grows_below_guarded_trans])
    fix rel v r'' v' assume "rel \<in> set (PRIMITIVE_FILES q)" "copy_template e rel repo force v = (r'', v')"
    then show "?P v v'" by (auto dest: copy_template_frame primitive_files_clean)
  qed (auto simp: grows_below_refl)
  with wf repo show ?thesis by simp
qed

lemma apply_primitives_keeps:
  assumes run: "apply_primitives e repo ps force w = (r, w')" and inert: "hooks_inert e repo"
  shows "(exists (fs w) p \<longrightarrow> exists (fs w') p) \<and> (exec_file (fs w) p \<longrightarrow> exec_file (fs w') p)"
proof -
  let ?P = "\<lambda>w w'. (exists (fs w) p \<longrightarrow> exists (fs w') p) \<and> (exec_file (fs w) p \<longrightarrow> exec_file (fs w') p)"
  show ?thesis
    using run
  proof (rule apply_rel [where P = ?P])
    fix q t r' u assume "copy_files e repo force (PRIMITIVE_FILES q) t = (r', u)"
    then show "?P t u"
      by (rule copy_files_rel [where P = ?P])
        (auto simp: exists_def dest: copy_template_keeps_existing copy_template_keeps_exec)
  next
    fix t r' u assume "activate_hooks e repo t = (r', u)"
    with inert show "?P t u" by (simp add: activate_hooks_inert_fs)
  qed auto
qed

lemma settled_Cons:
  "settled e repo (p # ps) f \<longleftrightarrow>
     settled e repo ps f \<and>
     list_all (\<lambda>rel. exists f (pjoin (TEMPLATE_DIR e) rel) \<and> exists f (pjoin repo rel)) (PRIMITIVE_FILES p) \<and>
     (p = hooks \<longrightarrow> exec_file f (install_hooks_path repo))"
  by (auto simp: settled_def primitives_files_def)

lemma copy_files_settled:
  assumes wf: "wf_fs (fs w)" and cl: "\<forall>rel \<in> set rels. clean_rel rel"
    and ok: "list_all (\<lambda>rel. exists (fs w) (pjoin (TEMPLATE_DIR e) rel) \<and> exists (fs w) (pjoin repo rel)) rels"
  shows "copy_files e repo False rels w = (Inr (), w\<lparr>out := out w @ map (\<lambda>rel. (Stdout, file_line Skip rel)) rels\<rparr>)"
  using wf cl ok
proof (induction rels arbitrary: w)
  case Nil
  then show ?case by (simp add: ret_apply)
next
  case (Cons rel rels)
  let ?w1 = "w\<lparr>out := out w @ [(Stdout, file_line Skip rel)]\<rparr>"
  have ne: "pjoin repo rel \<noteq> []"
    using clean_rel_pjoin [of rel repo] Cons.prems(2) by auto
  have "copy_template e rel repo False w = (Inr Skip, w)"
    using Cons.prems(1,3) ne by (intro copy_template_skip) (auto simp: exists_def)
  moreover have "copy_files e repo False rels ?w1 =
      (Inr (), ?w1\<lparr>out := out ?w1 @ map (\<lambda>rel. (Stdout, file_line Skip rel)) rels\<rparr>)"
    using Cons.prems by (intro Cons.IH) auto
  ultimately show ?case by (simp add: bindA_Inr)
qed

lemma apply_settled_rerun:
  assumes st: "settled e repo ps (fs w)" and inert: "hooks_inert e repo"
  shows "apply_primitives e repo ps False w =
    (Inr (), w\<lparr>out := out w @ rerun_report e repo (fs w) ps,
               procs := procs w @ replicate (count_list ps hooks) (repo, [path_str (install_hooks_path repo)])\<rparr>)"
  using st
proof (induction ps arbitrary: w)
  case Nil
  then show ?case by (simp add: ret_apply rerun_report_def)
next
  case (Cons p ps)
  let ?w2 = "w\<lparr>out := out w @ (Stdout, header_line p) # map (\<lambda>rel. (Stdout, file_line Skip rel)) (PRIMITIVE_FILES p)\<rparr>"
  let ?w3 = "?w2\<lparr>out := out ?w2 @ (if p = hooks then hook_report e repo (fs w) else []),
                  procs := procs w @ (if p = hooks then [(repo, [path_str (install_hooks_path repo)])] else [])\<rparr>"
  from Cons.prems have st: "settled e repo ps (fs w)"
    and ok: "list_all (\<lambda>rel. exists (fs w) (pjoin (TEMPLATE_DIR e) rel) \<and> exists (fs w) (pjoin repo rel)) (PRIMITIVE_FILES p)"
    and hk: "p = hooks \<Longrightarrow> exec_file (fs w) (install_hooks_path repo)"
    by (simp_all add: settled_Cons)
  from st have wf: "wf_fs (fs w)" and r: "fs w repo = Some Dir" by (simp_all add: settled_def)
  have cf: "copy_files e repo False (PRIMITIVE_FILES p) (w\<lparr>out := out w @ [(Stdout, header_line p)]\<rparr>) = (Inr (), ?w2)"
    using copy_files_settled [of "w\<lparr>out := out w @ [(Stdout, header_line p)]\<rparr>"] wf ok
    by (simp add: primitive_files_clean)
  have ah: "(if p = hooks then activate_hooks e repo else ret ()) ?w2 = (Inr (), ?w3)"
  proof (cases "p = hooks")
    case True
    from hk [OF True] obtain b m where f: "fs w (install_hooks_path repo) = Some (File b m)" and x: "exec_ok m"
      by (auto simp: exec_file_iff)
    have ext: "run_ext e (install_hooks_path repo) [] repo (fs ?w2) =
               (fst (run_ext e (install_hooks_path repo) [] repo (fs w)), fs ?w2)"
      using inert by (simp add: hooks_inert_def prod_eq_iff)
    show ?thesis
      using activate_hooks_exec [of ?w2, OF _ _ _ x ext] wf r f True by (simp add: hook_report_def)
  next
    case False
    then show ?thesis by (simp add: ret_apply)
  qed
  have rest: "apply_primitives e repo ps False ?w3 =
    (Inr (), ?w3\<lparr>out := out ?w3 @ rerun_report e repo (fs w) ps,
                procs := procs ?w3 @ replicate (count_list ps hooks) (repo, [path_str (install_hooks_path repo)])\<rparr>)"
    using Cons.IH [of ?w3] st by simp
  have step: "apply_primitives e repo (p # ps) False w = apply_primitives e repo ps False ?w3"
    by (simp only: apply_primitives.simps bindA_emit bindA_Inr [where m = "copy_files e repo False (PRIMITIVE_FILES p)", OF cf]
        bindA_Inr [where m = "if p = hooks then activate_hooks e repo else ret ()", OF ah])
  show ?case
    by (simp only: step rest) (simp add: rerun_report_def)
qed

lemma apply_primitives_settles:
  assumes run: "apply_primitives e repo ps force w = (Inr (), w')"
    and wf: "wf_fs (fs w)" and repo: "fs w repo = Some Dir" and inert: "hooks_inert e repo"
  shows "settled e repo ps (fs w')"
  using run wf repo
proof (induction ps arbitrary: w)
  case Nil
  then show ?case by (simp add: ret_apply settled_def primitives_files_def)
next
  case (Cons p ps)
  from Cons.prems(1) obtain w2 w3 where
    cf: "copy_files e repo force (PRIMITIVE_FILES p) (w\<lparr>out := out w @ [(Stdout, header_line p)]\<rparr>) = (Inr (), w2)"
    and hk: "(if p = hooks then activate_hooks e repo else ret ()) w2 = (Inr (), w3)"
    and rest: "apply_primitives e repo ps force w3 = (Inr (), w')"
    by (auto simp: bindA_Inr_iff)
  from cf Cons.prems(2,3) have g2: "grows_below repo (fs w) (fs w2)"
    using copy_files_grows_below [OF cf] by simp
  then have wf2: "wf_fs (fs w2)" and r2: "fs w2 repo = Some Dir"
    using grows_below_repo [OF g2] Cons.prems(3) by (simp_all add: grows_below_def)
  have f3: "fs w3 = fs w2"
    using hk inert by (auto simp: activate_hooks_inert_fs ret_apply split: if_splits)
  have st: "settled e repo ps (fs w')"
    using Cons.IH [OF rest] wf2 r2 f3 by simp
  have files: "list_all (\<lambda>rel. exists (fs w') (pjoin (TEMPLATE_DIR e) rel) \<and> exists (fs w') (pjoin repo rel))
      (PRIMITIVE_FILES p)"
    unfolding list_all_iff
  proof
    fix rel assume "rel \<in> set (PRIMITIVE_FILES p)"
    with cf f3 have "exists (fs w3) (pjoin repo rel) \<and> exists (fs w3) (pjoin (TEMPLATE_DIR e) rel)"
      by (simp add: copy_files_Inr_all)
    then show "exists (fs w') (pjoin (TEMPLATE_DIR e) rel) \<and> exists (fs w') (pjoin repo rel)"
      using apply_primitives_keeps [OF rest inert] by blast
  qed
  have hooks_x: "exec_file (fs w') (install_hooks_path repo)" if p: "p = hooks"
  proof -
    from cf have "exists (fs w2) (install_hooks_path repo)"
      using copy_files_Inr_all install_hooks_in_catalog p by metis
    with hk p wf2 r2 have "exec_file (fs w2) (install_hooks_path repo)"
      by (auto simp: exists_def intro: activate_hooks_Inr_exec)
    with f3 show ?thesis using apply_primitives_keeps [OF rest inert] by simp
  qed
  from st files hooks_x show ?case by (simp add: settled_Cons)
qed

lemma apply_primitives_grows_below:
  assumes run: "apply_primitives e repo ps force w = (r, w')"
    and wf: "wf_fs (fs w)" and repo: "fs w repo = Some Dir" and inert: "hooks_inert e repo"
  shows "grows_below repo (fs w) (fs w')"
proof -
  let ?P = "\<lambda>w w'. wf_fs (fs w) \<and> fs w repo = Some Dir \<longrightarrow> grows_below repo (fs w) (fs w')"
  have "?P w w'"
    using run
  proof (rule apply_rel [where P = ?P, OF _ _ _ _ _ grows_below_guarded_trans])
    fix q t r' u assume "q \<in> set ps" "copy_files e repo force (PRIMITIVE_FILES q) t = (r', u)"
    then show "?P t u" by (auto intro: copy_files_grows_below)
  next
    fix t r' u assume "activate_hooks e repo t = (r', u)"
    with inert show "?P t u" by (simp add: activate_hooks_inert_fs grows_below_refl)
  qed (auto simp: grows_below_refl)
  with wf repo show ?thesis by simp
qed

lemma copy_template_prefix:
  "copy_template e rel repo force w = (r, w') \<Longrightarrow> prefix (out w) (out w') \<and> procs w' = procs w"
  by (drule copy_template_cases) auto

lemma activate_hooks_prefix:
  assumes run: "activate_hooks e repo w = (r, w')"
  shows "prefix (out w) (out w') \<and> prefix (procs w) (procs w')"
proof (cases r)
  case (Inl err)
  with run have "w' = w" by (blast intro: activate_hooks_Inl)
  then show ?thesis by simp
next
  case (Inr u)
  with run show ?thesis by (auto dest: activate_hooks_Inr)
qed

lemma copy_files_prefix:
  "copy_files e repo force rels w = (r, w') \<Longrightarrow> prefix (out w) (out w') \<and> prefix (procs w) (procs w')"
  by (erule copy_files_rel [where P = "\<lambda>w w'. prefix (out w) (out w') \<and> prefix (procs w) (procs w')"])
    (auto dest: copy_template_prefix intro: prefix_order.trans)

lemma apply_primitives_prefix:
  "apply_primitives e repo ps force w = (r, w') \<Longrightarrow> prefix (out w) (out w') \<and> prefix (procs w) (procs w')"
  by (erule apply_rel [where P = "\<lambda>w w'. prefix (out w) (out w') \<and> prefix (procs w) (procs w')"])
    (auto dest: activate_hooks_prefix copy_files_prefix intro: prefix_order.trans)

lemma settled_mono:
  assumes st: "settled e repo ps f" and wf: "wf_fs f'" and r: "f' repo = Some Dir"
    and ex: "\<And>p. exists f p \<Longrightarrow> exists f' p" and x: "\<And>p. exec_file f p \<Longrightarrow> exec_file f' p"
  shows "settled e repo ps f'"
  using st wf r by (auto simp: settled_def list_all_iff intro: ex x)

subsection \<open>Claims about \<open>_apply_primitives\<close>\<close>

lemmas applier_eval = pathlib_eval scenario_defs copy_template_def TEMPLATE_DIR_def header_line_def
  executable_target_def activate_hooks_def install_hooks_path_def bindA_assoc

text \<open>
  C1. Rerunning is idempotent: after a batch of primitives succeeded (with
  or without \<open>--force\<close>), running the same batch again without
  \<open>--force\<close> succeeds, changes no file, prints the headers and a
  \<open>skip\<close> line for every file (and the hook warning when the installer
  fails), and runs the hook installer once per \<open>hooks\<close> in the batch.
\<close>

theorem apply_rerun_is_idempotent:
  assumes first: "apply_primitives e repo ps force w = (Inr (), w1)"
    and wf: "wf_fs (fs w)" and repo: "fs w repo = Some Dir" and inert: "hooks_inert e repo"
  shows "apply_primitives e repo ps False w1 =
    (Inr (), w1\<lparr>out := out w1 @ rerun_report e repo (fs w1) ps,
                procs := procs w1 @ replicate (count_list ps hooks) (repo, [path_str (install_hooks_path repo)])\<rparr>)"
  using apply_settled_rerun [OF apply_primitives_settles [OF first wf repo inert] inert] .

theorem apply_rerun_is_idempotent_witness:
  "fst (apply_primitives ex_env [''repo''] [policy, hooks] False ex_world) = Inr () \<and>
   fst (apply_primitives ex_env [''repo''] [policy, hooks] False
         (snd (apply_primitives ex_env [''repo''] [policy, hooks] False ex_world))) = Inr () \<and>
   fs (snd (apply_primitives ex_env [''repo''] [policy, hooks] False
         (snd (apply_primitives ex_env [''repo''] [policy, hooks] False ex_world)))) =
   fs (snd (apply_primitives ex_env [''repo''] [policy, hooks] False ex_world))"
proof -
  have ok: "fst (apply_primitives ex_env [''repo''] [policy, hooks] False ex_world) = Inr ()"
    by (simp add: applier_eval)
  then have first: "apply_primitives ex_env [''repo''] [policy, hooks] False ex_world =
      (Inr (), snd (apply_primitives ex_env [''repo''] [policy, hooks] False ex_world))"
    by (metis prod.collapse)
  have repo: "fs ex_world [''repo''] = Some Dir" by (simp add: scenario_defs)
  have inert: "hooks_inert ex_env [''repo'']" by (simp add: hooks_inert_def scenario_defs)
  show ?thesis
    using apply_rerun_is_idempotent [OF first ex_worlds_wf(1) repo inert] ok by simp
qed

text \<open>
  C2. Without \<open>--force\<close> nothing that exists is changed: every entry of
  the file system before a batch (a user's file, its bytes and its mode,
  or a directory) is the same after it, whether the batch succeeds or
  aborts, provided the hook installer leaves the files alone.
\<close>

theorem apply_without_force_keeps_existing:
  assumes run: "apply_primitives e repo ps False w = (r, w')"
    and inert: "hooks_inert e repo" and p: "fs w p = Some n"
  shows "fs w' p = Some n"
proof -
  let ?P = "\<lambda>w w'. fs w p = Some n \<longrightarrow> fs w' p = Some n"
  have "?P w w'"
  using run
  proof (rule apply_rel)
    fix q t r' u assume "copy_files e repo False (PRIMITIVE_FILES q) t = (r', u)"
    then show "?P t u"
      by (rule copy_files_rel [where P = ?P]) (auto intro: copy_template_no_force)
  next
    fix t r' u assume "activate_hooks e repo t = (r', u)"
    with inert show "?P t u" by (simp add: activate_hooks_inert_fs)
  qed auto
  with p show ?thesis by simp
qed

theorem apply_without_force_keeps_existing_witness:
  "fs (snd (apply_primitives ex_env [''repo''] [hooks, policy] False ex_world_noexec))
      [''repo'', ''scripts'', ''control'', ''install_hooks.sh''] = Some (File [0x23] 420)"
proof -
  have inert: "hooks_inert ex_env [''repo'']" by (simp add: hooks_inert_def scenario_defs)
  have p: "fs ex_world_noexec [''repo'', ''scripts'', ''control'', ''install_hooks.sh''] = Some (File [0x23] 420)"
    by (simp add: scenario_defs)
  show ?thesis
    using apply_without_force_keeps_existing [OF prod.collapse [symmetric] inert p] .
qed

text \<open>
  C4. An abort ends the batch: once the primitives \<open>ps\<close> abort (a missing
  template, a file-system error, an exception of the hook installer), the
  primitives after them are never applied and the final state is the one
  at the abort.
\<close>

theorem apply_abort_stops_batch:
  "fst (apply_primitives e repo ps force w) = Inl err \<Longrightarrow>
   apply_primitives e repo (ps @ qs) force w = apply_primitives e repo ps force w"
  by (cases "apply_primitives e repo ps force w") (simp add: apply_primitives_append bindA_Inl)

theorem apply_abort_stops_batch_witness:
  "apply_primitives ex_env [''repo''] [topology, policy] False ex_world =
   apply_primitives ex_env [''repo''] [topology] False ex_world"
proof -
  have "fst (apply_primitives ex_env [''repo''] [topology] False ex_world) = Inl (Exit 2)"
    by (simp add: applier_eval)
  then show ?thesis using apply_abort_stops_batch [of ex_env "[''repo'']" "[topology]" False ex_world "Exit 2" "[policy]"]
    by simp
qed

text \<open>
  C6. A successful batch runs the hook installer exactly once for every
  occurrence of \<open>hooks\<close> in it, in the repository, and starts no other
  process.
\<close>

theorem apply_activates_hooks_once_per_occurrence:
  "apply_primitives e repo ps force w = (Inr u, w') \<Longrightarrow>
   procs w' = procs w @ replicate (count_list ps hooks) (repo, [path_str (install_hooks_path repo)])"
proof (induction ps arbitrary: w)
  case Nil
  then show ?case by (simp add: ret_apply)
next
  case (Cons p ps)
  from Cons.prems obtain w2 w3 where
    cf: "copy_files e repo force (PRIMITIVE_FILES p) (w\<lparr>out := out w @ [(Stdout, header_line p)]\<rparr>) = (Inr (), w2)"
    and hk: "(if p = hooks then activate_hooks e repo else ret ()) w2 = (Inr (), w3)"
    and rest: "apply_primitives e repo ps force w3 = (Inr u, w')"
    by (auto simp: bindA_Inr_iff)
  from cf have p2: "procs w2 = procs w" by (auto dest: copy_files_procs)
  have p3: "procs w3 = procs w2 @ (if p = hooks then [(repo, [path_str (install_hooks_path repo)])] else [])"
  proof (cases "p = hooks")
    case True
    with cf have "fs w2 (install_hooks_path repo) \<noteq> None"
      using copy_files_Inr_all install_hooks_in_catalog unfolding exists_def by metis
    with True hk show ?thesis by (auto dest: activate_hooks_Inr)
  next
    case False
    with hk show ?thesis by (simp add: ret_apply)
  qed
  from Cons.IH [OF rest] p2 p3 show ?case by simp
qed

theorem apply_activates_hooks_once_per_occurrence_witness:
  "procs (snd (apply_primitives ex_env [''repo''] [hooks, policy] False ex_world)) =
     [([''repo''], [''/repo/scripts/control/install_hooks.sh''])]"
proof -
  have ok: "fst (apply_primitives ex_env [''repo''] [hooks, policy] False ex_world) = Inr ()"
    by (simp add: applier_eval)
  then have run: "apply_primitives ex_env [''repo''] [hooks, policy] False ex_world =
      (Inr (), snd (apply_primitives ex_env [''repo''] [hooks, policy] False ex_world))"
    by (metis prod.collapse)
  show ?thesis
    using apply_activates_hooks_once_per_occurrence [OF run]
    by (simp add: scenario_defs install_hooks_path_def path_str_def)
qed

text \<open>
  C9. A batch stays inside the repository: whatever its outcome, the file
  system afterwards is well-formed, differs from the one before only at
  paths strictly below the repository, and still has every entry it had.
\<close>

theorem apply_confined_below_repo:
  assumes run: "apply_primitives e repo ps force w = (r, w')"
    and wf: "wf_fs (fs w)" and repo: "fs w repo = Some Dir" and inert: "hooks_inert e repo"
  shows "grows_below repo (fs w) (fs w')"
  using apply_primitives_grows_below [OF run wf repo inert] .

theorem apply_confined_below_repo_witness:
  "grows_below [''repo''] (fs ex_world) (fs (snd (apply_primitives ex_env [''repo''] [policy, hooks] True ex_world)))"
proof -
  have repo: "fs ex_world [''repo''] = Some Dir" by (simp add: scenario_defs)
  have inert: "hooks_inert ex_env [''repo'']" by (simp add: hooks_inert_def scenario_defs)
  show ?thesis
    using apply_confined_below_repo [OF prod.collapse [symmetric] ex_worlds_wf(1) repo inert] .
qed

end
