(* ===== verification/Resolver.thy ===== *)
theory Resolver
  imports Pathlib Scenario
begin

text \<open>
  The repository resolver, \<open>_resolve_repo\<close> of \<open>control_wizard.py\<close> (lines
  109--114): \<open>path.expanduser().resolve()\<close>, then the check that the result
  is an existing directory. A user-supplied \<open>Path\<close> is a pair of its
  absoluteness and its parts; \<open>expanduser\<close> replaces a leading \<open>~\<close> or
  \<open>~user\<close> part by the home directory and raises \<open>RuntimeError\<close> when there
  is none; \<open>resolve\<close> makes the path absolute against the working directory
  and removes \<open>..\<close> parts (no symbolic links are modelled). The lemmas show
  that the result is canonical, that \<open>str\<close> of a canonical path parses back to
  it, how \<open>~\<close> and \<open>..\<close> are resolved, and the error branches.
\<close>

type_synonym pypath = "bool \<times> string list"

text \<open>\<open>Path(s)\<close>: whether it is absolute, and its parts.\<close>

definition py_path :: "string \<Rightarrow> pypath" where
  "py_path s = (is_abs s, parse_path s)"

text \<open>
  \<open>PosixPath.expanduser\<close>: a relative path whose first part starts with
  \<open>~\<close> gets that part replaced by the home directory of the named user
  (\<open>os.path.expanduser\<close>); when it cannot be determined the result still
  starts with \<open>~\<close> and \<open>RuntimeError\<close> is raised.
\<close>

definition expanduser :: "env \<Rightarrow> pypath \<Rightarrow> oserror + pypath" where
  "expanduser e p =
     (case p of (a, parts) \<Rightarrow>
       if \<not> a \<and> parts \<noteq> [] \<and> take 1 (hd parts) = ''~'' then
         (case home_of e (drop 1 (hd parts)) of
            None \<Rightarrow> Inl RuntimeError
          | Some h \<Rightarrow> Inr (True, h @ tl parts))
       else Inr p)"

text \<open>The parts after the base, with \<open>..\<close> going up one level (the root is its own parent).\<close>

fun norm_dots :: "path \<Rightarrow> string list \<Rightarrow> path" where
  "norm_dots acc [] = acc"
| "norm_dots acc (c # cs) = norm_dots (if c = ''..'' then butlast acc else acc @ [c]) cs"

text \<open>\<open>Path.resolve()\<close> (non-strict): absolute against the working directory, \<open>..\<close> removed.\<close>

definition resolve :: "env \<Rightarrow> pypath \<Rightarrow> path" where
  "resolve e p = (case p of (a, parts) \<Rightarrow> norm_dots (if a then [] else cwd e) parts)"

definition resolve_repo :: "env \<Rightarrow> string \<Rightarrow> (world, path) act" where
  "resolve_repo e path =
     (case expanduser e (py_path path) of
        Inl err \<Rightarrow> throw (Raise err)
      | Inr p \<Rightarrow>
          (let repo = resolve e p
           in bindA get_fs (\<lambda>f.
                if \<not> exists f repo \<or> \<not> is_dir f repo then
                  bindA (emit Stderr (''error: repo path does not exist: '' @ path_str repo)) (\<lambda>_.
                  throw (Exit 2))
                else ret repo)))"

text \<open>
  A canonical absolute path: no part is empty, \<open>.\<close> or \<open>..\<close>, and no part
  contains a slash. This is what \<open>resolve()\<close> returns.
\<close>

definition canonical :: "path \<Rightarrow> bool" where
  "canonical p \<longleftrightarrow> list_all (\<lambda>c. c \<noteq> [] \<and> c \<noteq> ''.'' \<and> c \<noteq> ''..'' \<and> CHR ''/'' \<notin> set c) p"

text \<open>The environment's working directory and home directories are canonical.\<close>

definition env_canonical :: "env \<Rightarrow> bool" where
  "env_canonical e \<longleftrightarrow> canonical (cwd e) \<and> (\<forall>u h. home_of e u = Some h \<longrightarrow> canonical h)"

subsection \<open>Path strings\<close>

lemma split_on_nonempty [simp]: "split_on c s \<noteq> []"
  by (induction s) (auto split: list.splits)

lemma split_on_no_sep: "x \<in> set (split_on c s) \<Longrightarrow> c \<notin> set x"
proof (induction s arbitrary: x)
  case Nil
  then show ?case by simp
next
  case (Cons a s)
  then show ?case by (auto split: if_splits list.splits)
qed

lemma split_on_append:
  "c \<notin> set x \<Longrightarrow> split_on c (x @ s) = (x @ hd (split_on c s)) # tl (split_on c s)"
  by (induction x) (auto split: list.splits)

lemma split_on_path_str:
  "list_all (\<lambda>x. c \<notin> set x) r \<Longrightarrow>
   split_on c (concat (map (\<lambda>x. c # x) r)) = (if r = [] then [[]] else [] # r)"
proof (induction r)
  case Nil
  then show ?case by simp
next
  case (Cons x r)
  then show ?case by (simp add: split_on_append)
qed

lemma parse_path_parts: "x \<in> set (parse_path s) \<Longrightarrow> x \<noteq> [] \<and> x \<noteq> ''.'' \<and> CHR ''/'' \<notin> set x"
  by (auto simp: parse_path_def dest: split_on_no_sep)

lemma path_str_cons: "path_str p = (if p = [] then ''/'' else concat (map (\<lambda>x. CHR ''/'' # x) p))"
proof -
  have eq: "(\<lambda>x. ''/'' @ x) = (\<lambda>x. CHR ''/'' # x)" by (rule ext) simp
  show ?thesis by (simp add: path_str_def eq)
qed

lemma parse_path_of_path_str: "canonical p \<Longrightarrow> parse_path (path_str p) = p"
proof -
  assume c: "canonical p"
  then have sep: "list_all (\<lambda>x. CHR ''/'' \<notin> set x) p" by (auto simp: canonical_def list_all_iff)
  show ?thesis
  proof (cases "p = []")
    case True
    then show ?thesis by (simp add: path_str_def parse_path_def)
  next
    case False
    with c sep show ?thesis
      by (auto simp: path_str_cons parse_path_def split_on_path_str canonical_def list_all_iff
               intro!: filter_True)
  qed
qed

lemma is_abs_path_str: "is_abs (path_str p)"
  by (cases p) (simp_all add: is_abs_def path_str_def)

subsection \<open>Resolution\<close>

lemma canonical_append [simp]: "canonical (p @ q) \<longleftrightarrow> canonical p \<and> canonical q"
  by (simp add: canonical_def)

lemma canonical_butlast: "canonical p \<Longrightarrow> canonical (butlast p)"
  by (auto simp: canonical_def list_all_iff dest: in_set_butlastD)

lemma norm_dots_canonical:
  "canonical acc \<Longrightarrow> list_all (\<lambda>x. x \<noteq> [] \<and> x \<noteq> ''.'' \<and> CHR ''/'' \<notin> set x) cs \<Longrightarrow>
   canonical (norm_dots acc cs)"
proof (induction acc cs rule: norm_dots.induct)
  case (2 acc c cs)
  have "canonical (if c = ''..'' then butlast acc else acc @ [c])"
    using 2(2,3) canonical_butlast [OF 2(2)] by (auto simp: canonical_def)
  with 2 show ?case by simp
qed simp

lemma norm_dots_plain: "list_all (\<lambda>x. x \<noteq> ''..'') cs \<Longrightarrow> norm_dots acc cs = acc @ cs"
  by (induction acc cs rule: norm_dots.induct) auto

lemma expanduser_canonical:
  "expanduser e (py_path s) = Inr (a, parts) \<Longrightarrow> env_canonical e \<Longrightarrow>
   list_all (\<lambda>x. x \<noteq> [] \<and> x \<noteq> ''.'' \<and> CHR ''/'' \<notin> set x) parts"
proof -
  assume ex: "expanduser e (py_path s) = Inr (a, parts)" and ec: "env_canonical e"
  have pp: "list_all (\<lambda>x. x \<noteq> [] \<and> x \<noteq> ''.'' \<and> CHR ''/'' \<notin> set x) (parse_path s)"
    by (simp add: list_all_iff parse_path_parts)
  then have tl: "list_all (\<lambda>x. x \<noteq> [] \<and> x \<noteq> ''.'' \<and> CHR ''/'' \<notin> set x) (tl (parse_path s))"
    by (cases "parse_path s") simp_all
  have home: "list_all (\<lambda>x. x \<noteq> [] \<and> x \<noteq> ''.'' \<and> CHR ''/'' \<notin> set x) h" if "home_of e u = Some h" for u h
    using ec that by (auto simp: env_canonical_def canonical_def list_all_iff)
  from ex pp tl show ?thesis
    by (auto simp: expanduser_def py_path_def split: if_splits option.splits dest!: home)
qed

lemma resolve_canonical:
  assumes ex: "expanduser e (py_path s) = Inr p" and ec: "env_canonical e"
  shows "canonical (resolve e p)"
proof (cases p)
  case (Pair a parts)
  with expanduser_canonical [OF _ ec] ex
  have "list_all (\<lambda>x. x \<noteq> [] \<and> x \<noteq> ''.'' \<and> CHR ''/'' \<notin> set x) parts" by simp
  moreover have "canonical (if a then [] else cwd e)" using ec by (simp add: env_canonical_def canonical_def)
  ultimately show ?thesis by (simp add: resolve_def Pair norm_dots_canonical)
qed

lemma expanduser_abs: "expanduser e (True, parts) = Inr (True, parts)"
  by (simp add: expanduser_def)

lemma resolve_repo_unfold:
  "expanduser e (py_path s) = Inr p \<Longrightarrow>
   resolve_repo e s w =
     (if fs w (resolve e p) = Some Dir then (Inr (resolve e p), w)
      else (Inl (Exit 2), w\<lparr>out := out w @ [(Stderr, ''error: repo path does not exist: '' @ path_str (resolve e p))]\<rparr>))"
  by (auto simp: resolve_repo_def Let_def exists_def is_dir_def ret_apply throw_apply)

lemma split_on_no_sep_self: "c \<notin> set x \<Longrightarrow> split_on c x = [x]"
  using split_on_append [of c x "[]"] by simp

lemma py_path_path_str: "canonical r \<Longrightarrow> py_path (path_str r) = (True, r)"
  by (simp add: py_path_def is_abs_path_str parse_path_of_path_str)

lemma resolve_canonical_abs: "canonical r \<Longrightarrow> resolve e (True, r) = r"
  by (simp add: resolve_def norm_dots_plain canonical_def list_all_iff)

lemma resolve_repo_of_path_str:
  "canonical r \<Longrightarrow> fs w r = Some Dir \<Longrightarrow> resolve_repo e (path_str r) w = (Inr r, w)"
  by (simp add: resolve_repo_unfold py_path_path_str expanduser_abs resolve_canonical_abs)

lemma resolve_repo_frame:
  "resolve_repo e s w = (r, w') \<Longrightarrow>
   fs w' = fs w \<and> procs w' = procs w \<and> prefix (out w) (out w') \<and> (\<forall>repo. r = Inr repo \<longrightarrow> w' = w)"
proof (cases "expanduser e (py_path s)")
  case (Inl err)
  then show "resolve_repo e s w = (r, w') \<Longrightarrow> ?thesis" by (simp add: resolve_repo_def throw_apply)
next
  case (Inr p)
  then show "resolve_repo e s w = (r, w') \<Longrightarrow> ?thesis" by (auto simp: resolve_repo_unfold split: if_splits)
qed

lemma norm_dots_append: "norm_dots acc (cs @ ds) = norm_dots (norm_dots acc cs) ds"
  by (induction acc cs rule: norm_dots.induct) simp_all

lemma parse_path_home:
  "q \<noteq> [] \<Longrightarrow> list_all (\<lambda>c. c \<noteq> [] \<and> c \<noteq> ''.'' \<and> CHR ''/'' \<notin> set c) q \<Longrightarrow>
   parse_path (''~'' @ path_str q) = ''~'' # q"
proof -
  assume ne: "q \<noteq> []" and q: "list_all (\<lambda>c. c \<noteq> [] \<and> c \<noteq> ''.'' \<and> CHR ''/'' \<notin> set c) q"
  then have sep: "list_all (\<lambda>c. CHR ''/'' \<notin> set c) q" by (simp add: list_all_iff)
  have "split_on (CHR ''/'') (''~'' @ path_str q) = ''~'' # q"
    using ne split_on_path_str [OF sep] by (simp add: path_str_cons split_on_append)
  with q show ?thesis by (simp add: parse_path_def list_all_iff filter_True)
qed

subsection \<open>Claims about \<open>_resolve_repo\<close>\<close>

text \<open>
  C16. The resolver is the validation choke point: when it returns a
  repository, the file system and the output are untouched, the repository
  is an existing directory, and its path is canonical (absolute, no empty,
  \<open>.\<close> or \<open>..\<close> part), so that \<open>str(repo)\<close> passed to the scripts names it
  exactly. This needs a canonical working directory and home directories.
\<close>

theorem resolve_repo_returns_canonical_dir:
  assumes run: "resolve_repo e s w = (Inr repo, w')" and ec: "env_canonical e"
  shows "w' = w \<and> fs w repo = Some Dir \<and> canonical repo \<and> parse_path (path_str repo) = repo"
proof (cases "expanduser e (py_path s)")
  case (Inl err)
  with run show ?thesis by (simp add: resolve_repo_def throw_apply)
next
  case (Inr p)
  with run have "fs w (resolve e p) = Some Dir" and "repo = resolve e p" and "w' = w"
    by (simp_all add: resolve_repo_unfold split: if_splits)
  moreover have "canonical (resolve e p)" using Inr ec by (rule resolve_canonical)
  ultimately show ?thesis by (simp add: parse_path_of_path_str)
qed

theorem resolve_repo_returns_canonical_dir_witness:
  "resolve_repo ex_env ''~/../repo/.'' ex_world = (Inr [''repo''], ex_world) \<and>
   fs ex_world [''repo''] = Some Dir \<and> canonical [''repo''] \<and> parse_path (path_str [''repo'']) = [''repo'']"
proof -
  have ec: "env_canonical ex_env"
    by (auto simp: env_canonical_def canonical_def scenario_defs split: if_splits)
  have run: "resolve_repo ex_env ''~/../repo/.'' ex_world = (Inr [''repo''], ex_world)"
    by (simp add: resolve_repo_def py_path_def parse_path_def is_abs_def expanduser_def resolve_def
        scenario_defs Let_def exists_def is_dir_def ret_apply)
  show ?thesis using resolve_repo_returns_canonical_dir [OF run ec] run by simp
qed

text \<open>
  C17. A path that does not resolve to an existing directory (missing, or a
  regular file) is rejected with exit code 2 and the message
  \<open>error: repo path does not exist: <path>\<close> on stderr; nothing else changes.
\<close>

theorem resolve_repo_rejects_non_dir:
  "expanduser e (py_path s) = Inr p \<Longrightarrow> fs w (resolve e p) \<noteq> Some Dir \<Longrightarrow>
   resolve_repo e s w =
     (Inl (Exit 2), w\<lparr>out := out w @ [(Stderr, ''error: repo path does not exist: '' @ path_str (resolve e p))]\<rparr>)"
  by (simp add: resolve_repo_unfold)

theorem resolve_repo_rejects_non_dir_witness:
  "resolve_repo ex_env ''../skill/scripts/audit_control.sh'' ex_world =
     (Inl (Exit 2), ex_world\<lparr>out := [(Stderr, ''error: repo path does not exist: /skill/scripts/audit_control.sh'')]\<rparr>)"
proof -
  have ex: "expanduser ex_env (py_path ''../skill/scripts/audit_control.sh'') =
      Inr (False, [''..'', ''skill'', ''scripts'', ''audit_control.sh''])"
    by (simp add: expanduser_def py_path_def parse_path_def is_abs_def)
  have nd: "fs ex_world (resolve ex_env (False, [''..'', ''skill'', ''scripts'', ''audit_control.sh''])) \<noteq> Some Dir"
    by (simp add: resolve_def scenario_defs)
  show ?thesis using resolve_repo_rejects_non_dir [OF ex nd]
    by (simp add: resolve_def scenario_defs path_str_def)
qed

text \<open>
  C18. \<open>~\<close> is the home directory of the current user and a \<open>..\<close> part
  cancels the part before it: an existing directory \<open>h/r\<close> below the home
  directory \<open>h\<close> is found from \<open>~/r/x/..\<close>, returned as \<open>h/r\<close>, and nothing
  changes.
\<close>

theorem resolve_repo_home_and_parent:
  assumes h: "home_of e [] = Some h" and ch: "canonical h" and cr: "canonical r" and cx: "canonical [x]"
    and d: "fs w (h @ r) = Some Dir"
  shows "resolve_repo e (''~'' @ path_str (r @ [x, ''..''])) w = (Inr (h @ r), w)"
proof -
  let ?q = "r @ [x, ''..'']"
  have parts: "list_all (\<lambda>c. c \<noteq> [] \<and> c \<noteq> ''.'' \<and> CHR ''/'' \<notin> set c) ?q"
    using cr cx by (auto simp: canonical_def list_all_iff)
  have pp: "parse_path (''~'' @ path_str ?q) = ''~'' # ?q" by (rule parse_path_home [OF _ parts]) simp
  have "expanduser e (py_path (''~'' @ path_str ?q)) = Inr (True, h @ ?q)"
    unfolding py_path_def pp using h by (simp add: is_abs_def expanduser_def)
  moreover have "resolve e (True, h @ ?q) = h @ r"
  proof -
    have "list_all (\<lambda>c. c \<noteq> ''..'') (h @ r)" using ch cr by (auto simp: canonical_def list_all_iff)
    then have "norm_dots [] (h @ r) = h @ r" by (simp add: norm_dots_plain)
    moreover have "x \<noteq> ''..''" using cx by (simp add: canonical_def)
    ultimately show ?thesis by (simp add: resolve_def norm_dots_append butlast_append)
  qed
  ultimately show ?thesis using d by (simp add: resolve_repo_unfold)
qed

theorem resolve_repo_home_and_parent_witness:
  "resolve_repo ex_env ''~/a/..'' ex_world = (Inr [''home''], ex_world)"
proof -
  have h: "home_of ex_env [] = Some [''home'']" by (simp add: scenario_defs)
  have c: "canonical [''home'']" "canonical []" "canonical [''a'']" by (simp_all add: canonical_def)
  have d: "fs ex_world ([''home''] @ []) = Some Dir" by (simp add: scenario_defs)
  show ?thesis using resolve_repo_home_and_parent [OF h c d] by (simp add: path_str_def)
qed

text \<open>
  C19. A \<open>~user\<close> path whose user has no home directory does not fail with
  the resolver's own error (exit code 2): \<open>expanduser\<close> raises
  \<open>RuntimeError\<close>, which nothing catches, before the existence check.
\<close>

theorem resolve_repo_unknown_user:
  "home_of e u = None \<Longrightarrow> CHR ''/'' \<notin> set u \<Longrightarrow>
   resolve_repo e (''~'' @ u) w = (Inl (Raise RuntimeError), w)"
  by (simp add: resolve_repo_def expanduser_def py_path_def parse_path_def is_abs_def
      split_on_no_sep_self throw_apply)

theorem resolve_repo_unknown_user_witness:
  "resolve_repo ex_env ''~bob'' ex_world = (Inl (Raise RuntimeError), ex_world)"
proof -
  have h: "home_of ex_env ''bob'' = None" by (simp add: scenario_defs)
  have s: "CHR ''/'' \<notin> set ''bob''" by simp
  show ?thesis using resolve_repo_unknown_user [OF h s, of ex_world] by simp
qed

end
