(* ===== verification/Status.thy ===== *)
theory Status
  imports Catalog Resolver
begin

text \<open>
  The coverage reporter, the \<open>status\<close> command of \<open>control_wizard.py\<close>
  (lines 203--224): after resolving the repository it prints the baseline
  count and one \<open>OK\<close>/\<open>MISS\<close> line per baseline file, then for every
  primitive in declaration order the marker \<open>OK\<close>, \<open>PARTIAL\<close> or \<open>MISS\<close> and
  the count of its files present. Every \<open>exists()\<close> reads the same file
  system, since the command writes nothing; the lines are computed from one
  snapshot and printed in order. \<open>nat_str\<close> is Python's \<open>str\<close> of a
  non-negative \<open>int\<close> inside the f-strings.
\<close>

fun nat_str :: "nat \<Rightarrow> string" where
  "nat_str n = (if n < 10 then [char_of (48 + n)] else nat_str (n div 10) @ [char_of (48 + n mod 10)])"

declare nat_str.simps [simp del]

definition present_count :: "filesystem \<Rightarrow> path \<Rightarrow> string list \<Rightarrow> nat" where
  "present_count f repo rels = length (filter (\<lambda>rel. exists f (pjoin repo rel)) rels)"

definition baseline_lines :: "filesystem \<Rightarrow> path \<Rightarrow> string list" where
  "baseline_lines f repo =
     (''baseline: '' @ nat_str (present_count f repo BASELINE_FILES) @ ''/'' @ nat_str (length BASELINE_FILES))
     # map (\<lambda>rel. ''  ['' @ (if exists f (pjoin repo rel) then ''OK '' else ''MISS'') @ ''] '' @ rel) BASELINE_FILES"

definition coverage_marker :: "nat \<Rightarrow> nat \<Rightarrow> string" where
  "coverage_marker present total_count =
     (if present = total_count then ''OK '' else if 0 < present then ''PARTIAL'' else ''MISS'')"

definition primitive_line :: "filesystem \<Rightarrow> path \<Rightarrow> primitive \<Rightarrow> string" where
  "primitive_line f repo primitive =
     (let files = PRIMITIVE_FILES primitive; present = present_count f repo files
      in ''  ['' @ coverage_marker present (length files) @ ''] '' @ primitive_value primitive @ '': ''
         @ nat_str present @ ''/'' @ nat_str (length files))"

definition status_lines :: "filesystem \<Rightarrow> path \<Rightarrow> string list" where
  "status_lines f repo =
     [''Control metalayer status for '' @ path_str repo, '''']
     @ baseline_lines f repo
     @ ['''', ''primitives:'']
     @ map (primitive_line f repo) enum_class.enum"

fun emit_lines :: "string list \<Rightarrow> (world, unit) act" where
  "emit_lines [] = ret ()"
| "emit_lines (l # ls) = bindA (emit Stdout l) (\<lambda>_. emit_lines ls)"

definition status :: "env \<Rightarrow> string \<Rightarrow> (world, unit) act" where
  "status e repo_path =
     bindA (resolve_repo e repo_path) (\<lambda>repo.
     bindA get_fs (\<lambda>f.
     emit_lines (status_lines f repo)))"

text \<open>The tri-state of the specification's \<open>CoverageResult\<close>.\<close>

datatype coverage = Full | Partial | Missing

definition coverage_of :: "filesystem \<Rightarrow> path \<Rightarrow> primitive \<Rightarrow> coverage" where
  "coverage_of f repo p =
     (if list_all (\<lambda>rel. exists f (pjoin repo rel)) (PRIMITIVE_FILES p) then Full
      else if list_ex (\<lambda>rel. exists f (pjoin repo rel)) (PRIMITIVE_FILES p) then Partial
      else Missing)"

definition coverage_label :: "coverage \<Rightarrow> string" where
  "coverage_label c = (case c of Full \<Rightarrow> ''OK '' | Partial \<Rightarrow> ''PARTIAL'' | Missing \<Rightarrow> ''MISS'')"

subsection \<open>Behaviour of the reporter\<close>

lemma emit_lines_apply: "emit_lines ls w = (Inr (), w\<lparr>out := out w @ map (Pair Stdout) ls\<rparr>)"
  by (induction ls arbitrary: w) (simp_all add: ret_apply)

lemma present_count_le: "present_count f repo rels \<le> length rels"
  by (simp add: present_count_def)

lemma present_count_all:
  "present_count f repo rels = length rels \<longleftrightarrow> list_all (\<lambda>rel. exists f (pjoin repo rel)) rels"
proof
  assume "present_count f repo rels = length rels"
  then show "list_all (\<lambda>rel. exists f (pjoin repo rel)) rels"
    using length_filter_less [of _ rels "\<lambda>rel. exists f (pjoin repo rel)"]
    by (fastforce simp: present_count_def list_all_iff)
next
  assume "list_all (\<lambda>rel. exists f (pjoin repo rel)) rels"
  then show "present_count f repo rels = length rels"
    by (simp add: present_count_def list_all_iff)
qed

lemma present_count_pos:
  "0 < present_count f repo rels \<longleftrightarrow> list_ex (\<lambda>rel. exists f (pjoin repo rel)) rels"
  by (simp add: present_count_def list_ex_iff length_pos_if_in_set filter_empty_conv)

lemma status_unfold:
  "resolve_repo e s w = (Inr repo, w') \<Longrightarrow>
   status e s w = (Inr (), w'\<lparr>out := out w' @ map (Pair Stdout) (status_lines (fs w') repo)\<rparr>)"
  by (simp add: status_def bindA_Inr emit_lines_apply)

lemma pjoin_catalog_inj:
  "rel \<in> set (PRIMITIVE_FILES p) \<Longrightarrow> rel' \<in> set (PRIMITIVE_FILES p') \<Longrightarrow>
   pjoin repo rel' = pjoin repo rel \<Longrightarrow> rel' = rel"
  using primitive_files_clean [of rel p] primitive_files_clean [of rel' p']
  by (auto simp: pjoin_def clean_rel_def dest: primitive_files_inj)

lemma present_count_delete:
  assumes all: "list_all (\<lambda>x. exists f (pjoin repo x)) (PRIMITIVE_FILES p)"
    and rel: "rel \<in> set (PRIMITIVE_FILES p)"
  shows "present_count (f(pjoin repo rel := None)) repo (PRIMITIVE_FILES p) = length (PRIMITIVE_FILES p) - 1"
proof -
  have "filter (\<lambda>x. exists (f(pjoin repo rel := None)) (pjoin repo x)) (PRIMITIVE_FILES p) =
        filter (\<lambda>x. x \<noteq> rel) (PRIMITIVE_FILES p)"
    using all pjoin_catalog_inj [OF rel] by (auto simp: exists_def list_all_iff intro!: filter_cong)
  moreover have "filter (\<lambda>x. x \<noteq> rel) (PRIMITIVE_FILES p) = remove1 rel (PRIMITIVE_FILES p)"
    using distinct_remove1_removeAll [OF PRIMITIVE_FILES_distinct]
    by (auto simp: removeAll_filter_not_eq intro: filter_cong)
  ultimately show ?thesis using rel by (simp add: present_count_def length_remove1)
qed

lemma coverage_marker_one_less:
  "0 < n \<Longrightarrow> coverage_marker (n - 1) n = (if n = 1 then ''MISS'' else ''PARTIAL'')"
  by (auto simp: coverage_marker_def)

subsection \<open>Claims about the reporter\<close>

text \<open>
  C13. The marker \<open>status\<close> prints for a primitive is the specification's
  tri-state: \<open>OK\<close> exactly when all of its files exist (full),
  \<open>PARTIAL\<close> when some but not all do, \<open>MISS\<close> when none does. This relies
  on no primitive having an empty file list.
\<close>

theorem coverage_marker_matches_spec:
  "coverage_marker (present_count f repo (PRIMITIVE_FILES p)) (length (PRIMITIVE_FILES p)) =
   coverage_label (coverage_of f repo p)"
proof -
  have "PRIMITIVE_FILES p \<noteq> []" by (rule PRIMITIVE_FILES_nonempty)
  then show ?thesis
    by (auto simp: coverage_marker_def coverage_of_def coverage_label_def present_count_all
        present_count_pos[symmetric] simp del: length_greater_0_conv)
qed

text \<open>
  C15. \<open>status\<close> is read-only: whatever its outcome, the file system and the
  processes are unchanged and the output is only appended to.
\<close>

theorem status_read_only:
  assumes run: "status e s w = (r, w')"
  shows "fs w' = fs w \<and> procs w' = procs w \<and> prefix (out w) (out w')"
proof -
  obtain r1 w1 where rr: "resolve_repo e s w = (r1, w1)" by fastforce
  note fr = resolve_repo_frame [OF rr]
  show ?thesis
  proof (cases r1)
    case (Inl err)
    with run rr fr show ?thesis by (simp add: status_def bindA_Inl)
  next
    case (Inr repo)
    with run rr fr show ?thesis by (auto simp: status_unfold)
  qed
qed

theorem status_read_only_witness:
  "fs (snd (status ex_env ''.'' ex_world)) = fs ex_world \<and> procs (snd (status ex_env ''.'' ex_world)) = []"
  using status_read_only [OF prod.collapse [symmetric], of ex_env "''.''" ex_world]
  by (simp add: scenario_defs)

text \<open>
  C14. Deletion of one file shows in the report: if all files of a
  primitive are present and exactly one of them is deleted, the line
  \<open>status\<close> prints for the primitive reads \<open>PARTIAL\<close> with one file fewer
  than its total, or \<open>MISS\<close> with \<open>0/1\<close> when that was its only file.
\<close>

theorem status_line_after_deleting_one:
  assumes all: "list_all (\<lambda>x. exists f (pjoin repo x)) (PRIMITIVE_FILES p)"
    and rel: "rel \<in> set (PRIMITIVE_FILES p)"
  shows "primitive_line (f(pjoin repo rel := None)) repo p =
    ''  ['' @ (if length (PRIMITIVE_FILES p) = 1 then ''MISS'' else ''PARTIAL'') @ ''] '' @
    primitive_value p @ '': '' @ nat_str (length (PRIMITIVE_FILES p) - 1) @ ''/'' @
    nat_str (length (PRIMITIVE_FILES p))"
proof -
  have "0 < length (PRIMITIVE_FILES p)" using rel by (rule length_pos_if_in_set)
  then have m: "coverage_marker (length (PRIMITIVE_FILES p) - 1) (length (PRIMITIVE_FILES p)) =
      (if length (PRIMITIVE_FILES p) = 1 then ''MISS'' else ''PARTIAL'')"
    by (rule coverage_marker_one_less)
  show ?thesis by (simp only: primitive_line_def Let_def present_count_delete [OF all rel] m)
qed

theorem status_line_after_deleting_one_witness:
  "primitive_line (ex_fs(ex_tdir @ [''.githooks'', ''pre-push''] := None)) ex_tdir hooks =
     ''  [PARTIAL] hooks: 2/3''"
proof -
  have all: "list_all (\<lambda>x. exists ex_fs (pjoin ex_tdir x)) (PRIMITIVE_FILES hooks)"
    by (simp add: scenario_defs pathlib_eval)
  have rel: "''.githooks/pre-push'' \<in> set (PRIMITIVE_FILES hooks)" by simp
  have p: "pjoin ex_tdir ''.githooks/pre-push'' = ex_tdir @ [''.githooks'', ''pre-push'']"
    by (simp add: pjoin_def parse_path_def is_abs_def)
  have n: "nat_str (Suc (Suc 0)) = ''2''" "nat_str (Suc (Suc (Suc 0))) = ''3''" by code_simp+
  show ?thesis using status_line_after_deleting_one [OF all rel] p n by simp
qed

end
