(* ===== verification/Commands.thy ===== *)
theory Commands
  imports Applier Status "HOL-Library.Word"
begin

text \<open>
  The commands of \<open>control_wizard.py\<close>: \<open>init\<close> (lines 167--187),
  \<open>audit\<close> (190--200), \<open>primitive list\<close> (227--233) and
  \<open>primitive add\<close> (236--245), on the arguments after \<open>typer\<close> has parsed
  them; the parsing of primitive names into the \<open>Primitive\<close> enumeration
  (\<open>Primitive(value)\<close>, lines 49--60 and the \<open>List[Primitive]\<close> argument of
  line 238), whose failure is \<open>typer\<close>'s usage error with exit code 2; and
  the exit status of the process (\<open>app()\<close>, line 249): 0 on success, the
  code of \<open>typer.Exit\<close>, 1 for an uncaught exception, reduced to a byte
  by the operating system.
\<close>

definition init :: "env \<Rightarrow> string \<Rightarrow> profile \<Rightarrow> bool \<Rightarrow> (world, unit) act" where
  "init e repo_path profile force =
     bindA (resolve_repo e repo_path) (\<lambda>repo.
     bindA (emit Stdout (''Initializing control metalayer in '' @ path_str repo)) (\<lambda>_.
     (let args = [path_str repo] @ (if force then [''--force''] else [])
      in bindA (run e (BOOTSTRAP_SCRIPT e) args) (\<lambda>_.
         if profile = baseline then ret ()
         else
           (let primitives = (if profile = governed then GOVERNED_PRIMITIVES else AUTONOMOUS_PRIMITIVES)
            in bindA (apply_primitives e repo primitives force) (\<lambda>_.
               emit Stdout (CHR 0x0A # ''Initialization complete.'')))))))"

definition audit :: "env \<Rightarrow> string \<Rightarrow> bool \<Rightarrow> (world, unit) act" where
  "audit e repo_path strict =
     bindA (resolve_repo e repo_path) (\<lambda>repo.
     (let args = [path_str repo] @ (if strict then [''--strict''] else [])
      in run e (AUDIT_SCRIPT e) args))"

text \<open>The lines of \<open>primitive list\<close>: each primitive's value, then its files.\<close>

definition primitive_list_lines :: "string list" where
  "primitive_list_lines =
     concat (map (\<lambda>primitive. primitive_value primitive # map (\<lambda>rel. ''  - '' @ rel) (PRIMITIVE_FILES primitive))
                 enum_class.enum)"

definition primitive_list :: "(world, unit) act" where
  "primitive_list = emit_lines primitive_list_lines"

text \<open>\<open>Primitive(value)\<close>: the member whose value is the given string.\<close>

definition parse_primitive :: "string \<Rightarrow> primitive option" where
  "parse_primitive s = find (\<lambda>p. primitive_value p = s) enum_class.enum"



text \<open>
  The status \<open>sys.exit\<close> passes to the operating system, and the byte the
  parent process sees (\<open>status & 0xFF\<close>): a negative code (a script killed
  by a signal) wraps around.
\<close>

definition exit_status :: "abort + unit \<Rightarrow> int" where
  "exit_status r = (case r of Inr _ \<Rightarrow> 0 | Inl (Exit c) \<Rightarrow> c | Inl (Raise _) \<Rightarrow> 1)"

definition exit_byte :: "abort + unit \<Rightarrow> 8 word" where
  "exit_byte r = word_of_int (exit_status r)"

text \<open>Reading back the listing: a name line followed by its \<open>"  - "\<close> item lines.\<close>

definition is_item :: "string \<Rightarrow> bool" where
  "is_item l \<longleftrightarrow> take 4 l = ''  - ''"

function parse_listing :: "string list \<Rightarrow> (string \<times> string list) list" where
  "parse_listing [] = []"
| "parse_listing (l # ls) =
     (l, map (drop 4) (takeWhile is_item ls)) # parse_listing (dropWhile is_item ls)"
  by pat_completeness auto
termination
  by (relation "measure length") (auto simp: le_imp_less_Suc length_dropWhile_le)

definition render_listing :: "(string \<times> string list) list \<Rightarrow> string list" where
  "render_listing xs = concat (map (\<lambda>(n, fs). n # map (\<lambda>rel. ''  - '' @ rel) fs) xs)"

subsection \<open>Parsing and listing\<close>

lemma find_Some_in_set: "find P xs = Some y \<Longrightarrow> y \<in> set xs"
  by (induction xs) (auto split: if_splits)

lemma find_value_iff:
  "distinct (map f xs) \<Longrightarrow> x \<in> set xs \<Longrightarrow> find (\<lambda>p. f p = s) xs = Some x \<longleftrightarrow> f x = s"
proof (induction xs)
  case Nil
  then show ?case by simp
next
  case (Cons a xs)
  show ?case
  proof (cases "f a = s")
    case True
    with Cons.prems show ?thesis by (auto simp: image_iff)
  next
    case False
    have "a \<notin> set xs" using Cons.prems(1) by auto
    then have "find (\<lambda>p. f p = s) xs \<noteq> Some a" by (auto dest: find_Some_in_set)
    with False Cons show ?thesis by auto
  qed
qed

lemma parse_primitive_iff: "parse_primitive s = Some p \<longleftrightarrow> primitive_value p = s"
proof -
  have d: "distinct (map primitive_value enum_class.enum)" by (simp add: enum_primitive_def)
  have "p \<in> set enum_class.enum" using UNIV_enum by blast
  with d show ?thesis by (simp add: parse_primitive_def find_value_iff)
qed

lemma parse_primitive_value [simp]: "parse_primitive (primitive_value p) = Some p"
  by (simp add: parse_primitive_iff)

lemma primitive_value_eq_iff [simp]: "primitive_value p = primitive_value q \<longleftrightarrow> p = q"
proof
  assume eq: "primitive_value p = primitive_value q"
  have "Some p = parse_primitive (primitive_value p)" by (rule parse_primitive_value [symmetric])
  also have "\<dots> = parse_primitive (primitive_value q)" by (simp only: eq)
  also have "\<dots> = Some q" by (rule parse_primitive_value)
  finally show "p = q" by simp
qed simp

lemma parse_render_listing:
  "list_all (\<lambda>(n, fs). \<not> is_item n) xs \<Longrightarrow> parse_listing (render_listing xs) = xs"
proof (induction xs)
  case Nil
  then show ?case by (simp add: render_listing_def)
next
  case (Cons x xs)
  obtain n fs where x: "x = (n, fs)" by fastforce
  let ?items = "map (\<lambda>rel. ''  - '' @ rel) fs"
  have items: "\<And>y. y \<in> set ?items \<Longrightarrow> is_item y" by (auto simp: is_item_def)
  have rest: "takeWhile is_item (render_listing xs) = [] \<and> dropWhile is_item (render_listing xs) = render_listing xs"
    using Cons.prems by (cases xs) (auto simp: render_listing_def)
  have tw: "takeWhile is_item (?items @ render_listing xs) = ?items"
    using takeWhile_append2 [of ?items is_item, OF items] rest by simp
  have dw: "dropWhile is_item (?items @ render_listing xs) = render_listing xs"
    using dropWhile_append2 [of ?items is_item, OF items] rest by simp
  have "render_listing (x # xs) = n # ?items @ render_listing xs"
    by (simp add: render_listing_def x)
  moreover have "map (drop 4) ?items = fs" by (simp add: comp_def)
  ultimately show ?case using tw dw Cons by (simp add: x)
qed

lemma primitive_list_lines_render:
  "primitive_list_lines = render_listing (map (\<lambda>p. (primitive_value p, PRIMITIVE_FILES p)) enum_class.enum)"
  by (simp add: primitive_list_lines_def render_listing_def comp_def)

lemma init_unfold:
  assumes c: "canonical repo" and d: "fs w repo = Some Dir"
  shows "init e (path_str repo) profile force w =
    bindA (run e (BOOTSTRAP_SCRIPT e) ([path_str repo] @ (if force then [''--force''] else []))) (\<lambda>_.
      if profile = baseline then ret ()
      else bindA (apply_primitives e repo (if profile = governed then GOVERNED_PRIMITIVES else AUTONOMOUS_PRIMITIVES) force)
             (\<lambda>_. emit Stdout (CHR 0x0A # ''Initialization complete.'')))
      (w\<lparr>out := out w @ [(Stdout, ''Initializing control metalayer in '' @ path_str repo)]\<rparr>)"
  using resolve_repo_of_path_str [OF c d, of e] by (simp add: init_def bindA_Inr Let_def)


lemma exit_byte_uint: "uint (exit_byte r) = exit_status r mod 256"
  by (simp add: exit_byte_def uint_word_of_int_eq take_bit_eq_mod)

lemma exit_byte_unat: "unat (exit_byte r) = nat (exit_status r mod 256)"
  by (simp add: exit_byte_uint unat_eq_nat_uint)

subsection \<open>Claims about the commands\<close>



text \<open>
  C28. \<open>primitive list\<close> prints a listing that reads back to the catalog:
  every primitive's value in declaration order, each followed by exactly
  its files.
\<close>

theorem primitive_list_roundtrip:
  "primitive_list w = (Inr (), w\<lparr>out := out w @ map (Pair Stdout) primitive_list_lines\<rparr>) \<and>
   parse_listing primitive_list_lines = map (\<lambda>p. (primitive_value p, PRIMITIVE_FILES p)) enum_class.enum"
proof
  show "primitive_list w = (Inr (), w\<lparr>out := out w @ map (Pair Stdout) primitive_list_lines\<rparr>)"
    by (simp add: primitive_list_def emit_lines_apply)
  have "list_all (\<lambda>(n, fs). \<not> is_item n) (map (\<lambda>p. (primitive_value p, PRIMITIVE_FILES p)) enum_class.enum)"
    by (simp add: enum_primitive_def is_item_def)
  then show "parse_listing primitive_list_lines = map (\<lambda>p. (primitive_value p, PRIMITIVE_FILES p)) enum_class.enum"
    by (simp add: primitive_list_lines_render parse_render_listing)
qed

text \<open>
  C26. The parent process sees success exactly when the command succeeded
  or stopped with a \<open>typer.Exit\<close> code divisible by 256: an uncaught
  exception is never reported as success (its status is 1), and a code
  from a script killed by a signal (negative) still fails after the
  reduction to a byte.
\<close>

theorem exit_byte_zero_iff:
  "exit_byte r = 0 \<longleftrightarrow> r = Inr () \<or> (\<exists>c. r = Inl (Exit c) \<and> 256 dvd c)"
proof -
  have "exit_byte r = 0 \<longleftrightarrow> 256 dvd exit_status r"
    by (simp add: exit_byte_uint [symmetric] uint_0_iff dvd_eq_mod_eq_0)
  then show ?thesis by (auto simp: exit_status_def split: sum.splits abort.splits)
qed

text \<open>
  C24. \<open>audit\<close> mirrors the audit script: on a resolved repository it runs
  \<open>audit_control.sh <repo> [--strict]\<close> once and the command's exit status
  is the script's exit code.
\<close>

theorem audit_mirrors_script:
  assumes c: "canonical repo" and d: "fs w repo = Some Dir" and wf: "wf_fs (fs w)"
    and f: "fs w (AUDIT_SCRIPT e) = Some (File b m)" and x: "exec_ok m" and ne: "AUDIT_SCRIPT e \<noteq> []"
    and ext: "run_ext e (AUDIT_SCRIPT e) (path_str repo # (if strict then [''--strict''] else [])) (cwd e) (fs w) = (code, f')"
  shows "audit e (path_str repo) strict w =
      (if code = 0 then Inr () else Inl (Exit code),
       w\<lparr>fs := f', procs := procs w @ [(cwd e, path_str (AUDIT_SCRIPT e) # path_str repo # (if strict then [''--strict''] else []))]\<rparr>)
    \<and> exit_status (fst (audit e (path_str repo) strict w)) = code"
proof -
  have "audit e (path_str repo) strict w = run e (AUDIT_SCRIPT e) (path_str repo # (if strict then [''--strict''] else [])) w"
    using resolve_repo_of_path_str [OF c d, of e] by (simp add: audit_def bindA_Inr Let_def)
  also have "\<dots> = (if code = 0 then Inr () else Inl (Exit code),
       w\<lparr>fs := f', procs := procs w @ [(cwd e, path_str (AUDIT_SCRIPT e) # path_str repo # (if strict then [''--strict''] else []))]\<rparr>)"
    by (rule run_exec [OF wf f x ne ext])
  finally show ?thesis by (simp add: exit_status_def)
qed

theorem audit_mirrors_script_witness:
  "exit_status (fst (audit ex_env_failing ''/repo'' True ex_world)) = 3"
proof -
  have c: "canonical [''repo'']" by (simp add: canonical_def)
  have d: "fs ex_world [''repo''] = Some Dir" by (simp add: scenario_defs)
  have f: "fs ex_world (AUDIT_SCRIPT ex_env_failing) = Some (File [0x61] 493)"
    by (simp add: scenario_defs AUDIT_SCRIPT_def)
  have x: "exec_ok 493" by (simp add: exec_ok_def)
  have ne: "AUDIT_SCRIPT ex_env_failing \<noteq> []" by (simp add: AUDIT_SCRIPT_def)
  have ext: "run_ext ex_env_failing (AUDIT_SCRIPT ex_env_failing)
      (path_str [''repo''] # (if True then [''--strict''] else [])) (cwd ex_env_failing) (fs ex_world) = (3, fs ex_world)"
    by (simp add: scenario_defs)
  show ?thesis
    using audit_mirrors_script [OF c d ex_worlds_wf(1) f x ne ext] by (simp add: exit_status_def path_str_def)
qed

text \<open>
  C25. A failing bootstrap stops \<open>init\<close>: after the greeting line the
  bootstrap script runs once with the repository (and \<open>--force\<close>), and a
  non-zero exit code ends the command with that code before any primitive
  of the profile is applied.
\<close>

theorem init_bootstrap_failure_stops:
  assumes c: "canonical repo" and d: "fs w repo = Some Dir" and wf: "wf_fs (fs w)"
    and f: "fs w (BOOTSTRAP_SCRIPT e) = Some (File b m)" and x: "exec_ok m" and ne: "BOOTSTRAP_SCRIPT e \<noteq> []"
    and ext: "run_ext e (BOOTSTRAP_SCRIPT e) ([path_str repo] @ (if force then [''--force''] else [])) (cwd e) (fs w) = (code, f')"
    and fail: "code \<noteq> 0"
  shows "init e (path_str repo) profile force w =
    (Inl (Exit code), w\<lparr>out := out w @ [(Stdout, ''Initializing control metalayer in '' @ path_str repo)],
                        fs := f', procs := procs w @ [(cwd e, path_str (BOOTSTRAP_SCRIPT e) # [path_str repo] @ (if force then [''--force''] else []))]\<rparr>)"
proof -
  let ?w1 = "w\<lparr>out := out w @ [(Stdout, ''Initializing control metalayer in '' @ path_str repo)]\<rparr>"
  have "run e (BOOTSTRAP_SCRIPT e) ([path_str repo] @ (if force then [''--force''] else [])) ?w1 =
      (Inl (Exit code), ?w1\<lparr>fs := f', procs := procs ?w1 @ [(cwd e, path_str (BOOTSTRAP_SCRIPT e) # [path_str repo] @ (if force then [''--force''] else []))]\<rparr>)"
    using run_exec [of ?w1] wf f x ne ext fail by simp
  then show ?thesis by (simp add: init_unfold [OF c d] bindA_Inl)
qed

theorem init_bootstrap_failure_stops_witness:
  "init ex_env_failing ''/repo'' autonomous False ex_world =
     (Inl (Exit 3), ex_world\<lparr>out := [(Stdout, ''Initializing control metalayer in /repo'')],
        procs := [([''repo''], [''/skill/scripts/bootstrap_control.sh'', ''/repo''])]\<rparr>)"
proof -
  have c: "canonical [''repo'']" by (simp add: canonical_def)
  have d: "fs ex_world [''repo''] = Some Dir" by (simp add: scenario_defs)
  have f: "fs ex_world (BOOTSTRAP_SCRIPT ex_env_failing) = Some (File [0x62] 493)"
    by (simp add: scenario_defs BOOTSTRAP_SCRIPT_def)
  have x: "exec_ok 493" by (simp add: exec_ok_def)
  have ne: "BOOTSTRAP_SCRIPT ex_env_failing \<noteq> []" by (simp add: BOOTSTRAP_SCRIPT_def)
  have ext: "run_ext ex_env_failing (BOOTSTRAP_SCRIPT ex_env_failing)
      ([path_str [''repo'']] @ (if False then [''--force''] else [])) (cwd ex_env_failing) (fs ex_world) = (3, fs ex_world)"
    by (simp add: scenario_defs)
  have fail: "(3::int) \<noteq> 0" by simp
  show ?thesis
    using init_bootstrap_failure_stops [OF c d ex_worlds_wf(1) f x ne ext fail]
    by (simp add: scenario_defs BOOTSTRAP_SCRIPT_def path_str_def)
qed

end
