(* ===== verification/Progress.thy ===== *)
theory Progress
  imports Applier Status
begin

text \<open>
  Progress of \<open>_apply_primitives\<close>: on a sane installation a batch always
  succeeds. Sane (\<open>ready\<close>) means: the file system is well-formed with the
  repository a directory; the template directory and the repository are
  disjoint (neither contains the other); every file of the batch has its
  template as a regular file, no regular file on the path between the
  repository and its target, and no directory at the target; and if
  \<open>hooks\<close> is in the batch, the installer is absent, executable, or
  \<open>--force\<close> is given. The proof is a frame lemma for \<open>_copy_template\<close>
  (it changes the target and creates missing directories above it, nothing
  else) together with the fact that no catalog path is a prefix of another.
\<close>

definition path_clear :: "filesystem \<Rightarrow> path \<Rightarrow> path \<Rightarrow> bool" where
  "path_clear f repo t \<longleftrightarrow>
     list_all (\<lambda>k. f (take k t) = None \<or> f (take k t) = Some Dir) [Suc (length repo)..<length t]"

definition file_ready :: "env \<Rightarrow> path \<Rightarrow> bool \<Rightarrow> filesystem \<Rightarrow> string \<Rightarrow> bool" where
  "file_ready e repo force f rel \<longleftrightarrow>
     (case f (pjoin (TEMPLATE_DIR e) rel) of Some (File _ m) \<Rightarrow> read_ok m | _ \<Rightarrow> False) \<and>
     path_clear f repo (pjoin repo rel) \<and> f (pjoin repo rel) \<noteq> Some Dir \<and>
     (force \<longrightarrow> may_write f (pjoin repo rel))"

definition hooks_ready :: "path \<Rightarrow> bool \<Rightarrow> filesystem \<Rightarrow> bool" where
  "hooks_ready repo force f \<longleftrightarrow>
     force \<or> f (install_hooks_path repo) = None \<or> exec_file f (install_hooks_path repo)"

definition ready :: "env \<Rightarrow> path \<Rightarrow> bool \<Rightarrow> primitive list \<Rightarrow> filesystem \<Rightarrow> bool" where
  "ready e repo force ps f \<longleftrightarrow>
     wf_fs f \<and> f repo = Some Dir \<and> write_ok (new_file_mode e) \<and>
     \<not> prefix repo (TEMPLATE_DIR e) \<and> \<not> prefix (TEMPLATE_DIR e) repo \<and>
     list_all (file_ready e repo force f) (primitives_files ps) \<and>
     (hooks \<in> set ps \<longrightarrow> hooks_ready repo force f)"

subsection \<open>Catalog facts\<close>

lemma catalog_prefix_free:
  "list_all (\<lambda>r. list_all (\<lambda>r'. \<not> strict_prefix (parse_path r) (parse_path r')) (primitives_files enum_class.enum))
     (primitives_files enum_class.enum)"
  by code_simp

lemma in_catalog: "rel \<in> set (PRIMITIVE_FILES p) \<Longrightarrow> rel \<in> set (primitives_files enum_class.enum)"
  using UNIV_enum by (auto simp: primitives_files_def)

lemma catalog_targets_prefix_free:
  assumes "rel \<in> set (PRIMITIVE_FILES p)" and "rel' \<in> set (PRIMITIVE_FILES p')"
  shows "\<not> strict_prefix (pjoin repo rel) (pjoin repo rel')"
proof -
  from assms have c: "clean_rel rel" "clean_rel rel'" by (simp_all add: primitive_files_clean)
  from assms catalog_prefix_free have "\<not> strict_prefix (parse_path rel) (parse_path rel')"
    by (auto simp: list_all_iff dest!: in_catalog)
  with c show ?thesis by (simp add: pjoin_def clean_rel_def strict_prefix_def)
qed

lemma install_hooks_rel: "''scripts/control/install_hooks.sh'' \<in> set (PRIMITIVE_FILES p) \<longleftrightarrow> p = hooks"
  by (cases p) simp_all

lemma install_hooks_executable: "executable_target (install_hooks_path repo) ''scripts/control/install_hooks.sh''"
  by (simp add: executable_target_def install_hooks_path_def path_suffix_def pname_def rfind_def Let_def)

lemma template_not_target:
  assumes "\<not> prefix repo tdir" "\<not> prefix tdir repo" "tdir @ xs = repo @ ys"
  shows False
  using assms by (auto simp: append_eq_append_conv2 prefix_def)

lemma strict_prefix_of_butlast: "prefix q (butlast t) \<Longrightarrow> t \<noteq> [] \<Longrightarrow> strict_prefix q t"
  using strict_prefix_butlast [of t] by (blast intro: prefix_order.le_less_trans)

lemma strict_prefix_take: "k < length t \<Longrightarrow> strict_prefix (take k t) t"
  by (metis append_take_drop_id drop_eq_Nil2 not_le strict_prefix_append_nonempty)

subsection \<open>What \<open>_copy_template\<close> changes\<close>

lemma copy_template_changes:
  assumes run: "copy_template e rel repo force w = (r, w')" and ch: "fs w' q \<noteq> fs w q"
  shows "(q = pjoin repo rel \<and> (\<exists>b m. fs w' q = Some (File b m))) \<or>
         (fs w q = None \<and> fs w' q = Some Dir \<and> prefix q (butlast (pjoin repo rel)))"
proof -
  have mk: "fs w q = None \<and> f1 q = Some Dir \<and> prefix q d" if "mkdir_p (fs w) d = Inr f1" "f1 q \<noteq> fs w q" for f1 d
    using mkdir_p_Inr [OF that(1)] that(2) by blast
  from copy_template_cases [OF run] ch show ?thesis
    by (auto dest: mk dest!: write_bytes_Inr split: if_splits)
qed

lemma copy_template_target_writable:
  assumes run: "copy_template e rel repo force w = (r, w')" and nm: "write_ok (new_file_mode e)"
    and ch: "fs w' (pjoin repo rel) \<noteq> fs w (pjoin repo rel)"
  shows "may_write (fs w') (pjoin repo rel)"
proof -
  have mk: "f1 t = fs w t \<or> f1 t = Some Dir" if "mkdir_p (fs w) d = Inr f1" for f1 d t
    using mkdir_p_Inr [OF that] by blast
  have wr: "may_write f2 t" if "write_bytes f1 t b m = Inr f2" "write_ok m" for f1 f2 t b m
    using write_bytes_Inr [OF that(1)] that(2) by (auto simp: may_write_def split: option.splits node.splits)
  have d: "may_write f t" if "f t = Some Dir" for f t using that by (simp add: may_write_def)
  from copy_template_cases [OF run] ch nm show ?thesis
    by (auto simp: write_ok_def may_write_def dest: mk wr d)
qed

lemma copy_template_file_ready:
  assumes run: "copy_template e rel repo force w = (r, w')"
    and rel: "rel \<in> set (PRIMITIVE_FILES p)" and rel': "rel' \<in> set (PRIMITIVE_FILES p')"
    and d1: "\<not> prefix repo (TEMPLATE_DIR e)" and d2: "\<not> prefix (TEMPLATE_DIR e) repo"
    and nm: "write_ok (new_file_mode e)"
    and fr: "file_ready e repo force (fs w) rel'"
  shows "file_ready e repo force (fs w') rel'"
proof -
  let ?T = "pjoin repo rel" and ?T' = "pjoin repo rel'" and ?S' = "pjoin (TEMPLATE_DIR e) rel'"
  have cl: "clean_rel rel" "clean_rel rel'" using rel rel' by (simp_all add: primitive_files_clean)
  then have T: "?T = repo @ parse_path rel" "parse_path rel \<noteq> []" and S': "?S' = TEMPLATE_DIR e @ parse_path rel'"
    by (simp_all add: pjoin_def clean_rel_def)
  have Tne: "?T \<noteq> []" using T by simp
  have nsp: "\<not> strict_prefix ?T ?T'" "\<not> strict_prefix ?T' ?T"
    using rel rel' by (simp_all add: catalog_targets_prefix_free)
  note chg = copy_template_changes [OF run]
  have src: "fs w' ?S' = fs w ?S'"
  proof (rule ccontr)
    assume "fs w' ?S' \<noteq> fs w ?S'"
    moreover have "fs w ?S' \<noteq> None" using fr by (auto simp: file_ready_def split: option.splits)
    ultimately have "?S' = ?T" by (auto dest: chg)
    with S' T d1 d2 show False by (auto intro: template_not_target)
  qed
  have clear: "path_clear (fs w') repo ?T'"
    unfolding path_clear_def list_all_iff
  proof
    fix k assume k: "k \<in> set [Suc (length repo)..<length ?T']"
    then have sp: "strict_prefix (take k ?T') ?T'" by (simp add: strict_prefix_take)
    have old: "fs w (take k ?T') = None \<or> fs w (take k ?T') = Some Dir"
      using fr k by (simp add: file_ready_def path_clear_def list_all_iff)
    show "fs w' (take k ?T') = None \<or> fs w' (take k ?T') = Some Dir"
    proof (cases "fs w' (take k ?T') = fs w (take k ?T')")
      case True
      with old show ?thesis by simp
    next
      case False
      from chg [OF False] sp nsp(1) show ?thesis by auto
    qed
  qed
  have nd: "fs w' ?T' \<noteq> Some Dir"
  proof (cases "fs w' ?T' = fs w ?T'")
    case True
    with fr show ?thesis by (simp add: file_ready_def)
  next
    case False
    from chg [OF False] nsp(2) Tne show ?thesis by (auto dest: strict_prefix_of_butlast)
  qed
  have wr: "may_write (fs w') ?T'"
    if "may_write (fs w) ?T'"
  proof (cases "fs w' ?T' = fs w ?T'")
    case True
    with that show ?thesis by (simp add: may_write_def)
  next
    case False
    show ?thesis
    proof (cases "?T' = ?T")
      case True
      with False copy_template_target_writable [OF run nm] show ?thesis by simp
    next
      case ne: False
      from chg [OF False] ne have "fs w' ?T' = Some Dir" by auto
      then show ?thesis by (simp add: may_write_def)
    qed
  qed
  from fr src clear nd wr show ?thesis by (simp add: file_ready_def)
qed

lemma copy_template_succeeds:
  assumes wf: "wf_fs (fs w)" and repo: "fs w repo = Some Dir"
    and rel: "rel \<in> set (PRIMITIVE_FILES p)" and fr: "file_ready e repo force (fs w) rel"
  shows "\<exists>st w'. copy_template e rel repo force w = (Inr st, w')"
proof -
  let ?S = "pjoin (TEMPLATE_DIR e) rel" and ?T = "pjoin repo rel"
  have cl: "clean_rel rel" using rel by (simp add: primitive_files_clean)
  then have T: "?T = repo @ parse_path rel" and pne: "parse_path rel \<noteq> []"
    by (simp_all add: pjoin_def clean_rel_def)
  then have Tne: "?T \<noteq> []" by simp
  from fr obtain b m0 where src: "fs w ?S = Some (File b m0)" and rdok: "read_ok m0"
    by (auto simp: file_ready_def split: option.splits node.splits)
  have Sne: "?S \<noteq> []" using wf src by (auto simp: wf_fs_def)
  have dirs: "fs w q = None \<or> fs w q = Some Dir" if q: "prefix q (butlast ?T)" for q
  proof -
    have bl: "butlast ?T = repo @ butlast (parse_path rel)" using T pne by (simp add: butlast_append)
    from q bl have "prefix q repo \<or> strict_prefix repo q" by (simp add: prefix_append_cases)
    then show ?thesis
    proof
      assume "prefix q repo"
      then have "q = repo \<or> strict_prefix q repo" by (auto simp: strict_prefix_def)
      with repo wf show ?thesis by (auto intro: wf_fs_ancestor)
    next
      assume sp: "strict_prefix repo q"
      from q have pT: "prefix q ?T"
        using strict_prefix_butlast [OF Tne] by (blast intro: prefix_order.trans prefix_order.less_imp_le)
      then obtain zs where "?T = q @ zs" by (auto simp: prefix_def)
      then have qt: "take (length q) ?T = q" by simp
      from q have "length q \<le> length (butlast ?T)" by (rule prefix_length_le)
      moreover have "0 < length ?T" using Tne by simp
      ultimately have "length q < length ?T" unfolding length_butlast by linarith
      moreover from sp have "length repo < length q" by (simp add: strict_prefix_def prefix_length_less)
      ultimately have mem: "length q \<in> set [Suc (length repo)..<length ?T]" by simp
      have pc: "\<forall>k \<in> set [Suc (length repo)..<length ?T]. fs w (take k ?T) = None \<or> fs w (take k ?T) = Some Dir"
        using fr by (simp add: file_ready_def path_clear_def list_all_iff)
      from pc mem have "fs w (take (length q) ?T) = None \<or> fs w (take (length q) ?T) = Some Dir" by blast
      with qt show ?thesis by simp
    qed
  qed
  obtain f1 where mk: "mkdir_p (fs w) (butlast ?T) = Inr f1"
    using mkdir_p_succeeds [OF wf] dirs by blast
  have wf1: "wf_fs f1" using mk wf by (rule mkdir_p_wf)
  have keepS: "f1 ?S = fs w ?S" using mk src by (simp add: mkdir_p_keeps_existing)
  have keepT: "f1 ?T = fs w ?T" using mk Tne by (rule mkdir_p_keeps_target)
  have par: "f1 (butlast ?T) = Some Dir" using mk by (blast dest: mkdir_p_Inr)
  have rd: "read_bytes f1 ?S = Inr b" using wf1 Sne keepS src rdok by (simp add: read_bytes_file)
  have nd: "f1 ?T \<noteq> Some Dir" using keepT fr by (simp add: file_ready_def)
  have mw: "may_write f1 ?T" if "\<not> (exists f1 ?T \<and> \<not> force)"
    using that keepT fr by (auto simp: file_ready_def exists_def may_write_def)
  obtain r w' where run: "copy_template e rel repo force w = (r, w')" by fastforce
  from copy_template_cases [OF run] src mk rd par nd mw have "\<exists>st. r = Inr st"
    by (auto simp: exists_def write_bytes_ok)
  with run show ?thesis by blast
qed

lemma install_hooks_target: "pjoin repo ''scripts/control/install_hooks.sh'' = install_hooks_path repo"
  by (simp add: pjoin_def parse_path_def is_abs_def install_hooks_path_def)

lemma copy_template_installs_exec:
  assumes run: "copy_template e ''scripts/control/install_hooks.sh'' repo force w = (Inr st, w')"
    and hr: "hooks_ready repo force (fs w)"
  shows "exec_file (fs w') (install_hooks_path repo)"
proof (cases st)
  case Write
  with copy_template_Inr [OF run] install_hooks_executable [of repo] show ?thesis
    by (auto simp: install_hooks_target exec_file_iff exec_ok_def)
next
  case Skip
  from copy_template_cases [OF run] Skip obtain f1
    where "mkdir_p (fs w) (butlast (install_hooks_path repo)) = Inr f1" "exists f1 (install_hooks_path repo)" "\<not> force"
    by (auto simp: install_hooks_target)
  then have "exists (fs w) (install_hooks_path repo)" "\<not> force" by (simp_all add: mkdir_p_exists_target)
  with hr have "exec_file (fs w) (install_hooks_path repo)" by (auto simp: hooks_ready_def exists_def)
  with run show ?thesis by (rule copy_template_keeps_exec)
qed

lemma copy_template_hooks_ready:
  assumes run: "copy_template e rel repo force w = (Inr st, w')" and rel: "rel \<in> set (PRIMITIVE_FILES p)"
    and hr: "hooks_ready repo force (fs w)"
  shows "hooks_ready repo force (fs w')"
proof (cases "fs w' (install_hooks_path repo) = fs w (install_hooks_path repo)")
  case True
  with hr show ?thesis by (simp add: hooks_ready_def exec_file_def)
next
  case False
  have ih: "''scripts/control/install_hooks.sh'' \<in> set (PRIMITIVE_FILES hooks)" by simp
  have Tne: "pjoin repo rel \<noteq> []"
    using clean_rel_pjoin [OF primitive_files_clean [OF rel], of repo] by auto
  from copy_template_changes [OF run False] show ?thesis
  proof
    assume a: "install_hooks_path repo = pjoin repo rel \<and> (\<exists>b m. fs w' (install_hooks_path repo) = Some (File b m))"
    then have "pjoin repo rel = pjoin repo ''scripts/control/install_hooks.sh''"
      by (simp add: install_hooks_target)
    then have "rel = ''scripts/control/install_hooks.sh''" by (rule pjoin_catalog_inj [OF ih rel])
    with run hr show ?thesis by (simp add: hooks_ready_def copy_template_installs_exec)
  next
    assume "fs w (install_hooks_path repo) = None \<and> fs w' (install_hooks_path repo) = Some Dir \<and>
            prefix (install_hooks_path repo) (butlast (pjoin repo rel))"
    then have "strict_prefix (pjoin repo ''scripts/control/install_hooks.sh'') (pjoin repo rel)"
      using Tne by (simp add: install_hooks_target strict_prefix_of_butlast)
    with catalog_targets_prefix_free [OF ih rel] show ?thesis by simp
  qed
qed

lemma copy_files_keeps_exec:
  "copy_files e repo force rels w = (r, w') \<Longrightarrow> exec_file (fs w) q \<Longrightarrow> exec_file (fs w') q"
proof -
  assume run: "copy_files e repo force rels w = (r, w')" and x: "exec_file (fs w) q"
  have "exec_file (fs w) q \<longrightarrow> exec_file (fs w') q"
    by (rule copy_files_rel [OF run]) (auto dest: copy_template_keeps_exec)
  with x show ?thesis by simp
qed

subsection \<open>Progress of a batch\<close>

lemma copy_files_progress:
  assumes wf: "wf_fs (fs w)" and repo: "fs w repo = Some Dir"
    and d1: "\<not> prefix repo (TEMPLATE_DIR e)" and d2: "\<not> prefix (TEMPLATE_DIR e) repo"
    and nm: "write_ok (new_file_mode e)" and ks: "\<forall>r \<in> set ks. \<exists>p'. r \<in> set (PRIMITIVE_FILES p')"
    and fr: "list_all (file_ready e repo force (fs w)) ks"
    and rels: "set rels \<subseteq> set (PRIMITIVE_FILES p)" and sub: "set rels \<subseteq> set ks"
  shows "\<exists>w'. copy_files e repo force rels w = (Inr (), w') \<and> wf_fs (fs w') \<and> fs w' repo = Some Dir \<and>
     list_all (file_ready e repo force (fs w')) ks \<and>
     (hooks_ready repo force (fs w) \<longrightarrow> hooks_ready repo force (fs w')) \<and>
     (''scripts/control/install_hooks.sh'' \<in> set rels \<longrightarrow> hooks_ready repo force (fs w) \<longrightarrow>
        exec_file (fs w') (install_hooks_path repo))"
  using wf repo fr rels sub
proof (induction rels arbitrary: w)
  case Nil
  then show ?case by (simp add: ret_apply)
next
  case (Cons rel rels)
  have rel: "rel \<in> set (PRIMITIVE_FILES p)" using Cons.prems(4) by simp
  have frel: "file_ready e repo force (fs w) rel" using Cons.prems(3,5) by (simp add: list_all_iff)
  obtain st w1 where ct: "copy_template e rel repo force w = (Inr st, w1)"
    using copy_template_succeeds [OF Cons.prems(1,2) rel frel] by blast
  have g: "grows_below repo (fs w) (fs w1)"
    using copy_template_frame [OF ct Cons.prems(1,2) primitive_files_clean [OF rel]] by blast
  then have wf1: "wf_fs (fs w1)" and r1: "fs w1 repo = Some Dir"
    using grows_below_repo [OF g] Cons.prems(2) by (simp_all add: grows_below_def)
  have fr1: "list_all (file_ready e repo force (fs w1)) ks"
    using Cons.prems(3) ks by (auto simp: list_all_iff intro: copy_template_file_ready [OF ct rel _ d1 d2 nm])
  have hr1: "hooks_ready repo force (fs w) \<longrightarrow> hooks_ready repo force (fs w1)"
    using copy_template_hooks_ready [OF ct rel] by blast
  have ex1: "rel = ''scripts/control/install_hooks.sh'' \<longrightarrow> hooks_ready repo force (fs w) \<longrightarrow>
      exec_file (fs w1) (install_hooks_path repo)"
    using ct copy_template_installs_exec by blast
  let ?w1 = "w1\<lparr>out := out w1 @ [(Stdout, file_line st rel)]\<rparr>"
  obtain w' where rest: "copy_files e repo force rels ?w1 = (Inr (), w')"
    and props: "wf_fs (fs w') \<and> fs w' repo = Some Dir \<and> list_all (file_ready e repo force (fs w')) ks \<and>
       (hooks_ready repo force (fs w1) \<longrightarrow> hooks_ready repo force (fs w')) \<and>
       (''scripts/control/install_hooks.sh'' \<in> set rels \<longrightarrow> hooks_ready repo force (fs w1) \<longrightarrow>
          exec_file (fs w') (install_hooks_path repo))"
    using Cons.IH [of ?w1] wf1 r1 fr1 Cons.prems(4,5) by auto
  have keep: "exec_file (fs w1) (install_hooks_path repo) \<Longrightarrow> exec_file (fs w') (install_hooks_path repo)"
    using copy_files_keeps_exec [OF rest] by simp
  have run: "copy_files e repo force (rel # rels) w = (Inr (), w')"
    using ct rest by (simp add: bindA_Inr)
  show ?case
    using run props hr1 ex1 keep by auto
qed

lemma apply_primitives_progress:
  assumes wf: "wf_fs (fs w)" and repo: "fs w repo = Some Dir"
    and d1: "\<not> prefix repo (TEMPLATE_DIR e)" and d2: "\<not> prefix (TEMPLATE_DIR e) repo"
    and nm: "write_ok (new_file_mode e)" and ks: "\<forall>r \<in> set ks. \<exists>p'. r \<in> set (PRIMITIVE_FILES p')"
    and fr: "list_all (file_ready e repo force (fs w)) ks"
    and sub: "set (primitives_files ps) \<subseteq> set ks"
    and hr: "hooks \<in> set ps \<longrightarrow> hooks_ready repo force (fs w)"
    and inert: "hooks_inert e repo"
  shows "\<exists>w'. apply_primitives e repo ps force w = (Inr (), w')"
  using wf repo fr sub hr
proof (induction ps arbitrary: w)
  case Nil
  then show ?case by (simp add: ret_apply)
next
  case (Cons p ps)
  let ?w0 = "w\<lparr>out := out w @ [(Stdout, header_line p)]\<rparr>"
  have sub_p: "set (PRIMITIVE_FILES p) \<subseteq> set ks" using Cons.prems(4) by (simp add: primitives_files_def)
  obtain w2 where cf: "copy_files e repo force (PRIMITIVE_FILES p) ?w0 = (Inr (), w2)"
    and wf2: "wf_fs (fs w2)" and r2: "fs w2 repo = Some Dir" and fr2: "list_all (file_ready e repo force (fs w2)) ks"
    and hr2: "hooks_ready repo force (fs w) \<longrightarrow> hooks_ready repo force (fs w2)"
    and ex2: "''scripts/control/install_hooks.sh'' \<in> set (PRIMITIVE_FILES p) \<longrightarrow> hooks_ready repo force (fs w) \<longrightarrow>
        exec_file (fs w2) (install_hooks_path repo)"
    using copy_files_progress [OF _ _ d1 d2 nm ks, where w = "?w0" and rels = "PRIMITIVE_FILES p" and p = p] Cons.prems(1,2,3) sub_p
    by auto
  obtain w3 where ah: "(if p = hooks then activate_hooks e repo else ret ()) w2 = (Inr (), w3)"
    and f3: "fs w3 = fs w2"
  proof (cases "p = hooks")
    case True
    with Cons.prems(5) hr2 ex2 have "exec_file (fs w2) (install_hooks_path repo)" by simp
    then obtain b m where f: "fs w2 (install_hooks_path repo) = Some (File b m)" and x: "exec_ok m"
      by (auto simp: exec_file_iff)
    have ext: "run_ext e (install_hooks_path repo) [] repo (fs w2) =
        (fst (run_ext e (install_hooks_path repo) [] repo (fs w2)), fs w2)"
      using inert by (simp add: hooks_inert_def prod_eq_iff)
    from activate_hooks_exec [OF wf2 r2 f x ext] True that show ?thesis by simp
  next
    case False
    with that show ?thesis by (simp add: ret_apply)
  qed
  have "\<exists>w'. apply_primitives e repo ps force w3 = (Inr (), w')"
    using Cons.IH [of w3] wf2 r2 fr2 f3 Cons.prems(4,5) hr2 by (simp add: primitives_files_def)
  then obtain w' where rest: "apply_primitives e repo ps force w3 = (Inr (), w')" by blast
  have "apply_primitives e repo (p # ps) force w = apply_primitives e repo ps force w3"
    by (simp only: apply_primitives.simps bindA_emit bindA_Inr [where m = "copy_files e repo force (PRIMITIVE_FILES p)", OF cf]
        bindA_Inr [where m = "if p = hooks then activate_hooks e repo else ret ()", OF ah])
  with rest show ?case by simp
qed

subsection \<open>Liveness of a batch\<close>

text \<open>
  C10. On a sane installation (\<open>ready\<close>) a batch always succeeds:
  \<open>_apply_primitives\<close> returns normally, with no \<open>typer.Exit\<close> and no
  uncaught exception, whatever the order and repetitions of the primitives
  and whether or not \<open>--force\<close> is given, as long as the hook installer
  leaves the file system alone.
\<close>

theorem apply_succeeds_when_ready:
  assumes rd: "ready e repo force ps (fs w)" and inert: "hooks_inert e repo"
  shows "\<exists>w'. apply_primitives e repo ps force w = (Inr (), w')"
proof -
  have ks: "\<forall>r \<in> set (primitives_files ps). \<exists>p'. r \<in> set (PRIMITIVE_FILES p')"
    by (auto simp: primitives_files_def)
  from rd have wf: "wf_fs (fs w)" and r: "fs w repo = Some Dir" and nm: "write_ok (new_file_mode e)"
    and d1: "\<not> prefix repo (TEMPLATE_DIR e)" and d2: "\<not> prefix (TEMPLATE_DIR e) repo"
    and fr: "list_all (file_ready e repo force (fs w)) (primitives_files ps)"
    and hr: "hooks \<in> set ps \<longrightarrow> hooks_ready repo force (fs w)"
    by (simp_all add: ready_def)
  show ?thesis using apply_primitives_progress [OF wf r d1 d2 nm ks fr subset_refl hr inert] .
qed

theorem apply_succeeds_when_ready_witness:
  "ready ex_env [''repo''] False [policy, commands, hooks] (fs ex_world) \<and>
   (\<exists>w'. apply_primitives ex_env [''repo''] [policy, commands, hooks] False ex_world = (Inr (), w'))"
proof -
  have rd: "ready ex_env [''repo''] False [policy, commands, hooks] (fs ex_world)"
    using ex_worlds_wf(1)
    by (simp add: ready_def file_ready_def path_clear_def hooks_ready_def primitives_files_def
        install_hooks_path_def write_ok_def read_ok_def scenario_defs pathlib_eval TEMPLATE_DIR_def)
  have inert: "hooks_inert ex_env [''repo'']" by (simp add: hooks_inert_def scenario_defs)
  show ?thesis using apply_succeeds_when_ready [OF rd inert] rd by simp
qed

end
