(* ===== verification/Spec2Isabelle.thy ===== *)
theory Spec2Isabelle
  imports Commands Progress
begin

text \<open>
  A verification library for \<open>src/.skills/control-metalayer-loop/scripts/control_wizard.py\<close>,
  the \<open>typer\<close> wizard that materializes the control-metalayer templates of the
  skill into a repository. The program is one file; its parts and the
  theories that model them are:

  \<^item> \<open>Prelude\<close>: the action monad every command runs in. An action maps a
    state to a result and a new state, \<open>(world, 'a) act\<close>; its result is
    \<open>Inl\<close> of an abort (\<open>Exit code\<close> for \<open>typer.Exit\<close>, \<open>Raise e\<close> for an
    uncaught exception) or \<open>Inr\<close> of a value. An abort keeps the state it
    happened in: nothing is rolled back, as in the program.
  \<^item> \<open>Pathlib\<close>: the runtime the program calls, modelled from Python's
    documented behaviour: a file system (a map from absolute paths to
    directories and files with bytes and permission bits, well-formed when
    every parent is a directory, \<open>wf_fs\<close>), the \<open>pathlib\<close> operations used
    (\<open>mkdir_p\<close>, \<open>read_bytes\<close>, \<open>write_bytes\<close>, \<open>chmod\<close>, \<open>pjoin\<close> for
    \<open>/\<close>, \<open>path_str\<close> for \<open>str\<close>) with the owner's read and write bits of a
    file checked by \<open>open\<close>, and \<open>subprocess.run\<close> as \<open>run_process\<close>:
    the execute-permission check of \<open>execve\<close> is modelled, the child's effect
    and exit code come from the environment record \<open>env\<close> (\<open>run_ext\<close>).
    The \<open>world\<close> record holds the file system, the lines printed on stdout
    and stderr, and the processes started.
  \<^item> \<open>Catalog\<close> (lines 28--106): \<open>BASELINE_FILES\<close>, the \<open>profile\<close> and
    \<open>primitive\<close> enumerations with their values, \<open>PRIMITIVE_FILES\<close>,
    \<open>GOVERNED_PRIMITIVES\<close>, \<open>AUTONOMOUS_PRIMITIVES\<close>.
  \<^item> \<open>Materializer\<close>: \<open>copy_template\<close> is \<open>_copy_template\<close> (126--141),
    \<open>TEMPLATE_DIR\<close> lines 22--24.
  \<^item> \<open>Bridge\<close>: \<open>run\<close> is \<open>_run\<close> (117--123), \<open>activate_hooks\<close> is
    \<open>_activate_hooks\<close> (144--153).
  \<^item> \<open>Applier\<close>: \<open>apply_primitives\<close> is \<open>_apply_primitives\<close> (156--164), with
    its inner loop over the files \<open>copy_files\<close>.
  \<^item> \<open>Resolver\<close>: \<open>resolve_repo\<close> is \<open>_resolve_repo\<close> (109--114) with
    \<open>expanduser\<close> and \<open>resolve\<close>.
  \<^item> \<open>Status\<close>: \<open>status\<close> is the \<open>status\<close> command (203--224).
  \<^item> \<open>Commands\<close>: \<open>init\<close>, \<open>audit\<close>, \<open>primitive_list\<close>, \<open>primitive_add\<close>
    (167--245), the parsing of primitive names, and \<open>exit_status\<close> /
    \<open>exit_byte\<close> for the status of \<open>app()\<close> (248--249).
  \<^item> \<open>Progress\<close>: when a batch of \<open>_apply_primitives\<close> is certain to
    return normally: the predicate \<open>ready\<close> on the file system before the
    batch (readable templates, no file on the way to a target and no
    directory at it, writable targets under \<open>--force\<close>, an absent or
    executable hook installer) and the lemmas that it is kept by every copy.
  \<^item> \<open>Scenario\<close>: a concrete installation (skill in \<open>/skill\<close>, repository
    \<open>/repo\<close>, the \<open>topology\<close> template missing) on which every witness
    evaluates the definitions by \<open>simp\<close> or \<open>code_simp\<close>.

  What the lemmas show. \<open>Materializer\<close>: the outcome of
  \<open>_copy_template\<close> on every branch (\<open>copy_template_cases\<close>), its frame,
  and that on file contents it refines the specification's contract
  \<open>copy_spec\<close>; a forced copy onto a read-only file raises
  \<open>PermissionError\<close> and changes nothing. \<open>Applier\<close>: generic transitive-relation lemmas
  (\<open>copy_files_rel\<close>, \<open>apply_rel\<close>) that lift per-file facts to batches;
  from them: no existing entry changes without \<open>--force\<close>; a batch changes
  the file system only strictly below the repository; an abort ends the
  batch; hooks run once per occurrence of \<open>hooks\<close>; after a successful
  batch the repository is \<open>settled\<close> and a rerun without \<open>--force\<close> only
  skips. \<open>Progress\<close>: liveness, a batch on a \<open>ready\<close> installation
  succeeds (by induction over the primitives and their files, with a frame
  lemma for \<open>_copy_template\<close> and the prefix-freeness of the catalog's
  paths). \<open>Bridge\<close>: exit codes are propagated by \<open>_run\<close>; hook activation
  only warns on a non-zero exit but raises \<open>PermissionError\<close> when the
  installer is not executable. \<open>Resolver\<close>: a resolved repository is a
  canonical existing directory, \<open>str\<close> round-trips it, \<open>~\<close> is the
  home directory and \<open>..\<close> cancels the part before it, and the error
  branches. \<open>Status\<close>: the marker is the specification's tri-state, the
  line of a primitive one of whose files was deleted reads \<open>PARTIAL\<close> (or
  \<open>MISS\<close>), the command is read-only. \<open>Commands\<close>: \<open>primitive add\<close>
  applies exactly the primitives named, the listing round-trips, \<open>audit\<close>
  and \<open>init\<close> propagate script failures, the exit byte is zero only for
  success or a code divisible by 256. This theory: properties that span components
  (profile monotonicity, coverage after applying, the state after an abort).

  Bounds and fuel: every loop of the program runs over a finite list (the
  catalog, the primitives given, the files of a primitive), so all
  definitions are structural recursion or \<open>fun\<close>/\<open>function\<close> with a
  measure (\<open>mkdir_p\<close> on the length of the path, \<open>nat_str\<close> on the number,
  \<open>parse_listing\<close> on the length of the list); no fuel is needed. Exit
  statuses are taken modulo 256 as an \<open>8 word\<close>.

  Assumptions of batch-level theorems: the hook installer leaves the whole
  modelled file system unchanged (\<open>hooks_inert\<close>). A real
  \<open>install_hooks.sh\<close> writes git's configuration (\<open>.git/config\<close>), which
  the model therefore leaves out: the theorems that fix the file system
  after a batch with \<open>hooks\<close> speak of a repository without that file. The
  file system is well-formed with the repository a directory.

  Not modelled: symbolic links, ownership (the wizard is taken to own the
  files it touches, and not to be \<open>root\<close>), umask other than through the
  creation mode \<open>new_file_mode\<close>, concurrent writers; permissions of
  directories: a directory carries no mode, so creating a directory or a
  new file in an existing directory never fails with \<open>PermissionError\<close>
  (the permission bits of files are modelled); the colours of
  \<open>typer.secho\<close>; the external scripts \<open>bootstrap_control.sh\<close>,
  \<open>audit_control.sh\<close> and \<open>install_hooks.sh\<close> (their effect is a parameter);
  \<open>typer\<close>'s option parsing, help output and the text of its usage errors
  (only their exit code 2 for a bad primitive name); the import guard and app
  registration of lines 11--20, which hold no program state.
\<close>

subsection \<open>Properties spanning the components\<close>

text \<open>
  C12. Profile monotonicity: on the same repository and \<open>--force\<close>, every
  entry the governed batch leaves in the file system is also present after
  the autonomous batch, which prints and runs everything the governed one
  does first (the autonomous primitives extend the governed ones).
\<close>

theorem governed_contained_in_autonomous:
  assumes gov: "apply_primitives e repo GOVERNED_PRIMITIVES force w = (r2, w2)"
    and aut: "apply_primitives e repo AUTONOMOUS_PRIMITIVES force w = (r3, w3)"
    and inert: "hooks_inert e repo"
  shows "(\<forall>p. fs w2 p \<noteq> None \<longrightarrow> fs w3 p \<noteq> None) \<and> prefix (out w2) (out w3) \<and> prefix (procs w2) (procs w3)"
proof -
  have split: "apply_primitives e repo AUTONOMOUS_PRIMITIVES force w =
      bindA (apply_primitives e repo GOVERNED_PRIMITIVES force) (\<lambda>_. apply_primitives e repo [recovery, state, nightly, web, cli] force) w"
    by (simp add: AUTONOMOUS_PRIMITIVES_def apply_primitives_append)
  show ?thesis
  proof (cases r2)
    case (Inl err)
    with gov aut split have "w3 = w2" by (simp add: bindA_Inl)
    then show ?thesis by simp
  next
    case (Inr u)
    with gov aut split have rest: "apply_primitives e repo [recovery, state, nightly, web, cli] force w2 = (r3, w3)"
      by (simp add: bindA_Inr)
    from apply_primitives_keeps [OF rest inert] have "\<forall>p. fs w2 p \<noteq> None \<longrightarrow> fs w3 p \<noteq> None"
      by (simp add: exists_def)
    with apply_primitives_prefix [OF rest] show ?thesis by simp
  qed
qed

theorem governed_contained_in_autonomous_witness:
  "fs (snd (apply_primitives ex_env [''repo''] AUTONOMOUS_PRIMITIVES True ex_world)) [''repo'', ''.control''] \<noteq> None \<and>
   prefix (out (snd (apply_primitives ex_env [''repo''] GOVERNED_PRIMITIVES True ex_world)))
          (out (snd (apply_primitives ex_env [''repo''] AUTONOMOUS_PRIMITIVES True ex_world)))"
proof -
  have inert: "hooks_inert ex_env [''repo'']" by (simp add: hooks_inert_def scenario_defs)
  have gov: "fs (snd (apply_primitives ex_env [''repo''] GOVERNED_PRIMITIVES True ex_world)) [''repo'', ''.control''] \<noteq> None"
    by (simp add: applier_eval GOVERNED_PRIMITIVES_def)
  show ?thesis
    using governed_contained_in_autonomous [OF prod.collapse [symmetric] prod.collapse [symmetric] inert] gov
    by blast
qed

text \<open>
  C11. Coverage after applying: once a batch succeeded, \<open>status\<close> on the
  resolved repository succeeds, changes nothing but the output, and reports
  every primitive of the batch as full, with the line
  \<open>[OK ] <primitive>: n/n\<close>.
\<close>

theorem status_after_apply_reports_full:
  assumes run: "apply_primitives e repo ps force w = (Inr (), w')"
    and wf: "wf_fs (fs w)" and repo: "fs w repo = Some Dir" and inert: "hooks_inert e repo"
    and c: "canonical repo" and p: "p \<in> set ps"
  shows "coverage_of (fs w') repo p = Full \<and>
    status e (path_str repo) w' = (Inr (), w'\<lparr>out := out w' @ map (Pair Stdout) (status_lines (fs w') repo)\<rparr>) \<and>
    primitive_line (fs w') repo p =
      ''  [OK ] '' @ primitive_value p @ '': '' @ nat_str (length (PRIMITIVE_FILES p)) @ ''/'' @ nat_str (length (PRIMITIVE_FILES p))"
proof -
  have st: "settled e repo ps (fs w')" using run wf repo inert by (rule apply_primitives_settles)
  then have r': "fs w' repo = Some Dir"
    and files: "list_all (\<lambda>rel. exists (fs w') (pjoin repo rel)) (PRIMITIVE_FILES p)"
    using p by (auto simp: settled_def primitives_files_def list_all_iff)
  have full: "coverage_of (fs w') repo p = Full" using files by (simp add: coverage_of_def)
  have cnt: "present_count (fs w') repo (PRIMITIVE_FILES p) = length (PRIMITIVE_FILES p)"
    using files by (simp add: present_count_all)
  have "status e (path_str repo) w' = (Inr (), w'\<lparr>out := out w' @ map (Pair Stdout) (status_lines (fs w') repo)\<rparr>)"
    using resolve_repo_of_path_str [OF c r', of e] by (rule status_unfold)
  with full cnt show ?thesis by (simp add: primitive_line_def coverage_marker_def Let_def)
qed

theorem status_after_apply_reports_full_witness:
  "primitive_line (fs (snd (apply_primitives ex_env [''repo''] [policy, commands] False ex_world))) [''repo''] policy =
     ''  [OK ] policy: 1/1''"
proof -
  have ok: "fst (apply_primitives ex_env [''repo''] [policy, commands] False ex_world) = Inr ()"
    by (simp add: applier_eval)
  then have run: "apply_primitives ex_env [''repo''] [policy, commands] False ex_world =
      (Inr (), snd (apply_primitives ex_env [''repo''] [policy, commands] False ex_world))"
    by (metis prod.collapse)
  have repo: "fs ex_world [''repo''] = Some Dir" by (simp add: scenario_defs)
  have inert: "hooks_inert ex_env [''repo'']" by (simp add: hooks_inert_def scenario_defs)
  have c: "canonical [''repo'']" by (simp add: canonical_def)
  have p: "policy \<in> set [policy, commands]" by simp
  have line: "''  [OK ] '' @ primitive_value policy @ '': '' @ nat_str (length (PRIMITIVE_FILES policy)) @ ''/''
      @ nat_str (length (PRIMITIVE_FILES policy)) = ''  [OK ] policy: 1/1''"
    by code_simp
  show ?thesis
    using status_after_apply_reports_full [OF run ex_worlds_wf(1) repo inert c p, THEN conjunct2, THEN conjunct2] line
    by (rule trans)
qed

text \<open>
  C5. Fatal template skew leaves the earlier primitives complete: when a
  batch \<open>ps @ qs\<close> aborts in \<open>qs\<close> (for instance on a missing template),
  the primitives \<open>ps\<close> before it have been fully materialized, and their
  files are still in place after the abort.
\<close>

theorem abort_keeps_earlier_primitives:
  assumes run: "apply_primitives e repo (ps @ qs) force w = (r, w')"
    and pre: "fst (apply_primitives e repo ps force w) = Inr ()"
    and wf: "wf_fs (fs w)" and repo: "fs w repo = Some Dir" and inert: "hooks_inert e repo"
  shows "settled e repo ps (fs w')"
proof -
  obtain w1 where first: "apply_primitives e repo ps force w = (Inr (), w1)"
    using pre by (metis prod.collapse)
  with run have rest: "apply_primitives e repo qs force w1 = (r, w')"
    by (simp add: apply_primitives_append bindA_Inr)
  have st1: "settled e repo ps (fs w1)" using first wf repo inert by (rule apply_primitives_settles)
  then have wf1: "wf_fs (fs w1)" and r1: "fs w1 repo = Some Dir" by (simp_all add: settled_def)
  have g: "grows_below repo (fs w1) (fs w')" using rest wf1 r1 inert by (rule apply_primitives_grows_below)
  show ?thesis
  proof (rule settled_mono [OF st1])
    show "wf_fs (fs w')" using g by (simp add: grows_below_def)
    show "fs w' repo = Some Dir" using g r1 by (simp add: grows_below_repo)
  qed (use apply_primitives_keeps [OF rest inert] in blast)+
qed

theorem abort_keeps_earlier_primitives_witness:
  "settled ex_env [''repo''] [policy] (fs (snd (apply_primitives ex_env [''repo''] ([policy] @ [topology]) False ex_world)))"
proof -
  have pre: "fst (apply_primitives ex_env [''repo''] [policy] False ex_world) = Inr ()"
    by (simp add: applier_eval)
  have repo: "fs ex_world [''repo''] = Some Dir" by (simp add: scenario_defs)
  have inert: "hooks_inert ex_env [''repo'']" by (simp add: hooks_inert_def scenario_defs)
  show ?thesis
    using abort_keeps_earlier_primitives [OF prod.collapse [symmetric] pre ex_worlds_wf(1) repo inert] .
qed

end
